(* ===== verification/Prelude.thy ===== *)
theory Prelude
  imports
    Main
    "HOL-Library.Word"
    "HOL-Library.AList"
    "HOL-Library.Char_ord"
    "HOL-Library.List_Lexorder"
    "HOL-Library.Code_Target_Nat"
begin

text \<open>
  What every component shares: the Go values the service computes with (byte strings, instants,
  64-bit integers, \<open>error\<close> values and maps keyed by strings), the few functions of the Go
  standard library on strings that the service calls, and the generic lemmas about them.

  A Go \<open>string\<close> is a byte sequence and is modelled by \<^typ>\<open>string\<close> (a list of
  8-bit characters); \<open><\<close> on strings is the byte-wise lexicographic order. A
  \<open>time.Time\<close> is the number of nanoseconds since Go's zero time, so \<open>IsZero\<close> is
  \<open>t = 0\<close>. A Go map keyed by strings is an association list; its iteration order, which Go
  leaves unspecified, is the list order, and the well-formedness predicate \<open>twf\<close> (distinct
  keys) makes what the service computes from a scan independent of it.
\<close>

named_theorems go_simps \<open>unfolding rules of the small Go helpers\<close>

section \<open>Errors\<close>

text \<open>
  Every sentinel error and error type of the modelled packages is a constructor, named after its
  package. A formatted error keeps its format string and its arguments.
\<close>

datatype goerr =
    ErrForbidden string                     \<comment> \<open>authz\<close>
  | RepoNotFound | RepoConflict | RepoNotEmpty  \<comment> \<open>repo\<close>
  | InjectedErr string                      \<comment> \<open>memstore\<close>
  | IpnetParse | IpnetTooLarge | IpnetExhausted | IpnetPrefix
  | IpnetParseMsg string "string list"      \<comment> \<open>ipnet, wrapping ErrParse\<close>
  | SubnetsNotFound | SubnetsNotEmpty | SubnetsValidation string "string list"
  | AddressesNotFound | AddressesNoAvailable | AddressesConflict
  | VlansValidation string "string list"
  | LocationsValidation string
  | GroupsValidation string
  | SnmpFieldError string string | SnmpNoEnvelope | SnmpUnreadable
  | ScanTooLarge | ScanIPv6 | ScanActive | ScanTerminal
  | AuditInvalid string string
  | RepoSyncDisabled
  | OtherErr string

type_synonym 'a res = "goerr + 'a"

type_synonym time = int

section \<open>Per-call environment\<close>

text \<open>
  What an operation reads from outside the program: the clock of the service, the clock of the
  store and the identifiers \<open>store.NewID\<close> draws, the \<open>n\<close>-th call returning
  \<open>env_ids e n\<close>.
\<close>

record env =
  env_now :: time
  env_mnow :: time
  env_ids :: "nat \<Rightarrow> string"

definition env_skip :: "nat \<Rightarrow> env \<Rightarrow> env" where
  "env_skip n e = e\<lparr>env_ids := (\<lambda>k. env_ids e (k + n))\<rparr>"

text \<open>A concrete environment for examples.\<close>

definition env0 :: env where
  "env0 = \<lparr>env_now = 5, env_mnow = 7, env_ids = (\<lambda>n. ''id'' @ replicate n CHR ''x'')\<rparr>"

lemma env_skip_simps [simp]:
  "env_now (env_skip n e) = env_now e" "env_mnow (env_skip n e) = env_mnow e"
  "env_ids (env_skip n e) k = env_ids e (k + n)"
  by (simp_all add: env_skip_def)

section \<open>64-bit integers\<close>

definition wrap64 :: "int \<Rightarrow> int" where
  "wrap64 x = (x + 2 ^ 63) mod 2 ^ 64 - 2 ^ 63"

definition maxInt64 :: int where
  "maxInt64 = 2 ^ 63 - 1"

lemma wrap64_id: "- (2 ^ 63) \<le> x \<Longrightarrow> x < 2 ^ 63 \<Longrightarrow> wrap64 x = x"
  by (simp add: wrap64_def)

lemma wrap64_range: "- (2 ^ 63) \<le> wrap64 x \<and> wrap64 x < 2 ^ 63"
  by (simp add: wrap64_def)

section \<open>Maps keyed by strings\<close>

type_synonym 'v tbl = "(string \<times> 'v) list"

definition tget :: "('k \<times> 'v) list \<Rightarrow> 'k \<Rightarrow> 'v option" where
  "tget t k = map_of t k"

definition tput :: "'k \<Rightarrow> 'v \<Rightarrow> ('k \<times> 'v) list \<Rightarrow> ('k \<times> 'v) list" where
  "tput k v t = AList.update k v t"

definition tdel :: "'k \<Rightarrow> ('k \<times> 'v) list \<Rightarrow> ('k \<times> 'v) list" where
  "tdel k t = AList.delete k t"

definition tvals :: "('k \<times> 'v) list \<Rightarrow> 'v list" where
  "tvals t = map snd t"

definition tmap :: "('v \<Rightarrow> 'v) \<Rightarrow> ('k \<times> 'v) list \<Rightarrow> ('k \<times> 'v) list" where
  "tmap f t = map (\<lambda>(k, v). (k, f v)) t"

definition tdrop :: "('v \<Rightarrow> bool) \<Rightarrow> ('k \<times> 'v) list \<Rightarrow> ('k \<times> 'v) list" where
  "tdrop P t = filter (\<lambda>(k, v). \<not> P v) t"

definition twf :: "('k \<times> 'v) list \<Rightarrow> bool" where
  "twf t = distinct (map fst t)"

lemma tget_empty [simp]: "tget [] k = None"
  by (simp add: tget_def)

lemma tget_tput [simp]: "tget (tput k v t) j = (if j = k then Some v else tget t j)"
  by (simp add: tget_def tput_def update_conv')

lemma tget_tdel [simp]: "tget (tdel k t) j = (if j = k then None else tget t j)"
  by (simp add: tget_def tdel_def delete_conv')

lemma tget_tmap [simp]: "tget (tmap f t) k = map_option f (tget t k)"
  by (simp add: tget_def tmap_def map_of_map)

lemma twf_empty [simp]: "twf []"
  by (simp add: twf_def)

lemma twf_tput [simp, intro]: "twf t \<Longrightarrow> twf (tput k v t)"
  by (simp add: twf_def tput_def distinct_update)

lemma twf_tdel [simp, intro]: "twf t \<Longrightarrow> twf (tdel k t)"
  by (simp add: twf_def tdel_def distinct_delete)

lemma twf_tmap [simp]: "twf (tmap f t) = twf t"
  by (simp add: twf_def tmap_def comp_def case_prod_unfold)

lemma twf_tdrop [simp, intro]: "twf t \<Longrightarrow> twf (tdrop P t)"
  by (simp add: twf_def tdrop_def distinct_map_filter)

lemma tget_Some_mem: "tget t k = Some v \<Longrightarrow> v \<in> set (tvals t)"
  by (auto simp: tget_def tvals_def dest: map_of_SomeD intro: rev_image_eqI)

lemma tvals_mem_iff: "twf t \<Longrightarrow> v \<in> set (tvals t) \<longleftrightarrow> (\<exists>k. tget t k = Some v)"
  by (auto simp: tget_def tvals_def twf_def dest: map_of_SomeD intro: rev_image_eqI)

lemma tget_tdrop: "twf t \<Longrightarrow>
    tget (tdrop P t) k = (case tget t k of None \<Rightarrow> None | Some v \<Rightarrow> if P v then None else Some v)"
  by (induction t) (auto simp: tget_def twf_def tdrop_def map_of_eq_None_iff split: option.splits
      dest: map_of_SomeD intro: rev_image_eqI)

text \<open>Deleting a list of keys one by one, as a loop over collected keys does.\<close>

lemma tget_fold_tdel: "tget (fold tdel ks t) k = (if k \<in> set ks then None else tget t k)"
  by (induction ks arbitrary: t) auto

lemma twf_fold_tdel [simp, intro]: "twf t \<Longrightarrow> twf (fold tdel ks t)"
  by (induction ks arbitrary: t) auto

lemma keys_where: "twf t \<Longrightarrow> k \<in> set (map fst (filter (\<lambda>(k, v). P v) t)) \<longleftrightarrow>
    (\<exists>v. tget t k = Some v \<and> P v)"
  by (force simp: tget_def twf_def)

text \<open>The first stored value that satisfies a predicate, as a loop over a map finds it.\<close>

definition tfind :: "('v \<Rightarrow> bool) \<Rightarrow> ('k \<times> 'v) list \<Rightarrow> ('k \<times> 'v) option" where
  "tfind P t = find (\<lambda>(k, v). P v) t"

lemma tfind_Some: "tfind P t = Some (k, v) \<Longrightarrow> twf t \<Longrightarrow> tget t k = Some v \<and> P v"
  by (auto simp: tfind_def tget_def twf_def find_Some_iff case_prod_unfold
      intro!: map_of_is_SomeI) (metis snd_conv)

lemma tfind_None: "tfind P t = None \<longleftrightarrow> (\<forall>v \<in> set (tvals t). \<not> P v)"
  by (auto simp: tfind_def find_None_iff tvals_def)

lemma list_ex_tvals: "twf t \<Longrightarrow> list_ex P (tvals t) \<longleftrightarrow> (\<exists>k v. tget t k = Some v \<and> P v)"
  by (simp add: list_ex_iff Bex_def tvals_mem_iff) blast

text \<open>The number of values a counting loop finds.\<close>

definition tcount :: "('v \<Rightarrow> bool) \<Rightarrow> ('k \<times> 'v) list \<Rightarrow> int" where
  "tcount P t = int (length (filter P (tvals t)))"

lemma tcount_nonneg [simp]: "0 \<le> tcount P t"
  by (simp add: tcount_def)

lemma tcount_zero: "tcount P t = 0 \<longleftrightarrow> (\<forall>v \<in> set (tvals t). \<not> P v)"
  by (simp add: tcount_def filter_empty_conv)

section \<open>Strings\<close>

definition ord :: "char \<Rightarrow> nat" where
  "ord c = of_char c"

lemma ord_less [simp]: "ord c < 256"
  by (simp add: ord_def)

lemma ord_char_of [simp]: "n < 256 \<Longrightarrow> ord (char_of n) = n"
  by (simp add: ord_def)

lemma ord_eq_iff [simp]: "ord c = ord d \<longleftrightarrow> c = d"
  by (simp add: ord_def)

definition is_digit :: "char \<Rightarrow> bool" where
  "is_digit c = (48 \<le> ord c \<and> ord c \<le> 57)"

text \<open>\<open>strings.Cut\<close> at a one-byte separator: before, after, found.\<close>

fun cut_at :: "char \<Rightarrow> string \<Rightarrow> string \<times> string \<times> bool" where
  "cut_at c [] = ([], [], False)"
| "cut_at c (x # s) = (if x = c then ([], s, True)
     else (let (a, b, ok) = cut_at c s in (x # a, b, ok)))"

lemma cut_at_append: "c \<notin> set a \<Longrightarrow> cut_at c (a @ c # b) = (a, b, True)"
  by (induction a) auto

lemma cut_at_notin: "c \<notin> set a \<Longrightarrow> cut_at c a = (a, [], False)"
  by (induction a) auto

lemma cut_at_found: "cut_at c s = (a, b, True) \<Longrightarrow> s = a @ c # b \<and> c \<notin> set a"
  by (induction s arbitrary: a) (auto split: if_splits prod.splits)

text \<open>\<open>strings.HasPrefix\<close>, \<open>strings.Contains\<close> and \<open>strings.ToLower\<close> on ASCII
  text. The definitions that search names and hostnames with it are those of the code for such
  names only; letters outside ASCII are compared as they are. Where the code relies on the folding of
  every text, for the keys of audit details, \<open>Audit_Event.key_lower\<close> adds what the rest of
  Unicode contributes.\<close>

definition has_prefix :: "string \<Rightarrow> string \<Rightarrow> bool" where
  "has_prefix s p = (take (length p) s = p)"

definition contains_sub :: "string \<Rightarrow> string \<Rightarrow> bool" where
  "contains_sub s q = list_ex (\<lambda>i. has_prefix (drop i s) q) [0..<Suc (length s)]"

definition lower_char :: "char \<Rightarrow> char" where
  "lower_char c = (if 65 \<le> ord c \<and> ord c \<le> 90 then char_of (ord c + 32) else c)"

definition to_lower :: "string \<Rightarrow> string" where
  "to_lower = map lower_char"

text \<open>\<open>strings.EqualFold\<close> on ASCII text.\<close>

definition equal_fold :: "string \<Rightarrow> string \<Rightarrow> bool" where
  "equal_fold a b = (to_lower a = to_lower b)"

text \<open>
  \<open>strings.TrimSpace\<close>: the UTF-8 encodings of the code points \<open>unicode.IsSpace\<close> accepts
  are removed from both ends. Matching an encoding at either end is what Go's rune decoding finds
  there, since it accepts no other encoding of these code points.
\<close>

definition space_encodings :: "string list" where
  "space_encodings =
     [[CHR 0x09], [CHR 0x0A], [CHR 0x0B], [CHR 0x0C], [CHR 0x0D], [CHR 0x20],
      [CHR 0xC2, CHR 0x85], [CHR 0xC2, CHR 0xA0], [CHR 0xE1, CHR 0x9A, CHR 0x80],
      [CHR 0xE2, CHR 0x80, CHR 0x80], [CHR 0xE2, CHR 0x80, CHR 0x81], [CHR 0xE2, CHR 0x80, CHR 0x82],
      [CHR 0xE2, CHR 0x80, CHR 0x83], [CHR 0xE2, CHR 0x80, CHR 0x84], [CHR 0xE2, CHR 0x80, CHR 0x85],
      [CHR 0xE2, CHR 0x80, CHR 0x86], [CHR 0xE2, CHR 0x80, CHR 0x87], [CHR 0xE2, CHR 0x80, CHR 0x88],
      [CHR 0xE2, CHR 0x80, CHR 0x89], [CHR 0xE2, CHR 0x80, CHR 0x8A], [CHR 0xE2, CHR 0x80, CHR 0xA8],
      [CHR 0xE2, CHR 0x80, CHR 0xA9], [CHR 0xE2, CHR 0x80, CHR 0xAF], [CHR 0xE2, CHR 0x81, CHR 0x9F],
      [CHR 0xE3, CHR 0x80, CHR 0x80]]"

function strip_front :: "string list \<Rightarrow> string \<Rightarrow> string" where
  "strip_front ps s =
     (case find (\<lambda>p. p \<noteq> [] \<and> has_prefix s p) ps of
        None \<Rightarrow> s
      | Some p \<Rightarrow> strip_front ps (drop (length p) s))"
  by pat_completeness auto
termination
proof (relation "measure (length \<circ> snd)")
  fix ps s p
  assume "find (\<lambda>p. p \<noteq> [] \<and> has_prefix s p) ps = Some p"
  then have "p \<noteq> [] \<and> has_prefix s p"
    by (auto simp: find_Some_iff)
  then have "0 < length p" and "0 < length s"
    by (auto simp: has_prefix_def)
  then show "((ps, drop (length p) s), (ps, s)) \<in> measure (length \<circ> snd)"
    by simp
qed simp

declare strip_front.simps [simp del]

definition trim_space :: "string \<Rightarrow> string" where
  "trim_space s = rev (strip_front (map rev space_encodings) (rev (strip_front space_encodings s)))"

definition graphic :: "string \<Rightarrow> bool" where
  "graphic s = (\<forall>c \<in> set s. 33 \<le> ord c \<and> ord c < 127)"

lemma strip_front_graphic:
  assumes "graphic s" and "\<forall>p \<in> set ps. p \<noteq> [] \<longrightarrow> \<not> graphic [hd p]"
  shows "strip_front ps s = s"
proof -
  have "find (\<lambda>p. p \<noteq> [] \<and> has_prefix s p) ps = None"
  proof (subst find_None_iff, intro notI, elim exE conjE)
    fix p
    assume p: "p \<in> set ps" "p \<noteq> []" "has_prefix s p"
    then have "hd p \<in> set s"
      by (metis has_prefix_def hd_in_set in_set_takeD)
    with assms p show False
      by (auto simp: graphic_def)
  qed
  then show ?thesis
    by (simp add: strip_front.simps)
qed

lemma trim_space_graphic:
  assumes "graphic s"
  shows "trim_space s = s"
proof -
  have l: "\<forall>p \<in> set space_encodings. p \<noteq> [] \<longrightarrow> \<not> graphic [hd p]"
    by (simp add: space_encodings_def graphic_def ord_def)
  have r: "\<forall>p \<in> set (map rev space_encodings). p \<noteq> [] \<longrightarrow> \<not> graphic [hd p]"
    by (simp add: space_encodings_def graphic_def ord_def)
  have "graphic (rev s)"
    using assms by (simp add: graphic_def)
  then show ?thesis
    using strip_front_graphic [OF assms l] strip_front_graphic [OF _ r, of "rev s"]
    by (simp add: trim_space_def)
qed

text \<open>Decimal and hexadecimal digits, as \<open>strconv\<close> and \<open>fmt\<close> print them.\<close>

definition digit_char :: "nat \<Rightarrow> char" where
  "digit_char d = (if d < 10 then char_of (48 + d) else char_of (87 + d))"

fun digits_base :: "nat \<Rightarrow> nat \<Rightarrow> string" where
  "digits_base b n = (if b < 2 \<or> n < b then [digit_char n]
     else digits_base b (n div b) @ [digit_char (n mod b)])"

declare digits_base.simps [simp del]

definition itoa :: "nat \<Rightarrow> string" where
  "itoa n = digits_base 10 n"

definition itoa_int :: "int \<Rightarrow> string" where
  "itoa_int i = (if i < 0 then CHR ''-'' # itoa (nat (- i)) else itoa (nat i))"

definition hex :: "nat \<Rightarrow> string" where
  "hex n = digits_base 16 n"

lemma digits_base_small: "n < b \<Longrightarrow> digits_base b n = [digit_char n]"
  by (simp add: digits_base.simps)

lemma digits_base_big: "2 \<le> b \<Longrightarrow> b \<le> n \<Longrightarrow>
    digits_base b n = digits_base b (n div b) @ [digit_char (n mod b)]"
  by (subst digits_base.simps) simp

lemma digits_base_nonempty [simp]: "digits_base b n \<noteq> []"
  by (subst digits_base.simps) simp

lemma itoa_nonempty [simp]: "itoa n \<noteq> []"
  by (simp add: itoa_def)

lemma hex_nonempty [simp]: "hex n \<noteq> []"
  by (simp add: hex_def)

section \<open>State-passing operations\<close>

text \<open>An operation on a state \<open>'m\<close>: its result or error, and the state it leaves.\<close>

type_synonym ('m, 'a) op = "'m \<Rightarrow> 'a res \<times> 'm"

text \<open>Sequencing: an error ends the operation, the state reached so far is kept.\<close>

definition bind_op :: "('m, 'a) op \<Rightarrow> ('a \<Rightarrow> ('m, 'b) op) \<Rightarrow> ('m, 'b) op" where
  "bind_op f g = (\<lambda>m. case f m of (Inl e, m') \<Rightarrow> (Inl e, m') | (Inr a, m') \<Rightarrow> g a m')"

section \<open>Keyset pagination\<close>

text \<open>
  The order every list of the store is returned in: newest identifier first, strictly below the
  cursor when one is given, at most \<open>limit\<close> rows when it is positive.
\<close>

definition sort_desc :: "('a \<Rightarrow> string) \<Rightarrow> 'a list \<Rightarrow> 'a list" where
  "sort_desc idf xs = rev (sort_key idf xs)"

lemma set_sort_desc [simp]: "set (sort_desc idf xs) = set xs"
  by (simp add: sort_desc_def)

lemma length_sort_desc [simp]: "length (sort_desc idf xs) = length xs"
  by (simp add: sort_desc_def)

lemma sorted_sort_desc: "sorted_wrt (\<lambda>x y. idf y \<le> idf x) (sort_desc idf xs)"
  using sorted_sort_key [of idf xs] by (simp add: sort_desc_def sorted_wrt_rev sorted_wrt_map)

definition paginate :: "('a \<Rightarrow> string) \<Rightarrow> string \<Rightarrow> int \<Rightarrow> 'a list \<Rightarrow> 'a list" where
  "paginate idf cursor limit items =
     (let sorted = sort_desc idf items;
          rest = (if cursor \<noteq> [] then filter (\<lambda>i. idf i < cursor) sorted else sorted) in
      if limit > 0 \<and> int (length rest) > limit then take (nat limit) rest else rest)"

lemma paginate_all: "paginate idf [] 0 items = sort_desc idf items"
  by (simp add: paginate_def)

lemma set_paginate_subset: "set (paginate idf cursor limit items) \<subseteq> set items"
  by (auto simp: paginate_def Let_def dest: in_set_takeD split: if_splits)

section \<open>Stable sorting by a comparison\<close>

text \<open>\<open>sort.SliceStable\<close> and, on rows with distinct keys, \<open>sort.Slice\<close>: the stable
  permutation sorted by \<open>lt\<close>.\<close>

fun insert_by :: "('a \<Rightarrow> 'a \<Rightarrow> bool) \<Rightarrow> 'a \<Rightarrow> 'a list \<Rightarrow> 'a list" where
  "insert_by lt x [] = [x]"
| "insert_by lt x (y # ys) = (if lt y x then y # insert_by lt x ys else x # y # ys)"

fun sort_by :: "('a \<Rightarrow> 'a \<Rightarrow> bool) \<Rightarrow> 'a list \<Rightarrow> 'a list" where
  "sort_by lt [] = []"
| "sort_by lt (x # xs) = insert_by lt x (sort_by lt xs)"

lemma set_insert_by [simp]: "set (insert_by lt x xs) = insert x (set xs)"
  by (induction xs) auto

lemma set_sort_by [simp]: "set (sort_by lt xs) = set xs"
  by (induction xs) auto

lemma length_insert_by [simp]: "length (insert_by lt x xs) = Suc (length xs)"
  by (induction xs) auto

lemma length_sort_by [simp]: "length (sort_by lt xs) = length xs"
  by (induction xs) auto

lemma distinct_insert_by [simp]: "distinct (insert_by lt x xs) \<longleftrightarrow> x \<notin> set xs \<and> distinct xs"
  by (induction xs) auto

lemma distinct_sort_by [simp]: "distinct (sort_by lt xs) = distinct xs"
  by (induction xs) auto

lemma sorted_insert_by:
  assumes "\<And>a b c. \<not> lt a b \<Longrightarrow> \<not> lt b c \<Longrightarrow> \<not> lt a c" "\<And>a b. lt a b \<Longrightarrow> \<not> lt b a"
  shows "sorted_wrt (\<lambda>a b. \<not> lt b a) xs \<Longrightarrow> sorted_wrt (\<lambda>a b. \<not> lt b a) (insert_by lt x xs)"
proof (induction xs)
  case (Cons y ys)
  show ?case
  proof (cases "lt y x")
    case True
    then show ?thesis
      using Cons assms(2) [OF True] by simp
  next
    case False
    then have "\<forall>z \<in> set ys. \<not> lt z x"
      using Cons.prems assms(1) [of _ y x] by auto
    then show ?thesis
      using False Cons.prems by simp
  qed
qed simp

lemma sorted_sort_by:
  assumes "\<And>a b c. \<not> lt a b \<Longrightarrow> \<not> lt b c \<Longrightarrow> \<not> lt a c" "\<And>a b. lt a b \<Longrightarrow> \<not> lt b a"
  shows "sorted_wrt (\<lambda>a b. \<not> lt b a) (sort_by lt xs)"
proof (induction xs)
  case (Cons x xs)
  then show ?case
    using sorted_insert_by [of lt, OF assms] by simp
qed simp

section \<open>UTF-8\<close>

text \<open>The length in bytes of the first rune of a non-empty text, as \<open>unicode/utf8\<close> decodes it;
  an invalid byte is a rune of its own.\<close>

definition cont_in :: "nat \<Rightarrow> nat \<Rightarrow> string \<Rightarrow> nat \<Rightarrow> bool" where
  "cont_in lo hi s i = (i < length s \<and> lo \<le> ord (s ! i) \<and> ord (s ! i) \<le> hi)"

definition rune_len :: "string \<Rightarrow> nat" where
  "rune_len s = (let b = ord (hd s); c = cont_in 128 191 s in
     if 0xC2 \<le> b \<and> b \<le> 0xDF then (if c 1 then 2 else 1)
     else if 0xE0 \<le> b \<and> b \<le> 0xEF then
       (if cont_in (if b = 0xE0 then 0xA0 else 128) (if b = 0xED then 0x9F else 191) s 1 \<and> c 2 then 3 else 1)
     else if 0xF0 \<le> b \<and> b \<le> 0xF4 then
       (if cont_in (if b = 0xF0 then 0x90 else 128) (if b = 0xF4 then 0x8F else 191) s 1 \<and> c 2 \<and> c 3 then 4 else 1)
     else 1)"

lemma rune_len_pos [simp]: "0 < rune_len s"
  by (simp add: rune_len_def Let_def)

function RuneCount :: "string \<Rightarrow> nat" where
  "RuneCount s = (if s = [] then 0 else Suc (RuneCount (drop (rune_len s) s)))"
  by pat_completeness auto
termination
  by (relation "measure length") (auto simp: neq_Nil_conv)

declare RuneCount.simps [simp del]

lemma RuneCount_Nil [simp]: "RuneCount [] = 0"
  by (simp add: RuneCount.simps)

lemma RuneCount_zero: "RuneCount s = 0 \<longleftrightarrow> s = []"
  by (subst RuneCount.simps) simp

end
