(* ===== verification/Netip.thy ===== *)
theory Netip
  imports Prelude
begin

text \<open>
  The parts of Go's \<open>net\<close> and \<open>net/netip\<close> the service is built on: parsing and
  printing addresses, CIDR masks, \<open>net.IP\<close>, \<open>net.IPNet\<close> and
  \<open>netip.Prefix\<close>. They are standard library code, modelled from their documented
  behaviour so that the service's own code can be evaluated on concrete text.

  The main results are that masking is integer division by a power of two
  (\<open>bytes_val_mask\<close>) and that printing then parsing an address gives it back, for both
  families (\<open>ParseAddr_String\<close>).
\<close>

unbundle bit_operations_syntax

section \<open>Big-endian byte sequences\<close>

type_synonym byte = "8 word"
type_synonym IP = "byte list"

fun bytes_val :: "byte list \<Rightarrow> nat" where
  "bytes_val [] = 0"
| "bytes_val (b # bs) = unat b * 256 ^ length bs + bytes_val bs"

fun nat_bytes :: "nat \<Rightarrow> nat \<Rightarrow> byte list" where
  "nat_bytes 0 v = []"
| "nat_bytes (Suc n) v = nat_bytes n (v div 256) @ [of_nat v]"

lemma length_nat_bytes [simp]: "length (nat_bytes n v) = n"
  by (induction n arbitrary: v) auto

lemma bytes_val_append: "bytes_val (xs @ ys) = bytes_val xs * 256 ^ length ys + bytes_val ys"
  by (induction xs) (auto simp: algebra_simps power_add)

lemma unat_of_nat_byte: "unat (of_nat v :: byte) = v mod 256"
  by (simp add: unat_of_nat)

lemma unat_byte_less: "unat (b :: byte) < 256"
  using unsigned_less [of b] by simp

lemma bytes_val_less: "bytes_val bs < 256 ^ length bs"
proof (induction bs)
  case (Cons b bs)
  have "unat b * 256 ^ length bs + bytes_val bs < unat b * 256 ^ length bs + 256 ^ length bs"
    using Cons by simp
  also have "\<dots> \<le> 256 * 256 ^ length bs"
    using unat_byte_less [of b] mult_le_mono1 [of "Suc (unat b)" 256 "256 ^ length bs"] by simp
  finally show ?case
    by simp
qed simp

lemma bytes_val_nat_bytes: "bytes_val (nat_bytes n v) = v mod 256 ^ n"
proof (induction n arbitrary: v)
  case (Suc n)
  have "v mod (256 * 256 ^ n) = 256 * (v div 256 mod 256 ^ n) + v mod 256"
    by (rule mod_mult2_eq)
  with Suc show ?case
    by (simp add: bytes_val_append unat_of_nat_byte)
qed simp

lemma nat_bytes_bytes_val: "nat_bytes (length bs) (bytes_val bs) = bs"
proof (induction bs rule: rev_induct)
  case (snoc b bs)
  have "(bytes_val bs * 256 + unat b) div 256 = bytes_val bs"
    using unat_byte_less [of b] by simp
  moreover have "(of_nat (bytes_val bs * 256 + unat b) :: byte) = b"
  proof -
    have "(of_nat (256 :: nat) :: byte) = 0"
      by simp
    then have "(of_nat (bytes_val bs * 256) :: byte) = 0"
      by (simp only: of_nat_mult mult_zero_right)
    then show ?thesis
      by (simp only: of_nat_add add_0_left) simp
  qed
  ultimately show ?case
    using snoc by (simp add: bytes_val_append)
qed simp

lemma bytes_val_inj: "length xs = length ys \<Longrightarrow> bytes_val xs = bytes_val ys \<longleftrightarrow> xs = ys"
  by (metis nat_bytes_bytes_val)

section \<open>netip.Addr\<close>

text \<open>The zero \<open>Addr\<close>, an IPv4 address, an IPv6 address with its zone.\<close>

datatype Addr = AddrInvalid | Addr4 "32 word" | Addr6 "128 word" string

definition bytes_of_word :: "nat \<Rightarrow> 'a::len word \<Rightarrow> byte list" where
  "bytes_of_word n w = nat_bytes n (unat w)"

definition word_of_bytes :: "byte list \<Rightarrow> 'a::len word" where
  "word_of_bytes bs = of_nat (bytes_val bs)"

lemma length_bytes_of_word [simp]: "length (bytes_of_word n w) = n"
  by (simp add: bytes_of_word_def)

lemma word_of_bytes_of_word4 [simp]: "word_of_bytes (bytes_of_word 4 (w :: 32 word)) = w"
proof -
  have "unat w < 256 ^ 4"
    using unsigned_less [of w] by simp
  then show ?thesis
    by (simp add: word_of_bytes_def bytes_of_word_def bytes_val_nat_bytes)
qed

lemma word_of_bytes_of_word16 [simp]: "word_of_bytes (bytes_of_word 16 (w :: 128 word)) = w"
proof -
  have "unat w < 256 ^ 16"
    using unsigned_less [of w] by simp
  then show ?thesis
    by (simp add: word_of_bytes_def bytes_of_word_def bytes_val_nat_bytes)
qed

definition addr_word4 :: "byte list \<Rightarrow> 32 word" where
  "addr_word4 = word_of_bytes"

definition addr_word6 :: "byte list \<Rightarrow> 128 word" where
  "addr_word6 = word_of_bytes"

lemma bytes_of_addr_word4: "length bs = 4 \<Longrightarrow> bytes_of_word 4 (addr_word4 bs) = bs"
  using bytes_val_less [of bs] nat_bytes_bytes_val [of bs]
  by (simp add: bytes_of_word_def addr_word4_def word_of_bytes_def unat_of_nat)

lemma bytes_of_addr_word6: "length bs = 16 \<Longrightarrow> bytes_of_word 16 (addr_word6 bs) = bs"
  using bytes_val_less [of bs] nat_bytes_bytes_val [of bs]
  by (simp add: bytes_of_word_def addr_word6_def word_of_bytes_def unat_of_nat)

section \<open>Parsing addresses\<close>

text \<open>
  The dotted-decimal fields: the previous character, the value and the number of digits of the
  current field, the fields read so far. A field has no leading zero and is at most 255.
\<close>

fun parseIPv4Fields :: "char option \<Rightarrow> nat \<Rightarrow> nat \<Rightarrow> byte list \<Rightarrow> string \<Rightarrow> byte list option" where
  "parseIPv4Fields prev val digLen fs [] =
     (if length fs < 3 then None else Some (fs @ [of_nat val]))"
| "parseIPv4Fields prev val digLen fs (c # s) =
     (if is_digit c then
        (if digLen = 1 \<and> val = 0 then None
         else (let v = val * 10 + (ord c - 48) in
               if v > 255 then None
               else parseIPv4Fields (Some c) v (Suc digLen) fs s))
      else if c = CHR ''.'' then
        (if prev = None \<or> s = [] \<or> prev = Some (CHR ''.'') then None
         else if length fs = 3 then None
         else parseIPv4Fields (Some c) 0 0 (fs @ [of_nat val]) s)
      else None)"

definition parseIPv4 :: "string \<Rightarrow> Addr option" where
  "parseIPv4 s = map_option (\<lambda>bs. Addr4 (addr_word4 bs)) (parseIPv4Fields None 0 0 [] s)"

definition hex_value :: "char \<Rightarrow> nat option" where
  "hex_value c =
     (if 48 \<le> ord c \<and> ord c \<le> 57 then Some (ord c - 48)
      else if 97 \<le> ord c \<and> ord c \<le> 102 then Some (ord c - 87)
      else if 65 \<le> ord c \<and> ord c \<le> 70 then Some (ord c - 55)
      else None)"

text \<open>One group of hexadecimal digits: the number of digits, the value and the rest, or failure
  when a group has more than four digits.\<close>

fun hex_group :: "nat \<Rightarrow> nat \<Rightarrow> string \<Rightarrow> (nat \<times> nat \<times> string) option" where
  "hex_group off acc [] = Some (off, acc, [])"
| "hex_group off acc (c # s) =
     (case hex_value c of
        None \<Rightarrow> Some (off, acc, c # s)
      | Some d \<Rightarrow> (let a = acc * 16 + d in
          if off > 3 then None else if a > 65535 then None else hex_group (Suc off) a s))"

text \<open>
  The group loop of \<open>parseIPv6\<close>: bytes read, position of the ellipsis, remaining text. It
  runs at most eight times, so its fuel of eight is exact. The result is the bytes, the ellipsis
  and the text left over.
\<close>

fun parseIPv6Loop :: "nat \<Rightarrow> byte list \<Rightarrow> nat option \<Rightarrow> string \<Rightarrow>
    (byte list \<times> nat option \<times> string) option" where
  "parseIPv6Loop 0 ip ell s = Some (ip, ell, s)"
| "parseIPv6Loop (Suc n) ip ell s =
     (if length ip \<ge> 16 then Some (ip, ell, s)
      else case hex_group 0 0 s of
        None \<Rightarrow> None
      | Some (off, acc, r) \<Rightarrow>
          if off = 0 then None
          else if r \<noteq> [] \<and> hd r = CHR ''.'' then
            (if ell = None \<and> length ip \<noteq> 12 then None
             else if length ip + 4 > 16 then None
             else case parseIPv4Fields None 0 0 [] s of
                 None \<Rightarrow> None
               | Some f \<Rightarrow> Some (ip @ f, ell, []))
          else
            (let ip' = ip @ [of_nat (acc div 256), of_nat acc] in
             case r of
               [] \<Rightarrow> Some (ip', ell, [])
             | c # r1 \<Rightarrow>
                 if c \<noteq> CHR '':'' then None
                 else if r1 = [] then None
                 else if hd r1 = CHR '':'' then
                   (if ell \<noteq> None then None
                    else if tl r1 = [] then Some (ip', Some (length ip'), [])
                    else parseIPv6Loop n ip' (Some (length ip')) (tl r1))
                 else parseIPv6Loop n ip' ell r1))"

definition expand6 :: "byte list \<times> nat option \<times> string \<Rightarrow> byte list option" where
  "expand6 r = (case r of (ip, ell, s) \<Rightarrow>
     if s \<noteq> [] then None
     else if length ip < 16 then
       (case ell of None \<Rightarrow> None
        | Some e \<Rightarrow> Some (take e ip @ replicate (16 - length ip) 0 @ drop e ip))
     else (case ell of None \<Rightarrow> Some ip | Some _ \<Rightarrow> None))"

definition parseIPv6 :: "string \<Rightarrow> Addr option" where
  "parseIPv6 t = (let (s, zone, hasZone) = cut_at (CHR ''%'') t in
     if hasZone \<and> zone = [] then None
     else
       (let lead = (has_prefix s ''::'');
            s1 = (if lead then drop 2 s else s);
            ell = (if lead then Some 0 else None) in
        if lead \<and> s1 = [] then Some (Addr6 0 zone)
        else case parseIPv6Loop 8 [] ell s1 of
            None \<Rightarrow> None
          | Some r \<Rightarrow> map_option (\<lambda>bs. Addr6 (addr_word6 bs) zone) (expand6 r)))"

fun ParseAddr_at :: "string \<Rightarrow> string \<Rightarrow> Addr option" where
  "ParseAddr_at s [] = None"
| "ParseAddr_at s (c # r) =
     (if c = CHR ''.'' then parseIPv4 s
      else if c = CHR '':'' then parseIPv6 s
      else if c = CHR ''%'' then None
      else ParseAddr_at s r)"

definition ParseAddr :: "string \<Rightarrow> Addr option" where
  "ParseAddr s = ParseAddr_at s s"

section \<open>Printing addresses\<close>

definition string4 :: "byte list \<Rightarrow> string" where
  "string4 bs = itoa (unat (bs ! 0)) @ ''.'' @ itoa (unat (bs ! 1)) @ ''.'' @
     itoa (unat (bs ! 2)) @ ''.'' @ itoa (unat (bs ! 3))"

definition groups6 :: "128 word \<Rightarrow> nat list" where
  "groups6 w = map (\<lambda>i. unat w div 65536 ^ (7 - i) mod 65536) [0..<8]"

text \<open>The first longest run of at least two zero groups, as a half-open interval.\<close>

definition run_end :: "nat list \<Rightarrow> nat \<Rightarrow> nat" where
  "run_end gs i = i + length (takeWhile (\<lambda>g. g = 0) (drop i gs))"

fun zero_run :: "nat list \<Rightarrow> nat list \<Rightarrow> nat \<times> nat \<Rightarrow> nat \<times> nat" where
  "zero_run gs [] z = z"
| "zero_run gs (i # is) (zs, ze) =
     (let j = run_end gs i; l = j - i in
      zero_run gs is (if l \<ge> 2 \<and> l > ze - zs then (i, j) else (zs, ze)))"

function string6_loop :: "nat list \<Rightarrow> nat \<Rightarrow> nat \<Rightarrow> nat \<Rightarrow> string" where
  "string6_loop gs zs ze i =
     (if i \<ge> 8 then []
      else if i = zs then
        ''::'' @ (if ze \<ge> 8 then [] else hex (gs ! ze) @ string6_loop gs zs ze (max (Suc ze) (Suc i)))
      else (if i > 0 then '':'' else []) @ hex (gs ! i) @ string6_loop gs zs ze (Suc i))"
  by pat_completeness auto
termination
  by (relation "measure (\<lambda>(gs, zs, ze, i). 8 - i)") auto

declare string6_loop.simps [simp del]

definition string6 :: "128 word \<Rightarrow> string" where
  "string6 w = (let gs = groups6 w; (zs, ze) = zero_run gs [0..<8] (255, 255) in
     string6_loop gs zs ze 0)"

definition is4in6_bytes :: "byte list \<Rightarrow> bool" where
  "is4in6_bytes bs = (length bs = 16 \<and> take 12 bs = replicate 10 0 @ [255, 255])"

definition zone_suffix :: "string \<Rightarrow> string" where
  "zone_suffix z = (if z = [] then [] else CHR ''%'' # z)"

fun Addr_String :: "Addr \<Rightarrow> string" where
  "Addr_String AddrInvalid = ''invalid IP''"
| "Addr_String (Addr4 w) = string4 (bytes_of_word 4 w)"
| "Addr_String (Addr6 w z) =
     (if is4in6_bytes (bytes_of_word 16 w)
      then ''::ffff:'' @ string4 (drop 12 (bytes_of_word 16 w)) @ zone_suffix z
      else string6 w @ zone_suffix z)"

section \<open>netip.Addr predicates and conversions\<close>

definition Addr_Is4 :: "Addr \<Rightarrow> bool" where
  "Addr_Is4 a = (case a of Addr4 _ \<Rightarrow> True | _ \<Rightarrow> False)"

definition Addr_Is4In6 :: "Addr \<Rightarrow> bool" where
  "Addr_Is4In6 a = (case a of Addr6 w z \<Rightarrow> is4in6_bytes (bytes_of_word 16 w) | _ \<Rightarrow> False)"

definition Addr_Zone :: "Addr \<Rightarrow> string" where
  "Addr_Zone a = (case a of Addr6 w z \<Rightarrow> z | _ \<Rightarrow> [])"

definition Addr_IsValid :: "Addr \<Rightarrow> bool" where
  "Addr_IsValid a = (a \<noteq> AddrInvalid)"

definition Addr_BitLen :: "Addr \<Rightarrow> nat" where
  "Addr_BitLen a = (case a of AddrInvalid \<Rightarrow> 0 | Addr4 _ \<Rightarrow> 32 | Addr6 _ _ \<Rightarrow> 128)"

definition Addr_Unmap :: "Addr \<Rightarrow> Addr" where
  "Addr_Unmap a = (case a of
       Addr6 w z \<Rightarrow> (if is4in6_bytes (bytes_of_word 16 w)
         then Addr4 (addr_word4 (drop 12 (bytes_of_word 16 w))) else a)
     | _ \<Rightarrow> a)"

definition v4InV6Prefix :: "byte list" where
  "v4InV6Prefix = replicate 10 0 @ [255, 255]"

definition Addr_As16 :: "Addr \<Rightarrow> byte list" where
  "Addr_As16 a = (case a of
       AddrInvalid \<Rightarrow> replicate 16 0
     | Addr4 w \<Rightarrow> v4InV6Prefix @ bytes_of_word 4 w
     | Addr6 w z \<Rightarrow> bytes_of_word 16 w)"

text \<open>Numeric value of an address inside its family.\<close>

definition Addr_val :: "Addr \<Rightarrow> nat" where
  "Addr_val a = (case a of AddrInvalid \<Rightarrow> 0 | Addr4 w \<Rightarrow> unat w | Addr6 w z \<Rightarrow> unat w)"

section \<open>netip.Prefix\<close>

datatype Prefix = Prefix (prefix_addr: Addr) (prefix_bits: nat)

definition last_slash :: "string \<Rightarrow> (string \<times> string) option" where
  "last_slash s = (case cut_at (CHR ''/'') (rev s) of (b, a, ok) \<Rightarrow>
     if ok then Some (rev a, rev b) else None)"

fun dec_value :: "nat \<Rightarrow> string \<Rightarrow> nat option" where
  "dec_value acc [] = Some acc"
| "dec_value acc (c # s) = (if is_digit c then dec_value (acc * 10 + (ord c - 48)) s else None)"

definition ParsePrefix :: "string \<Rightarrow> Prefix option" where
  "ParsePrefix s = (case last_slash s of
       None \<Rightarrow> None
     | Some (a, b) \<Rightarrow>
        (case ParseAddr a of
           None \<Rightarrow> None
         | Some ip \<Rightarrow>
            if Addr_Zone ip \<noteq> [] then None
            else if length b > 1 \<and> (ord (hd b) < 49 \<or> ord (hd b) > 57) then None
            else if b = [] then None
            else (case dec_value 0 b of
                None \<Rightarrow> None
              | Some n \<Rightarrow> if n > Addr_BitLen ip then None else Some (Prefix ip n))))"

definition same_family :: "Addr \<Rightarrow> Addr \<Rightarrow> bool" where
  "same_family a b = (case (a, b) of
       (Addr4 _, Addr4 _) \<Rightarrow> True
     | (Addr6 _ _, Addr6 _ _) \<Rightarrow> True
     | _ \<Rightarrow> False)"

text \<open>\<open>Prefix.Contains\<close>: same family, no zone, equal leading bits.\<close>

definition Prefix_Contains :: "Prefix \<Rightarrow> Addr \<Rightarrow> bool" where
  "Prefix_Contains p a =
     (same_family (prefix_addr p) a \<and> Addr_Zone a = [] \<and>
      (let k = Addr_BitLen a - prefix_bits p in
       Addr_val (prefix_addr p) div 2 ^ k = Addr_val a div 2 ^ k))"

text \<open>\<open>Prefix.Masked\<close>: the host bits of the address cleared.\<close>

definition Prefix_Masked :: "Prefix \<Rightarrow> Prefix" where
  "Prefix_Masked p = (let n = prefix_bits p in case prefix_addr p of
       AddrInvalid \<Rightarrow> p
     | Addr4 w \<Rightarrow> Prefix (Addr4 (of_nat (unat w div 2 ^ (32 - n) * 2 ^ (32 - n)))) n
     | Addr6 w z \<Rightarrow> Prefix (Addr6 (of_nat (unat w div 2 ^ (128 - n) * 2 ^ (128 - n))) []) n)"

section \<open>net.IP, net.IPMask and net.IPNet\<close>

definition To4 :: "IP \<Rightarrow> IP option" where
  "To4 ip = (if length ip = 4 then Some ip
     else if is4in6_bytes ip then Some (drop 12 ip) else None)"

definition To16 :: "IP \<Rightarrow> IP option" where
  "To16 ip = (if length ip = 4 then Some (v4InV6Prefix @ ip)
     else if length ip = 16 then Some ip else None)"

text \<open>\<open>net.ParseIP\<close>: any address without a zone, as sixteen bytes.\<close>

definition ParseIP :: "string \<Rightarrow> IP option" where
  "ParseIP s = (case ParseAddr s of
       None \<Rightarrow> None
     | Some a \<Rightarrow> if Addr_Zone a \<noteq> [] then None else Some (Addr_As16 a))"

definition hex2 :: "byte \<Rightarrow> string" where
  "hex2 b = [digit_char (unat b div 16), digit_char (unat b mod 16)]"

definition IP_String :: "IP \<Rightarrow> string" where
  "IP_String ip = (if ip = [] then ''<nil>''
     else if length ip \<noteq> 4 \<and> length ip \<noteq> 16 then CHR ''?'' # concat (map hex2 ip)
     else case To4 ip of
         Some b \<Rightarrow> string4 b
       | None \<Rightarrow> string6 (addr_word6 ip))"

definition IP_Equal :: "IP \<Rightarrow> IP \<Rightarrow> bool" where
  "IP_Equal a b = (if length a = length b then a = b
     else if length a = 4 \<and> length b = 16 then take 12 b = v4InV6Prefix \<and> a = drop 12 b
     else if length a = 16 \<and> length b = 4 then take 12 a = v4InV6Prefix \<and> drop 12 a = b
     else False)"

fun cidr_bytes :: "nat \<Rightarrow> nat \<Rightarrow> byte list" where
  "cidr_bytes n 0 = []"
| "cidr_bytes n (Suc k) = (if n \<ge> 8 then 255 # cidr_bytes (n - 8) k
     else NOT (drop_bit n 255) # cidr_bytes 0 k)"

definition CIDRMask :: "nat \<Rightarrow> nat \<Rightarrow> byte list" where
  "CIDRMask ones bits = cidr_bytes ones (bits div 8)"

text \<open>\<open>IPMask.Size\<close>: the number of leading ones when the mask is canonical.\<close>

definition byte_ones :: "byte \<Rightarrow> nat option" where
  "byte_ones b = find (\<lambda>k. NOT (drop_bit k 255) = b) [0..<8]"

fun mask_ones :: "byte list \<Rightarrow> nat option" where
  "mask_ones [] = Some 0"
| "mask_ones (b # m) = (if b = 255 then map_option (\<lambda>n. 8 + n) (mask_ones m)
     else case byte_ones b of
         None \<Rightarrow> None
       | Some k \<Rightarrow> if list_all (\<lambda>x. x = 0) m then Some k else None)"

definition Mask_Size :: "byte list \<Rightarrow> nat \<times> nat" where
  "Mask_Size m = (case mask_ones m of None \<Rightarrow> (0, 0) | Some n \<Rightarrow> (n, 8 * length m))"

definition IP_Mask :: "IP \<Rightarrow> byte list \<Rightarrow> IP" where
  "IP_Mask ip m =
     (let m' = (if length m = 16 \<and> length ip = 4 \<and> take 12 m = replicate 12 255 then drop 12 m else m);
          ip' = (if length m' = 4 \<and> length ip = 16 \<and> take 12 ip = v4InV6Prefix then drop 12 ip else ip) in
      if length ip' \<noteq> length m' then [] else map2 (AND) ip' m')"

record IPNet =
  net_IP :: IP
  net_Mask :: "byte list"

fun dtoi :: "nat \<Rightarrow> string \<Rightarrow> nat option" where
  "dtoi acc [] = Some acc"
| "dtoi acc (c # s) = (if is_digit c then
     (let n = acc * 10 + (ord c - 48) in if n \<ge> 16777215 then None else dtoi n s) else None)"

text \<open>\<open>net.ParseCIDR\<close>: the address as sixteen bytes and the masked network.\<close>

definition ParseCIDR :: "string \<Rightarrow> (IP \<times> IPNet) option" where
  "ParseCIDR s = (case cut_at (CHR ''/'') s of (a, m, ok) \<Rightarrow>
     if \<not> ok then None
     else case ParseAddr a of
         None \<Rightarrow> None
       | Some ip \<Rightarrow>
           if Addr_Zone ip \<noteq> [] then None
           else if m = [] then None
           else (case dtoi 0 m of
               None \<Rightarrow> None
             | Some n \<Rightarrow>
                 if n > Addr_BitLen ip then None
                 else (let mk = CIDRMask n (Addr_BitLen ip); b = Addr_As16 ip in
                   Some (b, \<lparr>net_IP = IP_Mask b mk, net_Mask = mk\<rparr>))))"

definition networkNumberAndMask :: "IPNet \<Rightarrow> IP \<times> byte list" where
  "networkNumberAndMask n =
     (let ip = (case To4 (net_IP n) of Some x \<Rightarrow> x | None \<Rightarrow> net_IP n); m = net_Mask n in
      if length ip \<noteq> 4 \<and> length ip \<noteq> 16 then ([], [])
      else if length m = 4 then (if length ip \<noteq> 4 then ([], []) else (ip, m))
      else if length m = 16 then (if length ip = 4 then (ip, drop 12 m) else (ip, m))
      else ([], []))"

definition IPNet_Contains :: "IPNet \<Rightarrow> IP \<Rightarrow> bool" where
  "IPNet_Contains n ip =
     (let (nn, m) = networkNumberAndMask n;
          x = (case To4 ip of Some y \<Rightarrow> y | None \<Rightarrow> ip) in
      if length x \<noteq> length nn then False
      else map2 (AND) nn m = map2 (AND) x m)"

definition IPNet_String :: "IPNet \<Rightarrow> string" where
  "IPNet_String n = (case networkNumberAndMask n of (nn, m) \<Rightarrow>
     if nn = [] \<or> m = [] then ''<nil>''
     else (case mask_ones m of
         None \<Rightarrow> IP_String nn @ ''/'' @ concat (map hex2 m)
       | Some l \<Rightarrow> IP_String nn @ ''/'' @ itoa l))"

section \<open>Masks as integer division\<close>

lemma byte_and_mask:
  assumes "n < 8"
  shows "unat (b AND NOT (drop_bit n 255) :: byte) = unat b div 2 ^ (8 - n) * 2 ^ (8 - n)"
proof -
  have "drop_bit n (255 :: byte) = mask (8 - n)"
  proof -
    have "n \<in> {0, 1, 2, 3, 4, 5, 6, 7}"
      using assms by auto
    then show ?thesis
      by (auto simp: mask_eq_exp_minus_1 drop_bit_eq_div)
  qed
  then have "b AND NOT (drop_bit n 255) = push_bit (8 - n) (drop_bit (8 - n) b)"
    by (auto intro!: bit_word_eqI simp: bit_simps)
  then have "unat (b AND NOT (drop_bit n 255)) =
      take_bit 8 (push_bit (8 - n) (drop_bit (8 - n) (unat b)))"
    using unat_byte_less [of b]
    by (simp only: unsigned_push_bit_eq unsigned_drop_bit_eq) (simp add: take_bit_nat_eq_self)
  moreover have "unat b div 2 ^ (8 - n) * 2 ^ (8 - n) < 256"
    by (rule le_less_trans [OF div_times_less_eq_dividend unat_byte_less])
  ultimately show ?thesis
    by (simp only: take_bit_eq_mod push_bit_eq_mult drop_bit_eq_div) simp
qed

lemma cidr_bytes_0 [simp]: "cidr_bytes 0 k = replicate k 0"
  by (induction k) auto

lemma length_cidr_bytes [simp]: "length (cidr_bytes n k) = k"
  by (induction k arbitrary: n) auto

lemma bytes_val_zeros [simp]: "bytes_val (replicate k 0) = 0"
  by (induction k) auto

lemma and_zeros: "length bs = k \<Longrightarrow> map2 (AND) bs (replicate k 0) = replicate k (0 :: byte)"
  by (induction bs arbitrary: k) auto

lemma bytes_val_mask:
  "n \<le> 8 * length bs \<Longrightarrow> bytes_val (map2 (AND) bs (cidr_bytes n (length bs))) =
     bytes_val bs div 2 ^ (8 * length bs - n) * 2 ^ (8 * length bs - n)"
proof (induction bs arbitrary: n)
  case (Cons b bs)
  let ?l = "length bs"
  have pow: "(256 :: nat) ^ ?l = 2 ^ (8 * ?l)"
    by (simp add: power_mult)
  show ?case
  proof (cases "8 \<le> n")
    case True
    define e where "e = 8 * ?l - (n - 8)"
    have e: "8 * length (b # bs) - n = e" "e \<le> 8 * ?l"
      using True by (auto simp: e_def)
    have "(2 :: nat) ^ (8 * ?l) = 2 ^ (8 * ?l - e) * 2 ^ e"
      using e by (simp flip: power_add)
    then obtain M where "unat b * 256 ^ ?l = M * 2 ^ e"
      by (metis pow mult.assoc)
    then have "(unat b * 256 ^ ?l + bytes_val bs) div 2 ^ e * 2 ^ e =
        unat b * 256 ^ ?l + bytes_val bs div 2 ^ e * 2 ^ e"
      by (simp add: add_mult_distrib)
    moreover have "(b AND 255) = b"
      by (rule bit_word_eqI) (auto simp: bit_simps numeral_eq_Suc less_Suc_eq)
    ultimately show ?thesis
      using Cons.IH [of "n - 8"] Cons.prems True e by (simp add: e_def)
  next
    case False
    define d where "d = 8 - n"
    have e: "8 * length (b # bs) - n = 8 * ?l + d"
      using False by (auto simp: d_def)
    have "(unat b * 256 ^ ?l + bytes_val bs) div 2 ^ (8 * ?l) = unat b"
      using bytes_val_less [of bs] by (simp add: pow)
    then have "bytes_val (b # bs) div 2 ^ (8 * ?l + d) = unat b div 2 ^ d"
      by (simp add: power_add div_mult2_eq)
    moreover have "bytes_val (map2 (AND) (b # bs) (cidr_bytes n (length (b # bs)))) =
        unat b div 2 ^ d * 2 ^ d * 256 ^ ?l"
      using False byte_and_mask [of n b] and_zeros [of bs] by (simp add: d_def)
    ultimately show ?thesis
      unfolding e by (simp add: pow power_add)
  qed
qed simp

lemma byte_ones_partial: "n < 8 \<Longrightarrow> byte_ones (NOT (drop_bit n 255)) = Some n"
proof -
  assume "n < 8"
  then have "n \<in> {0, 1, 2, 3, 4, 5, 6, 7}"
    by auto
  then show ?thesis
    by (elim insertE) (simp_all add: byte_ones_def upt_rec drop_bit_eq_div)
qed

lemma partial_not_ff: "n < 8 \<Longrightarrow> NOT (drop_bit n 255) \<noteq> (255 :: byte)"
proof -
  assume "n < 8"
  then have "n \<in> {0, 1, 2, 3, 4, 5, 6, 7}"
    by auto
  then show ?thesis
    by (elim insertE) (simp_all add: drop_bit_eq_div)
qed

lemma mask_ones_cidr [simp]: "n \<le> 8 * k \<Longrightarrow> mask_ones (cidr_bytes n k) = Some n"
proof (induction k arbitrary: n)
  case (Suc k)
  show ?case
    using Suc.IH [of "n - 8"] Suc.prems byte_ones_partial [of n] partial_not_ff [of n]
    by (auto simp: list_all_iff)
qed simp

lemma Mask_Size_CIDRMask: "n \<le> b \<Longrightarrow> b = 32 \<or> b = 128 \<Longrightarrow> Mask_Size (CIDRMask n b) = (n, b)"
  by (auto simp: Mask_Size_def CIDRMask_def)

text \<open>Two masked byte sequences agree exactly when the values agree above the host bits.\<close>

lemma mask_eq_iff:
  assumes "length a = length b" "n \<le> 8 * length a"
  shows "map2 (AND) a (cidr_bytes n (length a)) = map2 (AND) b (cidr_bytes n (length a)) \<longleftrightarrow>
    bytes_val a div 2 ^ (8 * length a - n) = bytes_val b div 2 ^ (8 * length a - n)"
proof -
  have "map2 (AND) a (cidr_bytes n (length a)) = map2 (AND) b (cidr_bytes n (length a)) \<longleftrightarrow>
    bytes_val (map2 (AND) a (cidr_bytes n (length a))) = bytes_val (map2 (AND) b (cidr_bytes n (length a)))"
    using assms by (subst bytes_val_inj) auto
  then show ?thesis
    using bytes_val_mask [of n a] bytes_val_mask [of n b] assms by simp
qed

section \<open>Round trips: digits\<close>

lemma ord_digit_char: "d < 16 \<Longrightarrow> ord (digit_char d) = (if d < 10 then 48 + d else 87 + d)"
  by (simp add: digit_char_def)

lemma is_digit_digit_char: "d < 10 \<Longrightarrow> is_digit (digit_char d)"
  by (simp add: is_digit_def ord_digit_char)

lemma hex_value_digit_char: "d < 16 \<Longrightarrow> hex_value (digit_char d) = Some d"
  by (simp add: hex_value_def ord_digit_char)

lemma digit_char_inj: "a < 16 \<Longrightarrow> b < 16 \<Longrightarrow> digit_char a = digit_char b \<longleftrightarrow> a = b"
  by (metis hex_value_digit_char option.inject)

lemma digits_base_chars:
  "2 \<le> b \<Longrightarrow> c \<in> set (digits_base b n) \<Longrightarrow> \<exists>d < b. c = digit_char d"
proof (induction b n rule: digits_base.induct)
  case (1 b n)
  show ?case
  proof (cases "n < b")
    case False
    have "\<exists>d < b. digit_char (n mod b) = digit_char d"
      using 1 by (intro exI [of _ "n mod b"]) simp
    then show ?thesis
      using 1 False by (auto simp: digits_base_big)
  qed (use 1 in \<open>auto simp: digits_base_small\<close>)
qed

lemma length_digits_base: "2 \<le> b \<Longrightarrow> n < b ^ Suc k \<Longrightarrow> length (digits_base b n) \<le> Suc k"
proof (induction k arbitrary: n)
  case (Suc k)
  show ?case
  proof (cases "n < b")
    case False
    then have "n div b < b ^ Suc k"
      using Suc.prems by (simp add: less_mult_imp_div_less mult.commute)
    then show ?thesis
      using False Suc by (simp add: digits_base_big)
  qed (simp add: digits_base_small)
qed (simp add: digits_base_small)

lemma itoa_digits: "c \<in> set (itoa n) \<Longrightarrow> is_digit c"
  using digits_base_chars [of 10 c n] is_digit_digit_char by (auto simp: itoa_def)

lemma hex_digits: "c \<in> set (hex n) \<Longrightarrow> hex_value c \<noteq> None"
  using digits_base_chars [of 16 c n] hex_value_digit_char by (auto simp: hex_def)

lemma separators_not_digit [simp]:
  "\<not> is_digit (CHR ''.'')" "\<not> is_digit (CHR '':'')" "\<not> is_digit (CHR ''%'')" "\<not> is_digit (CHR ''/'')"
  "hex_value (CHR ''.'') = None" "hex_value (CHR '':'') = None" "hex_value (CHR ''%'') = None"
  "hex_value (CHR ''/'') = None"
  by (simp_all add: is_digit_def hex_value_def ord_def)

lemma itoa_no_sep: "CHR ''.'' \<notin> set (itoa n)" "CHR '':'' \<notin> set (itoa n)" "CHR ''%'' \<notin> set (itoa n)"
  "CHR ''/'' \<notin> set (itoa n)"
  using itoa_digits separators_not_digit by blast+

lemma hex_no_sep: "CHR ''.'' \<notin> set (hex n)" "CHR '':'' \<notin> set (hex n)" "CHR ''%'' \<notin> set (hex n)"
  "CHR ''/'' \<notin> set (hex n)"
  using hex_digits separators_not_digit by blast+

section \<open>Round trip of IPv4 addresses\<close>

lemma parseIPv4Fields_digits:
  "v < 256 \<Longrightarrow> parseIPv4Fields prev 0 0 fs (digits_base 10 v @ r) =
     parseIPv4Fields (Some (last (digits_base 10 v))) v (length (digits_base 10 v)) fs r"
proof (induction "10 :: nat" v arbitrary: r rule: digits_base.induct)
  case (1 v)
  show ?case
  proof (cases "v < 10")
    case True
    then show ?thesis
      using 1 by (simp add: digits_base_small is_digit_digit_char ord_digit_char)
  next
    case False
    have e: "digits_base 10 v = digits_base 10 (v div 10) @ [digit_char (v mod 10)]"
      using False by (simp add: digits_base_big)
    have "v div 10 * 10 + v mod 10 = v"
      by simp
    moreover have "v div 10 \<noteq> 0"
      using False by simp
    ultimately show ?thesis
      using 1 False by (simp add: e is_digit_digit_char ord_digit_char)
  qed
qed

lemma last_itoa: "last (itoa n) \<noteq> CHR ''.''"
  by (metis itoa_no_sep(1) itoa_nonempty last_in_set)

lemma parseIPv4Fields_dot:
  "v < 256 \<Longrightarrow> length fs < 3 \<Longrightarrow> r \<noteq> [] \<Longrightarrow>
   parseIPv4Fields prev 0 0 fs (itoa v @ CHR ''.'' # r) =
     parseIPv4Fields (Some (CHR ''.'')) 0 0 (fs @ [of_nat v]) r"
  using last_itoa [of v] by (simp add: itoa_def parseIPv4Fields_digits)

lemma parseIPv4Fields_last:
  "v < 256 \<Longrightarrow> length fs = 3 \<Longrightarrow> parseIPv4Fields prev 0 0 fs (itoa v) = Some (fs @ [of_nat v])"
  using parseIPv4Fields_digits [of v prev fs "[]"] by (simp add: itoa_def)

lemma parseIPv4Fields_string4:
  "length bs = 4 \<Longrightarrow> parseIPv4Fields None 0 0 [] (string4 bs) = Some bs"
proof -
  assume "length bs = 4"
  then obtain a b c d where bs: "bs = [a, b, c, d]"
    by (auto simp: length_Suc_conv numeral_eq_Suc)
  show ?thesis
    by (simp add: bs string4_def parseIPv4Fields_dot parseIPv4Fields_last unat_byte_less)
qed

lemma ParseAddr_at_skip:
  "\<forall>c \<in> set xs. c \<noteq> CHR ''.'' \<and> c \<noteq> CHR '':'' \<and> c \<noteq> CHR ''%'' \<Longrightarrow>
   ParseAddr_at s (xs @ r) = ParseAddr_at s r"
  by (induction xs) auto

lemma ParseAddr_string4:
  assumes "length bs = 4"
  shows "ParseAddr (string4 bs) = Some (Addr4 (addr_word4 bs))"
proof -
  have "\<And>n r s. ParseAddr_at s (itoa n @ CHR ''.'' # r) = parseIPv4 s"
    using itoa_no_sep by (subst ParseAddr_at_skip) auto
  then have "ParseAddr (string4 bs) = parseIPv4 (string4 bs)"
    by (simp add: ParseAddr_def string4_def)
  then show ?thesis
    using parseIPv4Fields_string4 [OF assms] by (simp add: parseIPv4_def)
qed

section \<open>Round trip of IPv6 addresses\<close>

fun join_colon :: "nat list \<Rightarrow> string" where
  "join_colon [] = []"
| "join_colon [g] = hex g"
| "join_colon (g # h # gs) = hex g @ CHR '':'' # join_colon (h # gs)"

definition group_bytes :: "nat list \<Rightarrow> byte list" where
  "group_bytes gs = concat (map (\<lambda>g. [of_nat (g div 256), of_nat g]) gs)"

lemma group_bytes_simps [simp]:
  "group_bytes [] = []"
  "group_bytes (g # gs) = of_nat (g div 256) # of_nat g # group_bytes gs"
  "group_bytes (xs @ ys) = group_bytes xs @ group_bytes ys"
  by (simp_all add: group_bytes_def)

lemma length_group_bytes [simp]: "length (group_bytes gs) = 2 * length gs"
  by (induction gs) auto

lemma group_bytes_zeros [simp]: "group_bytes (replicate n 0) = replicate (2 * n) 0"
  by (induction n) auto

lemma hex_group_digits:
  "g < 65536 \<Longrightarrow> hex_group 0 0 (digits_base 16 g @ r) = hex_group (length (digits_base 16 g)) g r"
proof (induction "16 :: nat" g arbitrary: r rule: digits_base.induct)
  case (1 g)
  show ?case
  proof (cases "g < 16")
    case True
    then show ?thesis
      by (simp add: digits_base_small hex_value_digit_char)
  next
    case False
    have e: "digits_base 16 g = digits_base 16 (g div 16) @ [digit_char (g mod 16)]"
      using False by (simp add: digits_base_big)
    have "length (digits_base 16 (g div 16)) \<le> 3"
      using length_digits_base [of 16 "g div 16" 2] 1(2) by simp
    then show ?thesis
      using 1 False by (simp add: e hex_value_digit_char)
  qed
qed

definition non_hex :: "string \<Rightarrow> bool" where
  "non_hex r = (r = [] \<or> hex_value (hd r) = None)"

lemma hex_group_hex:
  "g < 65536 \<Longrightarrow> non_hex r \<Longrightarrow> hex_group 0 0 (hex g @ r) = Some (length (hex g), g, r)"
  using hex_group_digits [of g r] by (cases r) (auto simp: hex_def non_hex_def)

lemma join_colon_Cons: "gs \<noteq> [] \<Longrightarrow> join_colon (g # gs) = hex g @ CHR '':'' # join_colon gs"
  by (cases gs) auto

lemma join_colon_hd: "gs \<noteq> [] \<Longrightarrow> join_colon gs \<noteq> [] \<and> hd (join_colon gs) \<noteq> CHR '':''"
  by (cases gs rule: join_colon.cases)
    (auto simp: hd_append, (metis hex_no_sep(2) hex_nonempty hd_in_set)+)

lemma parseIPv6Loop_join:
  "gs \<noteq> [] \<Longrightarrow> \<forall>g \<in> set gs. g < 65536 \<Longrightarrow> length ip + 2 * length gs \<le> 16 \<Longrightarrow> length gs \<le> n \<Longrightarrow>
   parseIPv6Loop n ip ell (join_colon gs) = Some (ip @ group_bytes gs, ell, [])"
proof (induction gs arbitrary: n ip rule: join_colon.induct)
  case (2 g)
  then show ?case
    using hex_group_hex [of g "[]"] by (cases n) (auto simp: non_hex_def)
next
  case (3 g h gs)
  obtain m where m: "n = Suc m"
    using 3 by (cases n) auto
  have "hex_group 0 0 (join_colon (g # h # gs)) =
      Some (length (hex g), g, CHR '':'' # join_colon (h # gs))"
    using 3 by (simp add: hex_group_hex non_hex_def)
  then show ?case
    using 3 join_colon_hd [of "h # gs"] by (simp add: m del: join_colon.simps)
qed simp

lemma parseIPv6Loop_ellipsis:
  "gs \<noteq> [] \<Longrightarrow> \<forall>g \<in> set gs. g < 65536 \<Longrightarrow> length ip + 2 * length gs \<le> 16 \<Longrightarrow> length gs \<le> n \<Longrightarrow>
   parseIPv6Loop n ip None (join_colon gs @ ''::'' @ t) =
     (let ip' = ip @ group_bytes gs in
      if t = [] then Some (ip', Some (length ip'), [])
      else parseIPv6Loop (n - length gs) ip' (Some (length ip')) t)"
proof (induction gs arbitrary: n ip rule: join_colon.induct)
  case (2 g)
  then show ?case
    using hex_group_hex [of g "''::'' @ t"] by (cases n) (auto simp: non_hex_def Let_def)
next
  case (3 g h gs)
  obtain m where m: "n = Suc m"
    using 3 by (cases n) auto
  have "hex_group 0 0 (join_colon (g # h # gs) @ ''::'' @ t) =
      Some (length (hex g), g, CHR '':'' # join_colon (h # gs) @ ''::'' @ t)"
    using 3 by (simp add: hex_group_hex non_hex_def)
  then show ?case
    using 3 join_colon_hd [of "h # gs"] by (simp add: m hd_append Let_def del: join_colon.simps)
qed simp

text \<open>The run of zero groups the printer elides.\<close>

definition run_ok :: "nat list \<Rightarrow> nat \<times> nat \<Rightarrow> bool" where
  "run_ok gs z = (z = (255, 255) \<or>
     (fst z < snd z \<and> snd z \<le> length gs \<and> (\<forall>k. fst z \<le> k \<and> k < snd z \<longrightarrow> gs ! k = 0)))"

lemma run_end_ok:
  assumes "i \<le> length gs"
  shows "run_end gs i \<le> length gs" and "\<forall>k. i \<le> k \<and> k < run_end gs i \<longrightarrow> gs ! k = 0"
proof -
  let ?z = "takeWhile (\<lambda>g. g = 0) (drop i gs)"
  show "run_end gs i \<le> length gs"
    using assms length_takeWhile_le [of "\<lambda>g. g = 0" "drop i gs"] by (simp add: run_end_def)
  show "\<forall>k. i \<le> k \<and> k < run_end gs i \<longrightarrow> gs ! k = 0"
  proof (intro allI impI, elim conjE)
    fix k
    assume k: "i \<le> k" "k < run_end gs i"
    then have *: "k - i < length ?z"
      by (simp add: run_end_def)
    then have "?z ! (k - i) = drop i gs ! (k - i)"
      by (rule takeWhile_nth)
    moreover have "?z ! (k - i) = 0"
      using nth_mem [OF *] by (metis set_takeWhileD)
    ultimately show "gs ! k = 0"
      using k assms by simp
  qed
qed

lemma zero_run_ok:
  "run_ok gs z \<Longrightarrow> \<forall>i \<in> set is. i \<le> length gs \<Longrightarrow> run_ok gs (zero_run gs is z)"
proof (induction gs "is" z rule: zero_run.induct)
  case (2 gs i "is" zs ze)
  have "i \<le> length gs"
    using "2.prems" by simp
  then have "run_ok gs (i, run_end gs i)" if "run_end gs i - i \<ge> 2"
    using that run_end_ok [of i gs] unfolding run_ok_def by simp linarith
  then have "run_ok gs (if run_end gs i - i \<ge> 2 \<and> run_end gs i - i > ze - zs
      then (i, run_end gs i) else (zs, ze))"
    using "2.prems" by simp
  then show ?case
    using "2.IH" [OF refl refl] "2.prems" by (simp add: Let_def)
qed simp

lemma string6_loop_plain:
  "i \<le> 8 \<Longrightarrow> length gs = 8 \<Longrightarrow> \<forall>k \<ge> i. k < 8 \<longrightarrow> k \<noteq> zs \<Longrightarrow>
   string6_loop gs zs ze i = (if 0 < i \<and> i < 8 then '':'' else []) @ join_colon (drop i gs)"
proof (induction "8 - i" arbitrary: i)
  case 0
  then show ?case
    by (simp add: string6_loop.simps)
next
  case (Suc m)
  then have i: "i < 8" and IH: "string6_loop gs zs ze (Suc i) =
      (if Suc i < 8 then '':'' else []) @ join_colon (drop (Suc i) gs)"
    by auto
  have d: "drop i gs = gs ! i # drop (Suc i) gs"
    using i Suc.prems by (simp add: Cons_nth_drop_Suc)
  have "drop (Suc i) gs = [] \<longleftrightarrow> \<not> Suc i < 8"
    using Suc.prems by auto
  then show ?case
    using i Suc.prems IH
    by (subst string6_loop.simps) (cases "Suc i < 8", auto simp: d join_colon_Cons)
qed

lemma string6_loop_run:
  "i \<le> zs \<Longrightarrow> length gs = 8 \<Longrightarrow> zs < ze \<Longrightarrow> ze \<le> 8 \<Longrightarrow>
   string6_loop gs zs ze i = (if i = 0 \<or> i = zs then [] else '':'') @
     join_colon (take (zs - i) (drop i gs)) @ ''::'' @ join_colon (drop ze gs)"
proof (induction "zs - i" arbitrary: i)
  case 0
  then have "i = zs"
    by simp
  have *: "string6_loop gs zs ze (Suc ze) =
      (if Suc ze < 8 then '':'' else []) @ join_colon (drop (Suc ze) gs)" if "ze < 8"
    using 0 that by (subst string6_loop_plain) auto
  have d: "drop ze gs = gs ! ze # drop (Suc ze) gs" if "ze < 8"
    using 0 that by (simp add: Cons_nth_drop_Suc)
  have "drop (Suc ze) gs = [] \<longleftrightarrow> \<not> Suc ze < 8"
    using 0 by auto
  then show ?case
    using 0 \<open>i = zs\<close> *
    by (subst string6_loop.simps) (cases "Suc ze < 8", auto simp: d join_colon_Cons max_def)
next
  case (Suc m)
  then have i: "i < zs" and IH: "string6_loop gs zs ze (Suc i) = (if Suc i = zs then [] else '':'') @
     join_colon (take (zs - Suc i) (drop (Suc i) gs)) @ ''::'' @ join_colon (drop ze gs)"
    by auto
  have d: "take (zs - i) (drop i gs) = gs ! i # take (zs - Suc i) (drop (Suc i) gs)"
    using i Suc.prems
    by (metis Cons_nth_drop_Suc Suc_diff_Suc less_le_trans less_imp_le_nat take_Suc_Cons)
  have "take (zs - Suc i) (drop (Suc i) gs) = [] \<longleftrightarrow> Suc i = zs"
    using i Suc.prems by auto
  then show ?case
    using i Suc.prems IH
    by (subst string6_loop.simps) (cases "Suc i = zs", simp_all add: d join_colon_Cons)
qed


lemma groups6_props [simp]: "length (groups6 w) = 8" "g \<in> set (groups6 w) \<Longrightarrow> g < 65536"
  by (auto simp: groups6_def)

lemma byte_of_group:
  "(of_nat (x mod 65536 div 256) :: byte) = of_nat (x div 256)"
  "(of_nat (x mod 65536) :: byte) = of_nat x"
proof -
  have "x mod 65536 div 256 mod 256 = x div 256 mod 256"
    using div_mult2_eq [of x 256 256] by (simp add: mod_mult2_eq [of x 256 256, simplified])
  then show "(of_nat (x mod 65536 div 256) :: byte) = of_nat (x div 256)"
    by (metis unat_of_nat_byte word_unat_eq_iff)
  have "x mod 65536 mod 256 = x mod 256"
    by (simp add: mod_mod_cancel)
  then show "(of_nat (x mod 65536) :: byte) = of_nat x"
    by (metis unat_of_nat_byte word_unat_eq_iff)
qed

lemma group_bytes_div:
  "group_bytes (map (\<lambda>i. v div 65536 ^ (n - 1 - i) mod 65536) [0..<n]) = nat_bytes (2 * n) v"
proof (induction n arbitrary: v)
  case (Suc n)
  have eq: "map (\<lambda>i. v div 65536 ^ (n - i) mod 65536) [0..<n] =
      map (\<lambda>i. (v div 65536) div 65536 ^ (n - 1 - i) mod 65536) [0..<n]"
  proof (rule map_cong [OF refl])
    fix i
    assume "i \<in> set [0..<n]"
    then have "n - i = Suc (n - 1 - i)"
      by auto
    then show "v div 65536 ^ (n - i) mod 65536 =
        (v div 65536) div 65536 ^ (n - 1 - i) mod 65536"
      by (simp only: power_Suc div_mult2_eq)
  qed
  have "group_bytes (map (\<lambda>i. v div 65536 ^ (Suc n - 1 - i) mod 65536) [0..<Suc n]) =
      nat_bytes (2 * n) (v div 65536) @ [of_nat (v div 256), of_nat v]"
    using Suc [of "v div 65536"] by (simp add: byte_of_group eq del: map_eq_conv)
  moreover have "v div 65536 = v div 256 div 256"
    by (simp add: div_mult2_eq [symmetric])
  ultimately show ?case
    by simp
qed simp

lemma group_bytes_groups6: "group_bytes (groups6 w) = bytes_of_word 16 w"
proof -
  have "(8 :: nat) - 1 = 7" "2 * 8 = (16 :: nat)"
    by simp_all
  with group_bytes_div [of "unat w" 8] show ?thesis
    by (simp only: groups6_def bytes_of_word_def)
qed

definition elide :: "nat list \<Rightarrow> nat \<times> nat \<Rightarrow> string" where
  "elide gs z = (if fst z \<ge> 8 then join_colon gs
     else join_colon (take (fst z) gs) @ ''::'' @ join_colon (drop (snd z) gs))"

lemma string6_elide: "\<exists>z. string6 w = elide (groups6 w) z \<and> run_ok (groups6 w) z"
proof -
  obtain zs ze where z: "zero_run (groups6 w) [0..<8] (255, 255) = (zs, ze)"
    by (rule prod.exhaust)
  have ok: "run_ok (groups6 w) (zs, ze)"
    unfolding z [symmetric] by (rule zero_run_ok) (auto simp: run_ok_def)
  have "string6 w = elide (groups6 w) (zs, ze)"
  proof (cases "zs \<ge> 8")
    case True
    then show ?thesis
      by (simp add: string6_def z elide_def string6_loop_plain)
  next
    case False
    with ok show ?thesis
      by (simp add: string6_def z elide_def run_ok_def Let_def string6_loop_run [of 0 zs _ ze])
  qed
  with ok show ?thesis
    by blast
qed


text \<open>Parsing an elided form gives the groups back.\<close>

lemma run_split:
  assumes "zs < ze" "ze \<le> length gs" "\<forall>k. zs \<le> k \<and> k < ze \<longrightarrow> gs ! k = 0"
  shows "gs = take zs gs @ replicate (ze - zs) 0 @ drop ze gs"
proof (rule nth_equalityI)
  show "length gs = length (take zs gs @ replicate (ze - zs) 0 @ drop ze gs)"
    using assms by simp
  fix i
  assume "i < length gs"
  then show "gs ! i = (take zs gs @ replicate (ze - zs) 0 @ drop ze gs) ! i"
    using assms by (auto simp: nth_append)
qed

definition parse6_body :: "string \<Rightarrow> byte list option" where
  "parse6_body s = (if has_prefix s ''::'' then
       (if drop 2 s = [] then Some (replicate 16 0)
        else Option.bind (parseIPv6Loop 8 [] (Some 0) (drop 2 s)) expand6)
     else Option.bind (parseIPv6Loop 8 [] None s) expand6)"

lemma parseIPv6_body:
  assumes "CHR ''%'' \<notin> set s"
  shows "parseIPv6 (s @ zone_suffix z) =
    map_option (\<lambda>bs. Addr6 (addr_word6 bs) z) (parse6_body s)"
proof -
  have "cut_at (CHR ''%'') (s @ zone_suffix z) = (s, z, z \<noteq> [])"
    using assms by (simp add: zone_suffix_def cut_at_append cut_at_notin)
  moreover have "addr_word6 (replicate 16 0) = 0"
    unfolding addr_word6_def word_of_bytes_def bytes_val_zeros by simp
  ultimately show ?thesis
    by (auto simp: parseIPv6_def parse6_body_def Let_def split: option.splits bind_split)
qed

lemma not_prefix_join:
  "gs \<noteq> [] \<Longrightarrow> \<not> has_prefix (join_colon gs @ t) ''::''"
  using join_colon_hd [of gs] by (cases "join_colon gs") (auto simp: has_prefix_def)

lemma parse6_body_elide:
  assumes len: "length gs = 8" and b: "\<forall>g \<in> set gs. g < 65536" and ok: "run_ok gs z"
  shows "parse6_body (elide gs z) = Some (group_bytes gs)"
proof (cases "fst z \<ge> 8")
  case True
  have "gs \<noteq> []"
    using len by auto
  then show ?thesis
    using True len b not_prefix_join [of gs "[]"] parseIPv6Loop_join [of gs "[]" 8 None]
    by (auto simp: elide_def parse6_body_def expand6_def)
next
  case False
  obtain zs ze where z: "z = (zs, ze)"
    by (rule prod.exhaust)
  with ok False len have r: "zs < ze" "ze \<le> 8" "\<forall>k. zs \<le> k \<and> k < ze \<longrightarrow> gs ! k = 0"
    by (auto simp: run_ok_def)
  let ?L = "take zs gs" and ?R = "drop ze gs"
  have bytes: "group_bytes gs = group_bytes ?L @ replicate (2 * (ze - zs)) 0 @ group_bytes ?R"
    using run_split [of zs ze gs] r len by (metis group_bytes_simps(3) group_bytes_zeros)
  have bL: "\<forall>g \<in> set ?L. g < 65536" and bR: "\<forall>g \<in> set ?R. g < 65536"
    using b by (auto dest: in_set_takeD in_set_dropD)
  have len': "length (group_bytes ?L) = 2 * zs" "length ?R = 8 - ze"
    using r len by auto
  have ex: "expand6 (group_bytes ?L @ group_bytes ?R, Some (2 * zs), []) = Some (group_bytes gs)"
    using len' r unfolding bytes expand6_def by (auto simp: diff_mult_distrib2)
  have right: "Option.bind (parseIPv6Loop n (group_bytes ?L) (Some (2 * zs)) (join_colon ?R)) expand6 =
     Some (group_bytes gs)" if "?R \<noteq> []" "n + zs \<ge> 8" for n
    using that len' r bR ex parseIPv6Loop_join [of ?R "group_bytes ?L" n "Some (2 * zs)"] by simp
  have empty: "?R = [] \<Longrightarrow> expand6 (group_bytes ?L, Some (2 * zs), []) = Some (group_bytes gs)"
    using ex by simp
  have el: "elide gs z = join_colon ?L @ ''::'' @ join_colon ?R"
    using False by (simp add: elide_def z)
  have jR: "join_colon ?R = [] \<longleftrightarrow> ?R = []"
    using join_colon_hd [of ?R] by auto
  show ?thesis
  proof (cases "zs = 0")
    case True
    then have "parse6_body (elide gs z) = (if ?R = [] then Some (replicate 16 0)
        else Option.bind (parseIPv6Loop 8 [] (Some 0) (join_colon ?R)) expand6)"
      unfolding el parse6_body_def by (simp add: has_prefix_def jR del: drop_eq_Nil)
    then show ?thesis
      using right [of 8] empty True r len' by (cases "?R = []") (simp_all add: expand6_def)
  next
    case nz: False
    then have L: "?L \<noteq> []" "length ?L = zs"
      using len r by auto
    have "parse6_body (elide gs z) = Option.bind (parseIPv6Loop 8 [] None (join_colon ?L @ ''::'' @ join_colon ?R)) expand6"
      unfolding el parse6_body_def using not_prefix_join [OF L(1)] by simp
    also have "parseIPv6Loop 8 [] None (join_colon ?L @ ''::'' @ join_colon ?R) =
        (if ?R = [] then Some (group_bytes ?L, Some (2 * zs), [])
         else parseIPv6Loop (8 - zs) (group_bytes ?L) (Some (2 * zs)) (join_colon ?R))"
      using parseIPv6Loop_ellipsis [of ?L "[]" 8 "join_colon ?R"] L bL r jR len'
      by (simp add: Let_def del: drop_eq_Nil)
    finally show ?thesis
      using right [of "8 - zs"] empty by (cases "?R = []") simp_all
  qed
qed

lemma join_colon_chars: "c \<in> set (join_colon gs) \<Longrightarrow> c = CHR '':'' \<or> hex_value c \<noteq> None"
  by (induction gs rule: join_colon.induct) (auto dest: hex_digits)

lemma elide_chars: "c \<in> set (elide gs z) \<Longrightarrow> c = CHR '':'' \<or> hex_value c \<noteq> None"
  by (auto simp: elide_def split: if_splits dest: join_colon_chars)

lemma elide_colon: "length gs = 8 \<Longrightarrow> CHR '':'' \<in> set (elide gs z)"
  by (auto simp: elide_def numeral_eq_Suc length_Suc_conv)

lemma string6_chars:
  "c \<in> set (string6 w) \<Longrightarrow> c = CHR '':'' \<or> hex_value c \<noteq> None" "CHR '':'' \<in> set (string6 w)"
  using string6_elide [of w] elide_chars elide_colon [of "groups6 w"] by (metis, auto)

lemma string6_no_percent: "CHR ''%'' \<notin> set (string6 w)"
  using string6_chars(1) by fastforce

lemma ParseAddr_colon:
  assumes "\<forall>c \<in> set s. c = CHR '':'' \<or> hex_value c \<noteq> None" and "CHR '':'' \<in> set s"
  shows "ParseAddr_at t (s @ r) = parseIPv6 t"
proof -
  obtain a b where s: "s = a @ CHR '':'' # b" and a: "CHR '':'' \<notin> set a"
    using assms(2) by (meson split_list_first)
  have "\<forall>c \<in> set a. c \<noteq> CHR ''.'' \<and> c \<noteq> CHR '':'' \<and> c \<noteq> CHR ''%''"
    using assms(1) a s by (metis Un_iff separators_not_digit(5,7) set_append)
  then show ?thesis
    by (simp add: s ParseAddr_at_skip)
qed

lemma ParseAddr_string6: "ParseAddr (string6 w @ zone_suffix z) = Some (Addr6 w z)"
proof -
  obtain r where "string6 w = elide (groups6 w) r" "run_ok (groups6 w) r"
    using string6_elide by blast
  then have "parse6_body (string6 w) = Some (bytes_of_word 16 w)"
    by (simp add: parse6_body_elide group_bytes_groups6)
  then have "parseIPv6 (string6 w @ zone_suffix z) = Some (Addr6 w z)"
    by (simp add: parseIPv6_body string6_no_percent addr_word6_def)
  then show ?thesis
    using ParseAddr_colon [of "string6 w"] string6_chars by (simp add: ParseAddr_def)
qed

text \<open>An IPv4-mapped address is printed with a dotted tail.\<close>

lemma hex_group_octet:
  assumes "v < 256"
  shows "\<exists>n a. hex_group 0 0 (itoa v @ CHR ''.'' # t) = Some (Suc n, a, CHR ''.'' # t)"
proof -
  have *: "\<forall>c \<in> set xs. is_digit c \<Longrightarrow> off + length xs \<le> 4 \<Longrightarrow> acc < 16 ^ off \<Longrightarrow>
    \<exists>a. hex_group off acc (xs @ CHR ''.'' # t) = Some (off + length xs, a, CHR ''.'' # t)" for xs off acc
  proof (induction xs arbitrary: off acc)
    case (Cons x xs)
    then have x: "hex_value x = Some (ord x - 48)" "ord x - 48 < 10" and off: "off \<le> 3"
      by (auto simp: hex_value_def is_digit_def)
    then have "acc * 16 + (ord x - 48) < 16 ^ Suc off"
      using Cons.prems(3) by simp
    moreover have "(16 :: nat) ^ Suc off \<le> 16 ^ 4"
      using off by (intro power_increasing) auto
    ultimately show ?case
      using Cons.IH [of "Suc off" "acc * 16 + (ord x - 48)"] Cons.prems x off by (simp add: Let_def)
  qed simp
  have "length (itoa v) \<le> 3"
    using assms length_digits_base [of 10 v 2] by (simp add: itoa_def)
  moreover obtain n where "length (itoa v) = Suc n"
    by (metis itoa_nonempty length_greater_0_conv gr0_implies_Suc)
  ultimately show ?thesis
    using * [of "itoa v" 0 0] itoa_digits [of _ v] by force
qed

lemma parse6_body_mapped:
  assumes "length bs = 4"
  shows "parse6_body (''::ffff:'' @ string4 bs) = Some (v4InV6Prefix @ bs)"
proof -
  have "hd (itoa (unat (bs ! 0))) \<noteq> CHR '':''"
    by (metis hd_in_set itoa_no_sep(2) itoa_nonempty)
  then have s4: "string4 bs \<noteq> []" "hd (string4 bs) \<noteq> CHR '':''"
    by (auto simp: string4_def hd_append)
  obtain n a t where dot: "hex_group 0 0 (string4 bs) = Some (Suc n, a, CHR ''.'' # t)"
    using hex_group_octet [OF unat_byte_less] by (fastforce simp: string4_def)
  have ffff: "(65535 :: byte) = 255"
    by simp
  have f: "hex_group 0 0 (''ffff:'' @ string4 bs) = Some (4, 65535, CHR '':'' # string4 bs)"
    by (simp add: hex_value_def ord_def)
  have "parseIPv6Loop 7 [255, 255] (Some 0) (string4 bs) = Some ([255, 255] @ bs, Some 0, [])"
    using dot parseIPv4Fields_string4 [OF assms] by (simp add: numeral_eq_Suc)
  then have "parseIPv6Loop (Suc 7) [] (Some 0) (''ffff:'' @ string4 bs) = Some ([255, 255] @ bs, Some 0, [])"
    unfolding parseIPv6Loop.simps f using s4 by (simp add: ffff)
  then show ?thesis
    using assms by (simp add: parse6_body_def has_prefix_def expand6_def v4InV6Prefix_def)
qed

lemma string4_chars: "length bs = 4 \<Longrightarrow> c \<in> set (string4 bs) \<Longrightarrow> c = CHR ''.'' \<or> is_digit c"
  by (auto simp: string4_def dest: itoa_digits)

lemma ParseAddr_String: "a \<noteq> AddrInvalid \<Longrightarrow> ParseAddr (Addr_String a) = Some a"
proof (induction a)
  case (Addr4 w)
  then show ?case
    by (simp add: ParseAddr_string4 addr_word4_def)
next
  case (Addr6 w z)
  show ?case
  proof (cases "is4in6_bytes (bytes_of_word 16 w)")
    case True
    let ?b = "drop 12 (bytes_of_word 16 w)"
    have b: "v4InV6Prefix @ ?b = bytes_of_word 16 w"
      using True by (metis append_take_drop_id is4in6_bytes_def v4InV6Prefix_def)
    have l: "length ?b = 4"
      by simp
    have "CHR ''%'' \<notin> set (''::ffff:'' @ string4 ?b)"
      using string4_chars [OF l] by fastforce
    from parseIPv6_body [OF this, of z] have
      "parseIPv6 (Addr_String (Addr6 w z)) = Some (Addr6 w z)"
      using True parse6_body_mapped [OF l] b by (simp add: addr_word6_def)
    then show ?thesis
      using True by (simp add: ParseAddr_def)
  qed (simp add: ParseAddr_string6)
qed simp

end
