(* ===== verification/Ipnet.thy ===== *)
theory Ipnet
  imports Netip
begin

text \<open>
  \<open>internal/ipnet\<close>: the pure CIDR and allocation library (\<open>ipnet.go\<close>) and address
  placement (\<open>placement.go\<close>). \<open>math/big\<close> integers are \<^typ>\<open>int\<close>;
  addresses are the byte sequences of \<open>net.IP\<close>. The exclude sets of the allocator keep Go's
  \<open>map[string]bool\<close> shape.

  The lemmas give every parsed block as an aligned interval (\<open>ParseCIDR_wf\<close>), the least free
  address and its absence (\<open>FirstFree\<close>), the first \<open>n\<close> of them (\<open>BulkFree\<close>),
  overlap and containment as statements on sets of addresses, and longest-prefix placement.
\<close>

section \<open>Constants and data\<close>

definition MaxHostEnumerate :: int where
  "MaxHostEnumerate = 65536"

definition MaxSubdivide :: int where
  "MaxSubdivide = 1024"

record Info =
  Network :: IP
  Broadcast :: IP
  Mask :: IP
  PrefixLen :: int
  Total :: int
  Version :: int

section \<open>Big-integer conversions\<close>

definition ipToInt :: "IP \<Rightarrow> int" where
  "ipToInt ip = (case To4 ip of
       Some v4 \<Rightarrow> int (bytes_val v4)
     | None \<Rightarrow> (case To16 ip of Some b \<Rightarrow> int (bytes_val b) | None \<Rightarrow> 0))"

text \<open>\<open>big.Int.Bytes\<close> is the magnitude; the low-order bytes are kept, left-padded with
  zeros.\<close>

definition intToIP :: "int \<Rightarrow> int \<Rightarrow> IP" where
  "intToIP i version = nat_bytes (if version = 6 then 16 else 4) (nat \<bar>i\<bar>)"

definition normalizeIP :: "string \<Rightarrow> string" where
  "normalizeIP s = (case ParseIP (trim_space s) of None \<Rightarrow> [] | Some ip \<Rightarrow> IP_String ip)"

definition normalizeExclude :: "bool tbl \<Rightarrow> string set" where
  "normalizeExclude ex =
     set (filter (\<lambda>n. n \<noteq> []) (map (\<lambda>(k, v). normalizeIP k) (filter snd ex)))"

section \<open>Parsing a block\<close>

text \<open>The part of \<open>Parse\<close> after the address family is known.\<close>

definition info_of :: "int \<Rightarrow> IP \<Rightarrow> byte list \<Rightarrow> nat \<times> nat \<Rightarrow> Info" where
  "info_of version network m sz = (case sz of (prefix, bits) \<Rightarrow>
     \<lparr>Network = network,
      Broadcast = intToIP (ipToInt network + 2 ^ (bits - prefix) - 1) version,
      Mask = m,
      PrefixLen = int prefix,
      Total = (if bits - prefix \<ge> 63 then maxInt64 else 2 ^ (bits - prefix)),
      Version = version\<rparr>)"

definition Parse :: "string \<Rightarrow> Info res" where
  "Parse cidr = (case ParseCIDR (trim_space cidr) of
       None \<Rightarrow> Inl IpnetParse
     | Some (_, ipnet) \<Rightarrow> Inr (case To4 (net_IP ipnet) of
           Some network \<Rightarrow> info_of 4 network (net_Mask ipnet) (Mask_Size (net_Mask ipnet))
         | None \<Rightarrow> info_of 6 (case To16 (net_IP ipnet) of Some n \<Rightarrow> n | None \<Rightarrow> [])
             (net_Mask ipnet) (Mask_Size (net_Mask ipnet))))"

definition hostRange :: "Info \<Rightarrow> int \<times> int" where
  "hostRange info =
     (let lo = ipToInt (Network info); hi = ipToInt (Broadcast info) in
      if Version info = 4 then
        (if PrefixLen info < 31 then (lo + 1, hi - 1) else (lo, hi))
      else (if PrefixLen info < 127 then (lo + 1, hi) else (lo, hi)))"

definition boundedRange :: "Info \<Rightarrow> int \<Rightarrow> int \<Rightarrow> int \<times> int" where
  "boundedRange info skipFirst skipLast =
     (let (lo, hi) = hostRange info in
      (if skipFirst > 0 then lo + skipFirst else lo,
       if skipLast > 0 then hi - skipLast else hi))"

section \<open>Enumeration and allocation\<close>

definition Hosts :: "string \<Rightarrow> IP list res" where
  "Hosts cidr = (case Parse cidr of
       Inl e \<Rightarrow> Inl e
     | Inr info \<Rightarrow>
        (let (lo, hi) = hostRange info; count = hi - lo + 1 in
         if count > MaxHostEnumerate then Inl IpnetTooLarge
         else Inr (map (\<lambda>i. intToIP (lo + int i) (Version info)) [0..<nat count])))"

definition blockedSet :: "bool tbl \<Rightarrow> string \<Rightarrow> string set" where
  "blockedSet ex gateway =
     (let gw = normalizeIP gateway in
      if gw \<noteq> [] then insert gw (normalizeExclude ex) else normalizeExclude ex)"

function free_scan :: "string set \<Rightarrow> int \<Rightarrow> int \<Rightarrow> int \<Rightarrow> IP option" where
  "free_scan blocked version cur hi =
     (if cur \<le> hi then
        (let ip = intToIP cur version in
         if IP_String ip \<notin> blocked then Some ip else free_scan blocked version (cur + 1) hi)
      else None)"
  by pat_completeness auto
termination
  by (relation "measure (\<lambda>(blocked, version, cur, hi). nat (hi - cur + 1))") auto

declare free_scan.simps [simp del]

definition FirstFree :: "string \<Rightarrow> bool tbl \<Rightarrow> string \<Rightarrow> int \<Rightarrow> int \<Rightarrow> IP res" where
  "FirstFree cidr ex gateway skipFirst skipLast = (case Parse cidr of
       Inl e \<Rightarrow> Inl e
     | Inr info \<Rightarrow>
        (let (lo, hi) = boundedRange info skipFirst skipLast in
         case free_scan (blockedSet ex gateway) (Version info) lo hi of
           Some ip \<Rightarrow> Inr ip
         | None \<Rightarrow> Inl IpnetExhausted))"

text \<open>The loop of \<open>BulkFree\<close>: what is still wanted, and the addresses found from
  \<open>cur\<close> on.\<close>

function bulk_scan :: "string set \<Rightarrow> int \<Rightarrow> nat \<Rightarrow> int \<Rightarrow> int \<Rightarrow> IP list" where
  "bulk_scan blocked version want cur hi =
     (if cur \<le> hi \<and> 0 < want then
        (let ip = intToIP cur version in
         if IP_String ip \<notin> blocked then ip # bulk_scan blocked version (want - 1) (cur + 1) hi
         else bulk_scan blocked version want (cur + 1) hi)
      else [])"
  by pat_completeness auto
termination
  by (relation "measure (\<lambda>(blocked, version, want, cur, hi). nat (hi - cur + 1))") auto

declare bulk_scan.simps [simp del]

definition BulkFree :: "string \<Rightarrow> bool tbl \<Rightarrow> string \<Rightarrow> int \<Rightarrow> int \<Rightarrow> int \<Rightarrow> IP list res" where
  "BulkFree cidr ex gateway skipFirst skipLast n =
     (if n \<le> 0 then Inr []
      else case Parse cidr of
        Inl e \<Rightarrow> Inl e
      | Inr info \<Rightarrow>
         (let (lo, hi) = boundedRange info skipFirst skipLast;
              out = bulk_scan (blockedSet ex gateway) (Version info) (nat n) lo hi in
          if int (length out) < n then Inl IpnetExhausted else Inr out))"

section \<open>Relations between blocks\<close>

definition Overlaps :: "string \<Rightarrow> string \<Rightarrow> bool res" where
  "Overlaps a b = (case ParseCIDR (trim_space a) of
       None \<Rightarrow> Inl IpnetParse
     | Some (_, na) \<Rightarrow> (case ParseCIDR (trim_space b) of
         None \<Rightarrow> Inl IpnetParse
       | Some (_, nb) \<Rightarrow> Inr (IPNet_Contains na (net_IP nb) \<or> IPNet_Contains nb (net_IP na))))"

definition Within :: "string \<Rightarrow> string \<Rightarrow> bool" where
  "Within child parent = (case ParseCIDR (trim_space child) of
       None \<Rightarrow> False
     | Some (_, nc) \<Rightarrow> (case ParseCIDR (trim_space parent) of
         None \<Rightarrow> False
       | Some (_, np) \<Rightarrow>
          (let (cOnes, cBits) = Mask_Size (net_Mask nc); (pOnes, pBits) = Mask_Size (net_Mask np) in
           cBits = pBits \<and> cOnes > pOnes \<and> IPNet_Contains np (net_IP nc))))"

text \<open>The loop over the block indices.\<close>

fun subdivide_loop :: "int \<Rightarrow> int \<Rightarrow> int \<Rightarrow> int \<Rightarrow> nat list \<Rightarrow> string list" where
  "subdivide_loop base step version prefixLen [] = []"
| "subdivide_loop base step version prefixLen (i # is) =
     (IP_String (intToIP (base + step * int i) version) @ ''/'' @ itoa_int prefixLen)
       # subdivide_loop base step version prefixLen is"

lemma subdivide_loop_map: "subdivide_loop base step version prefixLen is =
    map (\<lambda>i. IP_String (intToIP (base + step * int i) version) @ ''/'' @ itoa_int prefixLen) is"
  by (induction "is") auto

definition Subdivide :: "string \<Rightarrow> int \<Rightarrow> string list res" where
  "Subdivide cidr prefixLen = (case Parse cidr of
       Inl e \<Rightarrow> Inl e
     | Inr info \<Rightarrow>
        (let bits = (if Version info = 6 then 128 else 32) in
         if prefixLen \<le> PrefixLen info \<or> prefixLen > bits
         then Inl (IpnetParseMsg ''%w: prefix /%d is not inside /%d'' [itoa_int prefixLen, itoa_int (PrefixLen info)])
         else
           (let countBits = prefixLen - PrefixLen info in
            if countBits > 20 then Inl IpnetTooLarge
            else
              (let count = 2 ^ nat countBits :: int in
               if count > MaxSubdivide then Inl IpnetTooLarge
               else
                 (let step = 2 ^ nat (bits - prefixLen) :: int; base = ipToInt (Network info) in
                  Inr (subdivide_loop base step (Version info) prefixLen [0..<nat count]))))))"

definition Contains :: "string \<Rightarrow> string \<Rightarrow> bool res" where
  "Contains cidr ip = (case ParseCIDR (trim_space cidr) of
       None \<Rightarrow> Inl IpnetParse
     | Some (_, n) \<Rightarrow> (case ParseIP (trim_space ip) of
         None \<Rightarrow> Inl IpnetParse
       | Some p \<Rightarrow> Inr (IPNet_Contains n p)))"

definition GatewayInRange :: "string \<Rightarrow> string \<Rightarrow> bool res" where
  "GatewayInRange cidr gateway = (case Parse cidr of
       Inl e \<Rightarrow> Inl e
     | Inr info \<Rightarrow> (case ParseIP (trim_space gateway) of
         None \<Rightarrow> Inl IpnetParse
       | Some gw \<Rightarrow> (case ParseCIDR (trim_space cidr) of
           None \<Rightarrow> Inr False
         | Some (_, n) \<Rightarrow>
            if \<not> IPNet_Contains n gw then Inr False
            else if Version info = 4 \<and> PrefixLen info < 31 \<and>
                (IP_Equal gw (Network info) \<or> IP_Equal gw (Broadcast info)) then Inr False
            else Inr True)))"

definition InRange :: "string \<Rightarrow> string \<Rightarrow> bool" where
  "InRange rangeSpec ip = (case ParseIP (trim_space ip) of
       None \<Rightarrow> False
     | Some target \<Rightarrow>
        (let ti = ipToInt target; spec = trim_space rangeSpec;
             (lo, hi, ok) = cut_at (CHR ''-'') spec in
         if \<not> ok then
           (case ParseIP (trim_space spec) of
              None \<Rightarrow> False
            | Some single \<Rightarrow> ipToInt single = ti)
         else
           (case (ParseIP (trim_space lo), ParseIP (trim_space hi)) of
              (Some loIP, Some hiIP) \<Rightarrow> ti \<ge> ipToInt loIP \<and> ti \<le> ipToInt hiIP
            | _ \<Rightarrow> False)))"

section \<open>Placement\<close>

record Candidate =
  cand_ID :: string
  cand_CIDR :: string

fun Addr_WithoutZone :: "Addr \<Rightarrow> Addr" where
  "Addr_WithoutZone (Addr6 w z) = Addr6 w []"
| "Addr_WithoutZone a = a"

text \<open>The scan keeps the best candidate with its prefix length, \<open>None\<close> standing for
  \<open>bestBits = -1\<close>.\<close>

fun most_specific_scan :: "Addr \<Rightarrow> (Candidate \<times> nat) option \<Rightarrow> Candidate list \<Rightarrow>
    (Candidate \<times> nat) option" where
  "most_specific_scan addr best [] = best"
| "most_specific_scan addr best (c # cs) =
     (case ParsePrefix (cand_CIDR c) of
        None \<Rightarrow> most_specific_scan addr best cs
      | Some p \<Rightarrow>
         if \<not> Prefix_Contains (Prefix_Masked p) addr then most_specific_scan addr best cs
         else
           (let bits = prefix_bits p in
            most_specific_scan addr
              (case best of
                 None \<Rightarrow> Some (c, bits)
               | Some (b, bestBits) \<Rightarrow>
                  if bits > bestBits \<or> (bits = bestBits \<and> cand_ID c < cand_ID b)
                  then Some (c, bits) else best) cs))"

definition MostSpecific :: "Candidate list \<Rightarrow> Addr \<Rightarrow> Candidate option" where
  "MostSpecific cands addr =
     map_option fst (most_specific_scan (Addr_WithoutZone (Addr_Unmap addr)) None cands)"

definition NetworkOf :: "Addr \<Rightarrow> int \<Rightarrow> Prefix res" where
  "NetworkOf addr bits =
     (let a = Addr_WithoutZone (Addr_Unmap addr) in
      if \<not> Addr_IsValid a \<or> bits < 0 \<or> bits > int (Addr_BitLen a) then Inl IpnetPrefix
      else Inr (Prefix_Masked (Prefix a (nat bits))))"

definition AutoPrefix :: "Addr \<Rightarrow> int \<Rightarrow> Prefix" where
  "AutoPrefix addr bits =
     (let a = Addr_WithoutZone (Addr_Unmap addr);
          b = (if Addr_Is4 a then (if bits < 8 \<or> bits > 32 then 32 else bits)
               else if bits < 16 \<or> bits \<ge> 128 then 64 else bits) in
      case NetworkOf a b of Inr p \<Rightarrow> p | Inl _ \<Rightarrow> Prefix AddrInvalid 0)"

datatype Class = ClassInvalid | ClassUnspecified | ClassLoopback | ClassLinkLocal | ClassMulticast
  | ClassBroadcast | ClassMapped | ClassGlobal | ClassULA

fun Class_String :: "Class \<Rightarrow> string" where
  "Class_String ClassInvalid = ''invalid''"
| "Class_String ClassUnspecified = ''unspecified''"
| "Class_String ClassLoopback = ''loopback''"
| "Class_String ClassLinkLocal = ''link_local''"
| "Class_String ClassMulticast = ''multicast''"
| "Class_String ClassBroadcast = ''broadcast''"
| "Class_String ClassMapped = ''mapped''"
| "Class_String ClassGlobal = ''global''"
| "Class_String ClassULA = ''ula''"

definition Recordable :: "Class \<Rightarrow> bool" where
  "Recordable c = (c = ClassGlobal \<or> c = ClassULA)"

text \<open>The predicates of \<open>netip.Addr\<close> that classification uses, on the numeric value.\<close>

definition Addr_IsUnspecified :: "Addr \<Rightarrow> bool" where
  "Addr_IsUnspecified a = (a = Addr4 0 \<or> a = Addr6 0 [])"

definition Addr_IsLoopback :: "Addr \<Rightarrow> bool" where
  "Addr_IsLoopback a = (case a of
       Addr4 w \<Rightarrow> unat w div 2 ^ 24 = 127
     | Addr6 w z \<Rightarrow> w = 1
     | AddrInvalid \<Rightarrow> False)"

definition Addr_IsMulticast :: "Addr \<Rightarrow> bool" where
  "Addr_IsMulticast a = (case a of
       Addr4 w \<Rightarrow> unat w div 2 ^ 28 = 14
     | Addr6 w z \<Rightarrow> unat w div 2 ^ 120 = 255
     | AddrInvalid \<Rightarrow> False)"

definition Addr_IsLinkLocalUnicast :: "Addr \<Rightarrow> bool" where
  "Addr_IsLinkLocalUnicast a = (case a of
       Addr4 w \<Rightarrow> unat w div 2 ^ 16 = 169 * 256 + 254
     | Addr6 w z \<Rightarrow> unat w div 2 ^ 118 = 1018
     | AddrInvalid \<Rightarrow> False)"

definition ula :: Prefix where
  "ula = Prefix (Addr6 0xfc000000000000000000000000000000 []) 7"

definition Classify :: "Addr \<Rightarrow> Class" where
  "Classify addr =
     (if \<not> Addr_IsValid addr then ClassInvalid
      else if Addr_Is4In6 addr then ClassMapped
      else if Addr_IsUnspecified addr then ClassUnspecified
      else if Addr_IsLoopback addr then ClassLoopback
      else if Addr_IsMulticast addr then ClassMulticast
      else if addr = Addr4 0xffffffff then ClassBroadcast
      else if Addr_IsLinkLocalUnicast addr then ClassLinkLocal
      else if Prefix_Contains ula (Addr_WithoutZone addr) then ClassULA
      else ClassGlobal)"

section \<open>Canonical text of an address\<close>

lemma ParseIP_IP_String:
  assumes "length ip = 4 \<or> length ip = 16"
  shows "ParseIP (IP_String ip) = To16 ip"
proof (cases "To4 ip")
  case None
  then have ip: "length ip = 16" "\<not> is4in6_bytes ip"
    using assms by (auto simp: To4_def split: if_splits)
  then have "ParseAddr (IP_String ip) = Some (Addr6 (addr_word6 ip) [])"
    using None ParseAddr_string6 [of "addr_word6 ip" "[]"]
    by (auto simp: IP_String_def zone_suffix_def)
  then show ?thesis
    using ip by (simp add: ParseIP_def Addr_Zone_def Addr_As16_def To16_def bytes_of_addr_word6)
next
  case (Some b)
  then have b: "length b = 4"
    by (auto simp: To4_def is4in6_bytes_def split: if_splits)
  have "ParseAddr (IP_String ip) = Some (Addr4 (addr_word4 b))"
    using Some assms ParseAddr_string4 [OF b] by (auto simp: IP_String_def)
  moreover have "To16 ip = Some (v4InV6Prefix @ b)"
  proof (cases "length ip = 4")
    case False
    then have "length ip = 16" "take 12 ip = v4InV6Prefix" "b = drop 12 ip"
      using Some by (auto simp: To4_def is4in6_bytes_def v4InV6Prefix_def split: if_splits)
    then show ?thesis
      by (metis To16_def append_take_drop_id False)
  qed (use Some in \<open>simp add: To4_def To16_def\<close>)
  ultimately show ?thesis
    using b by (simp add: ParseIP_def Addr_Zone_def Addr_As16_def bytes_of_addr_word4)
qed

lemma digit_graphic: "is_digit c \<Longrightarrow> 33 \<le> ord c \<and> ord c < 127"
  by (auto simp: is_digit_def)

lemma hex_graphic: "hex_value c \<noteq> None \<Longrightarrow> 33 \<le> ord c \<and> ord c < 127"
  by (auto simp: hex_value_def split: if_splits)

lemma IP_String_graphic: "length ip = 4 \<or> length ip = 16 \<Longrightarrow> graphic (IP_String ip)"
proof (cases "To4 ip")
  case None
  assume "length ip = 4 \<or> length ip = 16"
  then have "IP_String ip = string6 (addr_word6 ip)"
    using None by (auto simp: IP_String_def)
  moreover have "ord (CHR '':'') = 58"
    by (simp add: ord_def)
  ultimately show ?thesis
    using string6_chars(1) [of _ "addr_word6 ip"] hex_graphic by (force simp: graphic_def)
next
  case (Some b)
  assume l: "length ip = 4 \<or> length ip = 16"
  have "length b = 4"
    using Some by (auto simp: To4_def is4in6_bytes_def split: if_splits)
  moreover have "IP_String ip = string4 b"
    using Some l by (auto simp: IP_String_def)
  moreover have "ord (CHR ''.'') = 46"
    by (simp add: ord_def)
  ultimately show ?thesis
    using string4_chars [of b] digit_graphic by (force simp: graphic_def)
qed

lemma length_ParseIP: "ParseIP s = Some ip \<Longrightarrow> length ip = 16"
  by (auto simp: ParseIP_def Addr_As16_def v4InV6Prefix_def split: option.splits if_splits Addr.splits)

lemma To16_16 [simp]: "length ip = 16 \<Longrightarrow> To16 ip = Some ip"
  by (simp add: To16_def)

lemma IP_String_inj:
  assumes "length a = 4 \<or> length a = 16" "length b = 4 \<or> length b = 16"
  shows "IP_String a = IP_String b \<longleftrightarrow> To16 a = To16 b"
proof
  assume "IP_String a = IP_String b"
  then show "To16 a = To16 b"
    using ParseIP_IP_String assms by metis
next
  assume eq: "To16 a = To16 b"
  have "To4 x = (case To16 x of Some y \<Rightarrow> To4 y | None \<Rightarrow> None)"
    if "length x = 4 \<or> length x = 16" for x :: IP
    using that by (auto simp: To16_def To4_def is4in6_bytes_def v4InV6Prefix_def)
  then have t4: "To4 a = To4 b"
    using assms eq by metis
  show "IP_String a = IP_String b"
  proof (cases "To4 a")
    case None
    then have "length a = 16" "length b = 16"
      using assms t4 by (auto simp: To4_def split: if_splits)
    then show ?thesis
      using eq by simp
  next
    case (Some x)
    then show ?thesis
      using t4 assms by (auto simp: IP_String_def)
  qed
qed

text \<open>\<open>same_address s ip\<close>: the text \<open>s\<close>, trimmed, is an address and denotes
  \<open>ip\<close>.\<close>

definition same_address :: "string \<Rightarrow> IP \<Rightarrow> bool" where
  "same_address s ip = (ParseIP (trim_space s) \<noteq> None \<and> ParseIP (trim_space s) = To16 ip)"

lemma normalizeIP_empty: "normalizeIP s = [] \<longleftrightarrow> ParseIP (trim_space s) = None"
proof -
  have "IP_String ip \<noteq> []" if "ParseIP t = Some ip" for t ip
    using length_ParseIP [OF that] string6_chars(2) [of "addr_word6 ip"]
    by (auto simp: IP_String_def string4_def split: option.splits)
  then show ?thesis
    by (auto simp: normalizeIP_def split: option.splits)
qed

lemma normalizeIP_eq:
  assumes "length ip = 4 \<or> length ip = 16"
  shows "normalizeIP s = IP_String ip \<longleftrightarrow> same_address s ip"
proof (cases "ParseIP (trim_space s)")
  case None
  then show ?thesis
    using IP_String_graphic [OF assms] normalizeIP_empty [of s] ParseIP_IP_String [OF assms] assms
    by (auto simp: same_address_def To16_def ParseIP_def ParseAddr_def split: if_splits)
next
  case (Some a)
  then show ?thesis
    using IP_String_inj [of a ip] length_ParseIP [OF Some] assms
    by (auto simp: same_address_def normalizeIP_def)
qed

definition taken :: "bool tbl \<Rightarrow> string \<Rightarrow> IP \<Rightarrow> bool" where
  "taken ex gateway ip =
     ((\<exists>k. (k, True) \<in> set ex \<and> same_address k ip) \<or> same_address gateway ip)"

lemma blocked_iff_taken:
  assumes "length ip = 4 \<or> length ip = 16"
  shows "IP_String ip \<in> blockedSet ex gateway \<longleftrightarrow> taken ex gateway ip"
proof -
  have ne: "IP_String ip \<noteq> []"
    using ParseIP_IP_String [OF assms] assms by (auto simp: ParseIP_def ParseAddr_def To16_def)
  have "IP_String ip \<in> normalizeExclude ex \<longleftrightarrow> (\<exists>k. (k, True) \<in> set ex \<and> same_address k ip)"
    using ne by (auto simp: normalizeExclude_def normalizeIP_eq [OF assms, symmetric]
        intro: rev_image_eqI)
  moreover have "IP_String ip = normalizeIP gateway \<longleftrightarrow> same_address gateway ip"
    using normalizeIP_eq [OF assms] by metis
  ultimately show ?thesis
    using ne by (auto simp: blockedSet_def taken_def Let_def)
qed

section \<open>The free-address scan\<close>

lemma length_intToIP: "length (intToIP i v) = 4 \<or> length (intToIP i v) = 16"
  by (simp add: intToIP_def)

lemma free_scan_spec:
  "case free_scan blocked ver cur hi of
     Some ip \<Rightarrow> \<exists>v. cur \<le> v \<and> v \<le> hi \<and> ip = intToIP v ver \<and> IP_String ip \<notin> blocked \<and>
       (\<forall>u. cur \<le> u \<and> u < v \<longrightarrow> IP_String (intToIP u ver) \<in> blocked)
   | None \<Rightarrow> \<forall>u. cur \<le> u \<and> u \<le> hi \<longrightarrow> IP_String (intToIP u ver) \<in> blocked"
proof (induction blocked ver cur hi rule: free_scan.induct)
  case (1 blocked ver cur hi)
  show ?case
  proof (cases "cur \<le> hi \<and> IP_String (intToIP cur ver) \<in> blocked")
    case True
    have step: "cur \<le> u \<Longrightarrow> u = cur \<or> cur + 1 \<le> u" for u
      by linarith
    from True have "free_scan blocked ver cur hi = free_scan blocked ver (cur + 1) hi"
      by (subst free_scan.simps) (simp add: Let_def)
    moreover note IH = 1 [OF _ refl]
    ultimately show ?thesis
    proof (cases "free_scan blocked ver (cur + 1) hi")
      case None
      with IH True have "\<forall>u. cur + 1 \<le> u \<and> u \<le> hi \<longrightarrow> IP_String (intToIP u ver) \<in> blocked"
        by simp
      with True step None show ?thesis
        using \<open>free_scan blocked ver cur hi = _\<close> by (simp, blast)
    next
      case (Some ip)
      with IH True obtain v where v: "cur + 1 \<le> v" "v \<le> hi" "ip = intToIP v ver"
        "IP_String ip \<notin> blocked" "\<forall>u. cur + 1 \<le> u \<and> u < v \<longrightarrow> IP_String (intToIP u ver) \<in> blocked"
        by auto
      then have "\<forall>u. cur \<le> u \<and> u < v \<longrightarrow> IP_String (intToIP u ver) \<in> blocked"
        using True step by blast
      with v Some show ?thesis
        using \<open>free_scan blocked ver cur hi = _\<close> by (auto intro!: exI [of _ v])
    qed
  next
    case False
    then show ?thesis
      by (subst free_scan.simps) (auto simp: Let_def)
  qed
qed

lemma bulk_scan_spec:
  "bulk_scan blocked ver want cur hi =
     take want (filter (\<lambda>ip. IP_String ip \<notin> blocked) (map (\<lambda>v. intToIP v ver) [cur..hi]))"
proof (induction blocked ver want cur hi rule: bulk_scan.induct)
  case (1 blocked ver want cur hi)
  show ?case
  proof (cases "cur \<le> hi \<and> 0 < want")
    case True
    then have "[cur..hi] = cur # [cur + 1..hi]"
      by (simp add: upto_rec1)
    then show ?thesis
      using 1 True by (subst bulk_scan.simps) (auto simp: Let_def take_Cons')
  next
    case False
    then show ?thesis
      by (subst bulk_scan.simps) auto
  qed
qed

section \<open>Parsed blocks are aligned intervals\<close>

text \<open>
  \<open>wf_net n sz nn p\<close>: the network \<open>n\<close> has the \<open>sz\<close>-byte number \<open>nn\<close>
  with all bits beyond the first \<open>p\<close> cleared, and its mask has the matching number of host
  bits. A network written in IPv4-mapped form is a four-byte one whose mask still has sixteen bytes.
\<close>

definition ip_norm :: "IP \<Rightarrow> IP" where
  "ip_norm x = (case To4 x of Some y \<Rightarrow> y | None \<Rightarrow> x)"

definition wf_net :: "IPNet \<Rightarrow> nat \<Rightarrow> IP \<Rightarrow> nat \<Rightarrow> bool" where
  "wf_net n sz nn p =
     ((sz = 4 \<or> sz = 16) \<and> p \<le> 8 * sz \<and> length nn = sz \<and>
      networkNumberAndMask n = (nn, cidr_bytes p sz) \<and> ip_norm (net_IP n) = nn \<and>
      To4 (net_IP n) = (if sz = 4 then Some nn else None) \<and>
      (sz = 16 \<longrightarrow> net_IP n = nn) \<and>
      2 ^ (8 * sz - p) dvd bytes_val nn \<and>
      (\<exists>bits. Mask_Size (net_Mask n) = (bits - (8 * sz - p), bits) \<and> (bits = 8 * sz \<or> bits = 128)))"

lemma is4in6_val: "is4in6_bytes bs \<Longrightarrow> bytes_val bs div 2 ^ 32 = 65535"
proof -
  assume "is4in6_bytes bs"
  then have l: "length (drop 12 bs) = 4" and t: "take 12 bs = replicate 10 0 @ [255, 255]"
    by (auto simp: is4in6_bytes_def)
  have "bytes_val bs = bytes_val (take 12 bs) * 256 ^ 4 + bytes_val (drop 12 bs)"
    using bytes_val_append [of "take 12 bs" "drop 12 bs"] l by simp
  moreover have "bytes_val (take 12 bs) = 65535"
    unfolding t by (simp add: bytes_val_append)
  ultimately show ?thesis
    using bytes_val_less [of "drop 12 bs"] l by simp
qed

lemma drop_cidr: "8 * k \<le> n \<Longrightarrow> k \<le> m \<Longrightarrow> drop k (cidr_bytes n m) = cidr_bytes (n - 8 * k) (m - k)"
proof (induction k arbitrary: n m)
  case (Suc k)
  then obtain m' where "m = Suc m'"
    by (cases m) auto
  then show ?case
    using Suc by simp
qed simp

lemma length_masked [simp]:
  "length a = length b \<Longrightarrow> length (map2 (AND) a b) = length a"
  by simp

lemma masked_dvd: "n \<le> 8 * length bs \<Longrightarrow>
    2 ^ (8 * length bs - n) dvd bytes_val (map2 (AND) bs (cidr_bytes n (length bs)))"
  by (simp add: bytes_val_mask)

lemma mapped_mask_long:
  assumes "n \<le> 128" "length bs = 16" "is4in6_bytes (map2 (AND) bs (cidr_bytes n 16))"
  shows "96 \<le> n"
proof (rule ccontr)
  assume "\<not> 96 \<le> n"
  let ?v = "bytes_val (map2 (AND) bs (cidr_bytes n 16))"
  have "(2 :: nat) ^ 33 dvd 2 ^ (128 - n)"
    using \<open>\<not> 96 \<le> n\<close> by (intro le_imp_power_dvd) simp
  also have "\<dots> dvd ?v"
    using masked_dvd [of n bs] assms by simp
  finally have "even (?v div 2 ^ 32)"
    by (auto elim!: dvdE)
  then show False
    using is4in6_val [OF assms(3)] by simp
qed

lemma v4_mapped_bytes: "length x = 4 \<Longrightarrow> is4in6_bytes (v4InV6Prefix @ x)"
  by (simp add: is4in6_bytes_def v4InV6Prefix_def)

lemma wf_net_v4:
  assumes "length x = 4" "p \<le> 32"
  shows "wf_net \<lparr>net_IP = IP_Mask (v4InV6Prefix @ x) (CIDRMask p 32), net_Mask = CIDRMask p 32\<rparr>
           4 (map2 (AND) x (cidr_bytes p 4)) p"
proof -
  have "IP_Mask (v4InV6Prefix @ x) (CIDRMask p 32) = map2 (AND) x (cidr_bytes p 4)"
    using assms by (simp add: IP_Mask_def CIDRMask_def v4InV6Prefix_def Let_def)
  then show ?thesis
    using assms masked_dvd [of p x] Mask_Size_CIDRMask [of p 32]
    by (auto simp: wf_net_def networkNumberAndMask_def To4_def ip_norm_def CIDRMask_def Let_def)
qed

lemma wf_net_v6:
  assumes "length x = 16" "p \<le> 128"
  shows "\<exists>sz nn q. wf_net \<lparr>net_IP = IP_Mask x (CIDRMask p 128), net_Mask = CIDRMask p 128\<rparr> sz nn q"
proof -
  let ?m = "map2 (AND) x (cidr_bytes p 16)"
  have m: "IP_Mask x (CIDRMask p 128) = ?m" and l: "length ?m = 16"
    using assms by (simp_all add: IP_Mask_def CIDRMask_def Let_def)
  note size = Mask_Size_CIDRMask [of p 128]
  show ?thesis
  proof (cases "is4in6_bytes ?m")
    case True
    then have p: "96 \<le> p"
      using mapped_mask_long assms by blast
    have "bytes_val ?m = bytes_val (take 12 ?m) * 2 ^ 32 + bytes_val (drop 12 ?m)"
      using bytes_val_append [of "take 12 ?m" "drop 12 ?m"] l by simp
    moreover have "2 ^ (128 - p) dvd bytes_val ?m"
      using masked_dvd [of p x] assms by simp
    moreover have "(2 :: nat) ^ (128 - p) dvd 2 ^ 32"
      using p by (intro le_imp_power_dvd) simp
    ultimately have "2 ^ (128 - p) dvd bytes_val (drop 12 ?m)"
      by (metis dvd_add_right_iff dvd_mult)
    moreover have "8 * 4 - (p - 96) = 128 - p"
      using p by simp
    ultimately have "wf_net \<lparr>net_IP = ?m, net_Mask = CIDRMask p 128\<rparr> 4 (drop 12 ?m) (p - 96)"
      using assms p True l size drop_cidr [of 12 p 16]
      by (auto simp: wf_net_def networkNumberAndMask_def To4_def ip_norm_def CIDRMask_def Let_def
          intro!: exI [of _ 128])
    then show ?thesis
      unfolding m by blast
  next
    case False
    then have "wf_net \<lparr>net_IP = ?m, net_Mask = CIDRMask p 128\<rparr> 16 ?m p"
      using assms l size masked_dvd [of p x]
      by (auto simp: wf_net_def networkNumberAndMask_def To4_def ip_norm_def CIDRMask_def Let_def)
    then show ?thesis
      unfolding m by blast
  qed
qed

lemma ParseAddr_valid: "ParseAddr a = Some ip \<Longrightarrow> ip \<noteq> AddrInvalid"
proof -
  have "ParseAddr_at s r = Some ip \<Longrightarrow> ip \<noteq> AddrInvalid" for s r
    by (induction r) (auto simp: parseIPv4_def parseIPv6_def Let_def split: if_splits prod.splits option.splits)
  then show "ParseAddr a = Some ip \<Longrightarrow> ip \<noteq> AddrInvalid"
    by (simp add: ParseAddr_def)
qed

lemma ParseCIDR_wf:
  assumes "ParseCIDR s = Some (b, n)"
  obtains sz nn p where "wf_net n sz nn p"
proof -
  from assms obtain a m ip k where
    "cut_at (CHR ''/'') s = (a, m, True)" "ParseAddr a = Some ip" "Addr_Zone ip = []" "dtoi 0 m = Some k"
    and k: "k \<le> Addr_BitLen ip" and n: "n = \<lparr>net_IP = IP_Mask (Addr_As16 ip) (CIDRMask k (Addr_BitLen ip)),
        net_Mask = CIDRMask k (Addr_BitLen ip)\<rparr>"
    by (auto simp: ParseCIDR_def Let_def split: prod.splits option.splits if_splits)
  have ne: "ip \<noteq> AddrInvalid"
    using \<open>ParseAddr a = Some ip\<close> ParseAddr_valid by blast
  show thesis
  proof (cases ip)
    case (Addr4 w)
    then show ?thesis
      using that n k wf_net_v4 [of "bytes_of_word 4 w" k] by (auto simp: Addr_As16_def Addr_BitLen_def)
  next
    case (Addr6 w z)
    then show ?thesis
      using that n k wf_net_v6 [of "bytes_of_word 16 w" k] by (auto simp: Addr_As16_def Addr_BitLen_def)
  qed (use ne in simp)
qed

lemma Contains_iff:
  assumes "wf_net n sz nn p"
  shows "IPNet_Contains n x \<longleftrightarrow> length (ip_norm x) = sz \<and>
    bytes_val (ip_norm x) div 2 ^ (8 * sz - p) = bytes_val nn div 2 ^ (8 * sz - p)"
proof -
  have *: "networkNumberAndMask n = (nn, cidr_bytes p sz)" "length nn = sz" "p \<le> 8 * sz"
    using assms by (auto simp: wf_net_def)
  show ?thesis
    using mask_eq_iff [of nn "ip_norm x" p] * by (auto simp: IPNet_Contains_def ip_norm_def Let_def)
qed

section \<open>What Parse computes\<close>

text \<open>The facts about a successful \<open>Parse\<close> every later proof uses: the network is
  \<open>sz\<close> bytes wide, \<open>k\<close> is the number of host bits.\<close>

definition info_block :: "Info \<Rightarrow> nat \<Rightarrow> nat \<Rightarrow> bool" where
  "info_block info sz k =
     ((sz = 4 \<and> Version info = 4 \<or> sz = 16 \<and> Version info = 6) \<and> k \<le> 8 * sz \<and>
      length (Network info) = sz \<and> length (Broadcast info) = sz \<and>
      (sz = 16 \<longrightarrow> \<not> is4in6_bytes (Network info)) \<and>
      2 ^ k dvd bytes_val (Network info) \<and>
      bytes_val (Broadcast info) = bytes_val (Network info) + 2 ^ k - 1 \<and>
      (PrefixLen info = int (8 * sz) - int k \<or> sz = 4 \<and> PrefixLen info = 128 - int k) \<and>
      Total info = (if k \<ge> 63 then maxInt64 else 2 ^ k))"

lemma block_end_less:
  assumes "(2 :: nat) ^ k dvd v" "v < 2 ^ m" "k \<le> m"
  shows "v + 2 ^ k - 1 < 2 ^ m"
proof -
  obtain q where q: "v = 2 ^ k * q"
    using assms(1) by blast
  have m: "(2 :: nat) ^ m = 2 ^ k * 2 ^ (m - k)"
    using assms(3) by (simp flip: power_add)
  have "q < 2 ^ (m - k)"
    using assms(2) unfolding q m by simp
  then have "2 ^ k * (q + 1) \<le> (2 :: nat) ^ k * 2 ^ (m - k)"
    by (intro mult_le_mono2) simp
  moreover have "0 < (2 :: nat) ^ k"
    by simp
  ultimately show ?thesis
    unfolding q m distrib_left by linarith
qed

lemma To16_norm_None: "To4 ip = None \<Longrightarrow> length ip = 16 \<Longrightarrow> ip_norm ip = ip"
  by (simp add: ip_norm_def)

lemma ipToInt_norm: "length ip = 4 \<or> length ip = 16 \<Longrightarrow> ipToInt ip = int (bytes_val (ip_norm ip))"
  by (auto simp: ipToInt_def ip_norm_def To4_def To16_def)

lemma Parse_block:
  assumes "Parse cidr = Inr info"
  obtains b n sz p where "ParseCIDR (trim_space cidr) = Some (b, n)" "wf_net n sz (Network info) p"
    "info_block info sz (8 * sz - p)"
proof -
  from assms obtain b n where n: "ParseCIDR (trim_space cidr) = Some (b, n)"
    by (auto simp: Parse_def split: option.splits)
  then obtain sz nn p where wf: "wf_net n sz nn p"
    by (rule ParseCIDR_wf)
  let ?k = "8 * sz - p"
  obtain bits where bits: "Mask_Size (net_Mask n) = (bits - ?k, bits)" "bits = 8 * sz \<or> bits = 128"
    using wf by (auto simp: wf_net_def)
  have sz: "sz = 4 \<or> sz = 16" "p \<le> 8 * sz" "length nn = sz"
    "To4 (net_IP n) = (if sz = 4 then Some nn else None)" "2 ^ ?k dvd bytes_val nn"
    "sz = 16 \<longrightarrow> net_IP n = nn"
    using wf by (auto simp: wf_net_def)
  have kb: "bits - (bits - ?k) = ?k"
    using bits sz by auto
  have 6: "sz = 16 \<longrightarrow> \<not> is4in6_bytes nn"
    using sz by (auto simp: To4_def split: if_splits)
  have norm: "ipToInt nn = int (bytes_val nn)"
    using sz 6 by (auto simp: ipToInt_def To4_def To16_def is4in6_bytes_def)
  have lt: "bytes_val nn + 2 ^ ?k - 1 < 2 ^ (8 * sz)"
    using sz bytes_val_less [of nn] by (intro block_end_less) (auto simp: power_mult)
  have info: "info = \<lparr>Network = nn,
      Broadcast = intToIP (int (bytes_val nn) + 2 ^ ?k - 1) (if sz = 4 then 4 else 6),
      Mask = net_Mask n, PrefixLen = int (bits - ?k),
      Total = (if ?k \<ge> 63 then maxInt64 else 2 ^ ?k), Version = (if sz = 4 then 4 else 6)\<rparr>"
    using assms n bits(1) sz norm kb
    by (auto simp: Parse_def info_of_def To16_def split: if_splits)
  have "1 \<le> bytes_val nn + 2 ^ ?k"
    by (simp add: trans_le_add2)
  then have "int (bytes_val nn) + 2 ^ ?k - 1 = int (bytes_val nn + 2 ^ ?k - 1)"
    by (simp add: of_nat_diff)
  then have "nat \<bar>int (bytes_val nn) + 2 ^ ?k - 1\<bar> = bytes_val nn + 2 ^ ?k - 1"
    by (simp only: abs_of_nat nat_int)
  then have bc: "Broadcast info = nat_bytes sz (bytes_val nn + 2 ^ ?k - 1)"
    using sz by (auto simp: info intToIP_def)
  have "bytes_val (Broadcast info) = bytes_val nn + 2 ^ ?k - 1"
    using lt by (simp add: bc bytes_val_nat_bytes power_mult)
  then have "info_block info sz ?k"
    using sz bits 6 bc by (auto simp: info_block_def info)
  with n wf show thesis
    by (intro that) (auto simp: info)
qed

lemma range_div:
  assumes "(2 :: nat) ^ k dvd v"
  shows "x div 2 ^ k = v div 2 ^ k \<longleftrightarrow> v \<le> x \<and> x \<le> v + 2 ^ k - 1"
proof -
  obtain q where q: "v = q * 2 ^ k"
    using assms by (metis dvd_def mult.commute)
  have "q \<le> x div 2 ^ k \<longleftrightarrow> q * 2 ^ k \<le> x" "x div 2 ^ k < Suc q \<longleftrightarrow> x < Suc q * 2 ^ k"
    by (simp_all add: less_eq_div_iff_mult_less_eq div_less_iff_less_mult)
  moreover have "v div 2 ^ k = q" "0 < (2 :: nat) ^ k"
    by (simp_all add: q)
  ultimately show ?thesis
    unfolding q mult_Suc by linarith
qed

text \<open>A parsed block is exactly the addresses from its network to its broadcast address:
  an address is contained in the block if and only if it is of the block's family and lies between
  the two, and the block has \<open>2\<close> to the number of host bits of them.\<close>

theorem Parse_Contains_interval:
  assumes "Parse cidr = Inr info" and "ParseIP (trim_space s) = Some x"
  shows "Contains cidr s = Inr (length (ip_norm x) = length (Network info) \<and>
      bytes_val (Network info) \<le> bytes_val (ip_norm x) \<and>
      bytes_val (ip_norm x) \<le> bytes_val (Broadcast info)) \<and>
    (\<exists>k. bytes_val (Broadcast info) + 1 = bytes_val (Network info) + 2 ^ k \<and>
         2 ^ k dvd bytes_val (Network info) \<and> Total info = (if k \<ge> 63 then maxInt64 else 2 ^ k))"
proof -
  from assms(1) obtain b n sz p where *: "ParseCIDR (trim_space cidr) = Some (b, n)"
    "wf_net n sz (Network info) p" and i: "info_block info sz (8 * sz - p)"
    by (rule Parse_block)
  have "IPNet_Contains n x \<longleftrightarrow> length (ip_norm x) = sz \<and>
      bytes_val (Network info) \<le> bytes_val (ip_norm x) \<and>
      bytes_val (ip_norm x) \<le> bytes_val (Network info) + 2 ^ (8 * sz - p) - 1"
    using Contains_iff [OF *(2)] range_div i by (simp add: info_block_def)
  moreover have "1 \<le> (2 :: nat) ^ (8 * sz - p)"
    by simp
  ultimately show ?thesis
    using assms(2) * i by (auto simp: Contains_def info_block_def intro!: exI [of _ "8 * sz - p"])
qed

theorem Parse_Contains_interval_witness:
  "\<exists>info. Parse ''10.1.2.3/20'' = Inr info \<and> Contains ''10.1.2.3/20'' ''10.1.15.255'' =
     Inr (bytes_val (Network info) \<le> 0x0a010fff \<and> 0x0a010fff \<le> bytes_val (Broadcast info))"
proof -
  obtain info where info: "Parse ''10.1.2.3/20'' = Inr info" "length (Network info) = 4"
  proof
    show "Parse ''10.1.2.3/20'' = Inr \<lparr>Network = [10, 1, 0, 0], Broadcast = [10, 1, 15, 255],
        Mask = [255, 255, 240, 0], PrefixLen = 20, Total = 4096, Version = 4\<rparr>"
      by code_simp
  qed simp
  have x: "ParseIP (trim_space ''10.1.15.255'') = Some (v4InV6Prefix @ [10, 1, 15, 255])"
    by code_simp
  have n: "ip_norm (v4InV6Prefix @ [10, 1, 15, 255]) = [10, 1, 15, 255]"
    by code_simp
  show ?thesis
    using Parse_Contains_interval [OF info(1) x] info unfolding n by (auto intro!: exI [of _ info])
qed

section \<open>Allocation picks the least free addresses\<close>

text \<open>C26. The allocator returns the lowest address of the usable range that is neither excluded
  nor the gateway, every lower one being taken; it reports exhaustion only when every address of
  the range is taken. Being taken is a statement about addresses, not about how they are
  written.\<close>

theorem FirstFree_least:
  assumes "Parse cidr = Inr info" and "boundedRange info skipFirst skipLast = (lo, hi)"
  shows "case FirstFree cidr ex gateway skipFirst skipLast of
      Inr ip \<Rightarrow> \<exists>v. lo \<le> v \<and> v \<le> hi \<and> ip = intToIP v (Version info) \<and>
        \<not> taken ex gateway ip \<and> (\<forall>u. lo \<le> u \<and> u < v \<longrightarrow> taken ex gateway (intToIP u (Version info)))
    | Inl e \<Rightarrow> e = IpnetExhausted \<and>
        (\<forall>u. lo \<le> u \<and> u \<le> hi \<longrightarrow> taken ex gateway (intToIP u (Version info)))"
  using free_scan_spec [where blocked = "blockedSet ex gateway" and ver = "Version info" and cur = lo
      and hi = hi] assms
  by (auto simp: FirstFree_def blocked_iff_taken [OF length_intToIP] split: option.splits)

theorem FirstFree_least_witness:
  "case FirstFree ''10.0.0.0/29'' [('' 10.0.0.1'', True)] ''10.0.0.2'' 0 0 of
      Inr ip \<Rightarrow> \<exists>v. 0x0a000001 \<le> v \<and> v \<le> 0x0a000006 \<and> ip = intToIP v 4 \<and>
        \<not> taken [('' 10.0.0.1'', True)] ''10.0.0.2'' ip \<and>
        (\<forall>u. 0x0a000001 \<le> u \<and> u < v \<longrightarrow> taken [('' 10.0.0.1'', True)] ''10.0.0.2'' (intToIP u 4))
    | Inl e \<Rightarrow> False"
proof -
  let ?i = "\<lparr>Network = [10, 0, 0, 0], Broadcast = [10, 0, 0, 7], Mask = [255, 255, 255, 248],
    PrefixLen = 29, Total = 8, Version = 4\<rparr>"
  have 1: "Parse ''10.0.0.0/29'' = Inr ?i"
    by code_simp
  have 2: "boundedRange ?i 0 0 = (0x0a000001, 0x0a000006)"
    by code_simp
  have 3: "FirstFree ''10.0.0.0/29'' [('' 10.0.0.1'', True)] ''10.0.0.2'' 0 0 = Inr [10, 0, 0, 3]"
    by code_simp
  show ?thesis
    using FirstFree_least [OF 1 2, of "[('' 10.0.0.1'', True)]" "''10.0.0.2''"] unfolding 3 by simp
qed

text \<open>C30. Bulk allocation returns exactly the first \<open>n\<close> free addresses of the usable range
  in ascending order, or fails because fewer than \<open>n\<close> are free.\<close>

theorem BulkFree_first_n:
  assumes "Parse cidr = Inr info" and "boundedRange info skipFirst skipLast = (lo, hi)"
  shows "BulkFree cidr ex gateway skipFirst skipLast n =
    (let free = filter (\<lambda>ip. \<not> taken ex gateway ip) (map (\<lambda>v. intToIP v (Version info)) [lo..hi]) in
     if n \<le> int (length free) then Inr (take (nat n) free) else Inl IpnetExhausted)"
proof -
  define free where
    "free = filter (\<lambda>ip. \<not> taken ex gateway ip) (map (\<lambda>v. intToIP v (Version info)) [lo..hi])"
  have "bulk_scan (blockedSet ex gateway) (Version info) (nat n) lo hi = take (nat n) free"
    unfolding bulk_scan_spec free_def
    by (rule arg_cong [where f = "take (nat n)"], rule filter_cong)
      (auto simp: blocked_iff_taken [OF length_intToIP])
  then show ?thesis
    using assms unfolding free_def [symmetric]
    by (cases "n \<le> 0") (auto simp: BulkFree_def Let_def min_def)
qed

theorem BulkFree_first_n_witness:
  "BulkFree ''10.0.0.0/29'' [(''10.0.0.2'', True)] ''10.0.0.1'' 0 0 3 =
     (let free = filter (\<lambda>ip. \<not> taken [(''10.0.0.2'', True)] ''10.0.0.1'' ip)
          (map (\<lambda>v. intToIP v 4) [0x0a000001..0x0a000006]) in
      if 3 \<le> int (length free) then Inr (take (nat 3) free) else Inl IpnetExhausted) \<and>
   BulkFree ''10.0.0.0/29'' [(''10.0.0.2'', True)] ''10.0.0.1'' 0 0 3 =
     Inr [[10, 0, 0, 3], [10, 0, 0, 4], [10, 0, 0, 5]]"
proof -
  let ?i = "\<lparr>Network = [10, 0, 0, 0], Broadcast = [10, 0, 0, 7], Mask = [255, 255, 255, 248],
    PrefixLen = 29, Total = 8, Version = 4\<rparr>"
  have 1: "Parse ''10.0.0.0/29'' = Inr ?i"
    by code_simp
  have 2: "boundedRange ?i 0 0 = (0x0a000001, 0x0a000006)"
    by code_simp
  have 3: "BulkFree ''10.0.0.0/29'' [(''10.0.0.2'', True)] ''10.0.0.1'' 0 0 3 =
     Inr [[10, 0, 0, 3], [10, 0, 0, 4], [10, 0, 0, 5]]"
    by code_simp
  show ?thesis
    using BulkFree_first_n [OF 1 2, of "[(''10.0.0.2'', True)]" "''10.0.0.1''" 3] 3 by simp
qed

text \<open>The addresses a block written as text covers, in sixteen-byte form.\<close>

definition block_addrs :: "string \<Rightarrow> IP set" where
  "block_addrs cidr = {x. length x = 16 \<and>
     (\<exists>b n. ParseCIDR (trim_space cidr) = Some (b, n) \<and> IPNet_Contains n x)}"

definition as16 :: "IP \<Rightarrow> IP" where
  "as16 x = (case To16 x of Some y \<Rightarrow> y | None \<Rightarrow> [])"

lemma as16_props:
  assumes "length x = 4 \<or> length x = 16 \<and> \<not> is4in6_bytes x"
  shows "length (as16 x) = 16" "ip_norm (as16 x) = x"
  using assms v4_mapped_bytes [of x]
  by (auto simp: as16_def To16_def ip_norm_def To4_def v4InV6Prefix_def)

lemma block_addrs_wf:
  assumes "ParseCIDR (trim_space c) = Some (b, n)" and "wf_net n sz nn p"
  shows "x \<in> block_addrs c \<longleftrightarrow> length x = 16 \<and> length (ip_norm x) = sz \<and>
    bytes_val (ip_norm x) div 2 ^ (8 * sz - p) = bytes_val nn div 2 ^ (8 * sz - p)"
  using assms Contains_iff [OF assms(2)] by (auto simp: block_addrs_def)

lemma wf_base_mem:
  assumes "ParseCIDR (trim_space c) = Some (b, n)" and "wf_net n sz nn p"
  shows "as16 nn \<in> block_addrs c"
proof -
  have "length nn = 4 \<or> length nn = 16 \<and> \<not> is4in6_bytes nn"
    using assms(2) by (auto simp: wf_net_def To4_def split: if_splits)
  then show ?thesis
    using as16_props [of nn] block_addrs_wf [OF assms] assms(2) by (auto simp: wf_net_def)
qed

lemma wf_base_contained:
  assumes "ParseCIDR (trim_space c) = Some (b, n)" "wf_net n sz nn p"
    and "wf_net n' sz' nn' p'" "IPNet_Contains n (net_IP n')"
  shows "as16 nn' \<in> block_addrs c"
proof -
  have "length nn' = 4 \<or> length nn' = 16 \<and> \<not> is4in6_bytes nn'" "ip_norm (net_IP n') = nn'"
    using assms(3) by (auto simp: wf_net_def To4_def split: if_splits)
  then show ?thesis
    using as16_props [of nn'] block_addrs_wf [OF assms(1,2)] Contains_iff [OF assms(2)] assms(4)
    by simp
qed

lemma div_pow_mono: "(x :: nat) div 2 ^ k = y div 2 ^ k \<Longrightarrow> k \<le> m \<Longrightarrow> x div 2 ^ m = y div 2 ^ m"
  by (metis div_mult2_eq le_add_diff_inverse power_add)

lemma base_div:
  assumes "(2 :: nat) ^ k dvd v" "m \<le> k" "x div 2 ^ m = v div 2 ^ m"
  shows "x div 2 ^ k = v div 2 ^ k"
  using div_pow_mono assms by blast

text \<open>C27. Two blocks are reported as overlapping if and only if some address belongs to both.\<close>

theorem Overlaps_iff_shared:
  assumes "Overlaps a b = Inr r"
  shows "r \<longleftrightarrow> block_addrs a \<inter> block_addrs b \<noteq> {}"
proof -
  have "ParseCIDR (trim_space a) \<noteq> None" "ParseCIDR (trim_space b) \<noteq> None"
    using assms by (auto simp: Overlaps_def split: option.splits)
  then obtain x na y nb where
    a: "ParseCIDR (trim_space a) = Some (x, na)" and b: "ParseCIDR (trim_space b) = Some (y, nb)"
    by (metis not_None_eq surj_pair)
  then have r: "r \<longleftrightarrow> IPNet_Contains na (net_IP nb) \<or> IPNet_Contains nb (net_IP na)"
    using assms by (simp add: Overlaps_def)
  obtain sa ma pa where wa: "wf_net na sa ma pa"
    using ParseCIDR_wf [OF a] .
  obtain sb mb pb where wb: "wf_net nb sb mb pb"
    using ParseCIDR_wf [OF b] .
  have norm: "ip_norm (net_IP na) = ma" "length ma = sa" "ip_norm (net_IP nb) = mb" "length mb = sb"
    using wa wb by (auto simp: wf_net_def)
  note ca = Contains_iff [OF wa] and cb = Contains_iff [OF wb]
  note ba = block_addrs_wf [OF a wa] and bb = block_addrs_wf [OF b wb]
  show ?thesis
  proof
    assume r
    then consider "IPNet_Contains na (net_IP nb)" | "IPNet_Contains nb (net_IP na)"
      using r by blast
    then show "block_addrs a \<inter> block_addrs b \<noteq> {}"
    proof cases
      case 1
      then have "as16 mb \<in> block_addrs a"
        by (rule wf_base_contained [OF a wa wb])
      then show ?thesis
        using wf_base_mem [OF b wb] by blast
    next
      case 2
      then have "as16 ma \<in> block_addrs b"
        by (rule wf_base_contained [OF b wb wa])
      then show ?thesis
        using wf_base_mem [OF a wa] by blast
    qed
  next
    assume "block_addrs a \<inter> block_addrs b \<noteq> {}"
    then obtain z where "z \<in> block_addrs a" "z \<in> block_addrs b"
      by blast
    then have z: "sa = sb" "bytes_val (ip_norm z) div 2 ^ (8 * sa - pa) = bytes_val ma div 2 ^ (8 * sa - pa)"
      "bytes_val (ip_norm z) div 2 ^ (8 * sa - pb) = bytes_val mb div 2 ^ (8 * sa - pb)"
      using ba bb by auto
    show r
    proof (cases "8 * sa - pa \<le> 8 * sa - pb")
      case True
      then have "bytes_val ma div 2 ^ (8 * sa - pb) = bytes_val mb div 2 ^ (8 * sa - pb)"
        using z div_pow_mono [of "bytes_val (ip_norm z)" "8 * sa - pa" "bytes_val ma"] by simp
      then show ?thesis
        using r cb norm z by simp
    next
      case False
      then have "bytes_val mb div 2 ^ (8 * sa - pa) = bytes_val ma div 2 ^ (8 * sa - pa)"
        using z div_pow_mono [of "bytes_val (ip_norm z)" "8 * sa - pb" "bytes_val mb"] by simp
      then show ?thesis
        using r ca norm z by simp
    qed
  qed
qed

theorem Overlaps_iff_shared_witness:
  "(True \<longleftrightarrow> block_addrs ''10.0.0.0/24'' \<inter> block_addrs ''10.0.0.128/25'' \<noteq> {}) \<and>
   (False \<longleftrightarrow> block_addrs ''10.0.0.0/24'' \<inter> block_addrs ''2001:db8::/32'' \<noteq> {})"
proof -
  have 1: "Overlaps ''10.0.0.0/24'' ''10.0.0.128/25'' = Inr True"
    by code_simp
  have 2: "Overlaps ''10.0.0.0/24'' ''2001:db8::/32'' = Inr False"
    by code_simp
  show ?thesis
    using Overlaps_iff_shared [OF 1] Overlaps_iff_shared [OF 2] by blast
qed

lemma wf_norm:
  assumes "wf_net n sz nn p"
  shows "ip_norm (net_IP n) = nn" "length nn = sz"
    "length nn = 4 \<or> length nn = 16 \<and> \<not> is4in6_bytes nn"
  using assms by (auto simp: wf_net_def To4_def split: if_splits)

lemma Mask_Size_bits: "Mask_Size m = (a, b) \<Longrightarrow> b \<noteq> 0 \<Longrightarrow> b = 8 * length m"
  by (auto simp: Mask_Size_def split: option.splits)

lemma wf_net_mask:
  assumes "wf_net n sz nn p"
  obtains b where "Mask_Size (net_Mask n) = (b - (8 * sz - p), b)" "b = 8 * length (net_Mask n)"
    "8 * sz - p \<le> b"
proof -
  obtain b where b: "Mask_Size (net_Mask n) = (b - (8 * sz - p), b)" "b = 8 * sz \<or> b = 128"
    and sz: "sz = 4 \<or> sz = 16"
    using assms unfolding wf_net_def by blast
  then have "b \<noteq> 0" "8 * sz - p \<le> b"
    by auto
  with b show thesis
    using that Mask_Size_bits by blast
qed

lemma Parse_mask:
  assumes "Parse c = Inr i" "ParseCIDR (trim_space c) = Some (x, n)"
  shows "Mask i = net_Mask n" "PrefixLen i = int (fst (Mask_Size (net_Mask n)))"
  using assms by (auto simp: Parse_def info_of_def split: prod.splits option.splits)

text \<open>C31. A block lies within another if and only if their masks have the same width, its prefix
  is strictly longer and all its addresses belong to the other: testing the base address alone is
  enough.\<close>

theorem Within_iff_subset:
  assumes "Parse c = Inr ic" "Parse p = Inr ip"
  shows "Within c p \<longleftrightarrow> length (Mask ic) = length (Mask ip) \<and> PrefixLen ip < PrefixLen ic \<and>
    block_addrs c \<subseteq> block_addrs p"
proof -
  obtain x nc sc qc where c: "ParseCIDR (trim_space c) = Some (x, nc)" "wf_net nc sc (Network ic) qc"
    by (rule Parse_block [OF assms(1)])
  obtain y np sp qp where p: "ParseCIDR (trim_space p) = Some (y, np)" "wf_net np sp (Network ip) qp"
    by (rule Parse_block [OF assms(2)])
  obtain bc where bc: "Mask_Size (net_Mask nc) = (bc - (8 * sc - qc), bc)"
      "bc = 8 * length (net_Mask nc)" "8 * sc - qc \<le> bc"
    by (rule wf_net_mask [OF c(2)])
  obtain bp where bp: "Mask_Size (net_Mask np) = (bp - (8 * sp - qp), bp)"
      "bp = 8 * length (net_Mask np)" "8 * sp - qp \<le> bp"
    by (rule wf_net_mask [OF p(2)])
  have ones: "Mask ic = net_Mask nc" "Mask ip = net_Mask np"
    "PrefixLen ic = int (bc - (8 * sc - qc))" "PrefixLen ip = int (bp - (8 * sp - qp))"
    using Parse_mask [OF assms(1) c(1)] Parse_mask [OF assms(2) p(1)] bc(1) bp(1) by simp_all
  have W: "Within c p \<longleftrightarrow> bc = bp \<and> bc - (8 * sc - qc) > bp - (8 * sp - qp) \<and> IPNet_Contains np (net_IP nc)"
    using c(1) p(1) bc(1) bp(1) by (simp add: Within_def)
  have sub: "IPNet_Contains np (net_IP nc) \<longleftrightarrow> block_addrs c \<subseteq> block_addrs p"
    if "bc = bp" "bc - (8 * sc - qc) > bp - (8 * sp - qp)"
  proof
    assume "IPNet_Contains np (net_IP nc)"
    then have eq: "sc = sp" "bytes_val (Network ic) div 2 ^ (8 * sp - qp) = bytes_val (Network ip) div 2 ^ (8 * sp - qp)"
      using Contains_iff [OF p(2), of "net_IP nc"] wf_norm [OF c(2)] by simp_all
    moreover have "8 * sc - qc \<le> 8 * sp - qp"
      using that bc(3) bp(3) by linarith
    ultimately show "block_addrs c \<subseteq> block_addrs p"
      using block_addrs_wf [OF c] block_addrs_wf [OF p] div_pow_mono [of _ "8 * sc - qc"]
      by (metis subsetI)
  next
    assume "block_addrs c \<subseteq> block_addrs p"
    then have "as16 (Network ic) \<in> block_addrs p"
      using wf_base_mem [OF c] by blast
    then show "IPNet_Contains np (net_IP nc)"
      using block_addrs_wf [OF p] Contains_iff [OF p(2)] as16_props [of "Network ic"] wf_norm [OF c(2)]
      by simp
  qed
  have "bc = bp \<longleftrightarrow> length (net_Mask nc) = length (net_Mask np)"
    using bc(2) bp(2) by simp
  then show ?thesis
    unfolding W ones of_nat_less_iff using sub by blast
qed

theorem Within_iff_subset_witness:
  "Within ''10.0.0.64/26'' ''10.0.0.0/24'' \<and> block_addrs ''10.0.0.64/26'' \<subseteq> block_addrs ''10.0.0.0/24''"
proof -
  have c: "Parse ''10.0.0.64/26'' = Inr \<lparr>Network = [10, 0, 0, 64], Broadcast = [10, 0, 0, 127],
      Mask = [255, 255, 255, 192], PrefixLen = 26, Total = 64, Version = 4\<rparr>"
    by code_simp
  have p: "Parse ''10.0.0.0/24'' = Inr \<lparr>Network = [10, 0, 0, 0], Broadcast = [10, 0, 0, 255],
      Mask = [255, 255, 255, 0], PrefixLen = 24, Total = 256, Version = 4\<rparr>"
    by code_simp
  have "Within ''10.0.0.64/26'' ''10.0.0.0/24''"
    by code_simp
  then show ?thesis
    using Within_iff_subset [OF c p] by blast
qed

section \<open>Subdivision\<close>

lemma dtoi_digits: "n < 16777215 \<Longrightarrow> dtoi 0 (digits_base 10 n @ r) = dtoi n r"
proof (induction "10 :: nat" n arbitrary: r rule: digits_base.induct)
  case (1 n)
  show ?case
  proof (cases "n < 10")
    case True
    then show ?thesis
      by (simp add: digits_base_small is_digit_digit_char ord_digit_char)
  next
    case False
    then have e: "digits_base 10 n = digits_base 10 (n div 10) @ [digit_char (n mod 10)]"
      by (simp add: digits_base_big)
    have "n div 10 * 10 + n mod 10 = n"
      by simp
    then show ?thesis
      using 1 False by (simp add: e is_digit_digit_char ord_digit_char)
  qed
qed

lemma dtoi_itoa: "n < 16777215 \<Longrightarrow> dtoi 0 (itoa n) = Some n"
  using dtoi_digits [of n "[]"] by (simp add: itoa_def)

lemma itoa_graphic: "graphic (itoa n)"
  using itoa_digits digit_graphic by (auto simp: graphic_def)

lemma IP_String_no_slash: "length ip = 4 \<or> length ip = 16 \<Longrightarrow> CHR ''/'' \<notin> set (IP_String ip)"
proof (cases "To4 ip")
  case None
  assume "length ip = 4 \<or> length ip = 16"
  then have "IP_String ip = string6 (addr_word6 ip)"
    using None by (auto simp: IP_String_def)
  then show ?thesis
    using string6_chars(1) [of "CHR ''/''" "addr_word6 ip"] by auto
next
  case (Some b)
  assume l: "length ip = 4 \<or> length ip = 16"
  have "length b = 4" "IP_String ip = string4 b"
    using Some l by (auto simp: IP_String_def To4_def is4in6_bytes_def split: if_splits)
  then show ?thesis
    using string4_chars [of b "CHR ''/''"] by auto
qed

lemma masked_aligned:
  assumes "length x = sz" "p \<le> 8 * sz" "2 ^ (8 * sz - p) dvd bytes_val x"
  shows "map2 (AND) x (cidr_bytes p sz) = x"
proof -
  have "bytes_val (map2 (AND) x (cidr_bytes p sz)) = bytes_val x"
    using bytes_val_mask [of p x] assms by simp
  then show ?thesis
    using bytes_val_inj [of "map2 (AND) x (cidr_bytes p sz)" x] assms(1) by simp
qed

lemma ParseCIDR_rendered:
  assumes x: "length x = 4 \<or> length x = 16 \<and> \<not> is4in6_bytes x"
    and p: "p \<le> 8 * length x" "2 ^ (8 * length x - p) dvd bytes_val x"
  obtains b n where "ParseCIDR (trim_space (IP_String x @ ''/'' @ itoa p)) = Some (b, n)"
    "wf_net n (length x) x p"
proof -
  have g: "graphic (IP_String x @ ''/'' @ itoa p)"
    using IP_String_graphic [of x] itoa_graphic [of p] x by (auto simp: graphic_def ord_def)
  have cut: "cut_at (CHR ''/'') (IP_String x @ ''/'' @ itoa p) = (IP_String x, itoa p, True)"
    using IP_String_no_slash [of x] x by (auto simp: cut_at_append)
  have d: "dtoi 0 (itoa p) = Some p"
    using p x by (intro dtoi_itoa) auto
  from x show thesis
  proof
    assume l: "length x = 4"
    then have "ParseAddr (IP_String x) = Some (Addr4 (addr_word4 x))"
      using ParseAddr_string4 [of x] by (auto simp: IP_String_def To4_def)
    then have "ParseCIDR (trim_space (IP_String x @ ''/'' @ itoa p)) = Some (v4InV6Prefix @ x,
        \<lparr>net_IP = IP_Mask (v4InV6Prefix @ x) (CIDRMask p 32), net_Mask = CIDRMask p 32\<rparr>)"
      using cut d l p(1) unfolding trim_space_graphic [OF g] ParseCIDR_def
      by (simp add: Addr_Zone_def Addr_BitLen_def Addr_As16_def bytes_of_addr_word4 Let_def)
    then show thesis
      using that wf_net_v4 [of x p] masked_aligned [of x 4 p] l p by auto
  next
    assume l: "length x = 16 \<and> \<not> is4in6_bytes x"
    then have "ParseAddr (IP_String x) = Some (Addr6 (addr_word6 x) [])"
      using ParseAddr_string6 [of "addr_word6 x" "[]"] by (auto simp: IP_String_def To4_def zone_suffix_def)
    then have "ParseCIDR (trim_space (IP_String x @ ''/'' @ itoa p)) = Some (x,
        \<lparr>net_IP = IP_Mask x (CIDRMask p 128), net_Mask = CIDRMask p 128\<rparr>)"
      using cut d l p(1) unfolding trim_space_graphic [OF g] ParseCIDR_def
      by (simp add: Addr_Zone_def Addr_BitLen_def Addr_As16_def bytes_of_addr_word6 Let_def)
    moreover have "wf_net \<lparr>net_IP = IP_Mask x (CIDRMask p 128), net_Mask = CIDRMask p 128\<rparr> 16 x p"
      using masked_aligned [of x 16 p] l p Mask_Size_CIDRMask [of p 128]
      by (auto simp: wf_net_def IP_Mask_def networkNumberAndMask_def To4_def ip_norm_def CIDRMask_def Let_def)
    ultimately show thesis
      using that l by auto
  qed
qed

lemma is4in6_iff: "length bs = 16 \<Longrightarrow> is4in6_bytes bs \<longleftrightarrow> bytes_val bs div 2 ^ 32 = 65535"
proof
  assume l: "length bs = 16" and d: "bytes_val bs div 2 ^ 32 = 65535"
  have "bytes_val bs = bytes_val (take 12 bs) * 256 ^ 4 + bytes_val (drop 12 bs)"
    using bytes_val_append [of "take 12 bs" "drop 12 bs"] l by simp
  moreover have "bytes_val (drop 12 bs) < 256 ^ 4"
    using bytes_val_less [of "drop 12 bs"] l by simp
  ultimately have "bytes_val (take 12 bs) = bytes_val (replicate 10 0 @ [255, 255])"
    using d by (simp add: bytes_val_append)
  then show "is4in6_bytes bs"
    using bytes_val_inj [of "take 12 bs" "replicate 10 0 @ [255, 255]"] l by (simp add: is4in6_bytes_def)
qed (rule is4in6_val)

text \<open>The first IPv4-mapped address, as a number.\<close>

definition mapped_base :: nat where
  "mapped_base = 65535 * 2 ^ 32"

lemma mapped_base_val: "mapped_base = 0xffff00000000"
  by (simp add: mapped_base_def)

text \<open>An IPv6 block holds either all IPv4-mapped addresses or none, and when it holds them it has
  more than \<open>2^32\<close> addresses.\<close>

lemma block_mapped:
  assumes I: "info_block info 16 k" and w: "bytes_val (Network info) \<le> w" "w \<le> bytes_val (Broadcast info)"
    and d: "w div 2 ^ 32 = 65535"
  shows "32 < k" "bytes_val (Network info) \<le> mapped_base" "mapped_base \<le> bytes_val (Broadcast info)"
proof -
  let ?v = "bytes_val (Network info)"
  have dv: "2 ^ k dvd ?v" and nm: "\<not> is4in6_bytes (Network info)" and l: "length (Network info) = 16"
    and bc: "bytes_val (Broadcast info) = ?v + 2 ^ k - 1"
    using I by (auto simp: info_block_def)
  have "w div 2 ^ k = ?v div 2 ^ k"
    using range_div [OF dv, of w] w bc by simp
  then have "?v div 2 ^ 32 = 65535" if "k \<le> 32"
    using div_pow_mono [OF _ that] d by metis
  then show k: "32 < k"
    using is4in6_iff [OF l] nm by linarith
  have "2 ^ 32 dvd ?v"
    using dv k by (meson dvd_trans le_imp_power_dvd less_imp_le)
  then obtain q where q: "?v = 2 ^ 32 * q" ..
  have "?v div 2 ^ 32 \<le> w div 2 ^ 32"
    using w by (intro div_le_mono)
  then show "?v \<le> mapped_base"
    unfolding d q mapped_base_def by simp
  have "65535 * 2 ^ 32 \<le> w"
    using d by (metis div_times_less_eq_dividend)
  then show "mapped_base \<le> bytes_val (Broadcast info)"
    using w unfolding mapped_base_def by linarith
qed

lemma child_not_mapped:
  assumes I: "info_block info 16 k" and k': "k' \<le> k" and i: "i < 2 ^ (k - k')"
    and c: "32 < k' \<or> mapped_base < bytes_val (Network info) \<or> bytes_val (Broadcast info) < mapped_base"
  shows "(bytes_val (Network info) + 2 ^ k' * i) div 2 ^ 32 \<noteq> 65535"
proof
  let ?v = "bytes_val (Network info)" and ?w = "bytes_val (Network info) + 2 ^ k' * i"
  assume w: "?w div 2 ^ 32 = 65535"
  have dv: "2 ^ k dvd ?v" and bc: "bytes_val (Broadcast info) = ?v + 2 ^ k - 1"
    using I by (auto simp: info_block_def)
  have "2 ^ k' * Suc i \<le> 2 ^ k' * (2 :: nat) ^ (k - k')"
    using i by (intro mult_le_mono2) simp
  moreover have "2 ^ k' * (2 :: nat) ^ (k - k') = 2 ^ k" "0 < (2 :: nat) ^ k'"
    using k' by (simp_all flip: power_add)
  ultimately have le: "?w \<le> bytes_val (Broadcast info)"
    unfolding bc mult_Suc_right by linarith
  have "2 ^ k' dvd ?w"
    using dv k' by (meson dvd_add dvd_triv_left dvd_trans le_imp_power_dvd)
  moreover have "(2 :: nat) ^ 33 dvd 2 ^ k'" if "32 < k'"
    using that by (intro le_imp_power_dvd) simp
  ultimately have "2 ^ 33 dvd ?w" if "32 < k'"
    using that dvd_trans by blast
  then have "even (?w div 2 ^ 32)" if "32 < k'"
    using that by (auto elim!: dvdE)
  moreover have "odd (65535 :: nat)"
    by simp
  ultimately show False
    using block_mapped(2,3) [OF I le_add1 le w] w c by (metis linorder_not_less)
qed

text \<open>The \<open>i\<close>-th child of a block with base \<open>v\<close>.\<close>

lemma child_block:
  assumes sz: "sz = 4 \<or> sz = 16 \<and> (v + 2 ^ k' * i) div 2 ^ 32 \<noteq> 65535" and k: "k' \<le> k" "k \<le> 8 * sz" "2 ^ k dvd v"
    and v: "v < 2 ^ (8 * sz)" and i: "i < 2 ^ (k - k')"
  shows "x \<in> block_addrs (IP_String (intToIP (int v + 2 ^ k' * int i) (if sz = 4 then 4 else 6)) @ ''/'' @
      itoa (8 * sz - k')) \<longleftrightarrow>
    length x = 16 \<and> length (ip_norm x) = sz \<and> bytes_val (ip_norm x) div 2 ^ k' = v div 2 ^ k' + i"
proof -
  let ?w = "v + 2 ^ k' * i"
  have "2 ^ k' * i + 2 ^ k' \<le> (2 :: nat) ^ k"
  proof -
    have "2 ^ k' * Suc i \<le> 2 ^ k' * (2 :: nat) ^ (k - k')"
      using i by (intro mult_le_mono2) simp
    then show ?thesis
      using k by (simp add: algebra_simps flip: power_add)
  qed
  moreover have "v + 2 ^ k - 1 < 2 ^ (8 * sz)"
    by (rule block_end_less) (use k v in auto)
  moreover have "0 < (2 :: nat) ^ k'"
    by simp
  ultimately have w: "?w < 2 ^ (8 * sz)"
    by linarith
  have "int v + 2 ^ k' * int i = int ?w"
    by simp
  then have ip: "intToIP (int v + 2 ^ k' * int i) (if sz = 4 then 4 else 6) = nat_bytes sz ?w"
    using sz unfolding intToIP_def by (simp only: abs_of_nat nat_int) auto
  have val: "bytes_val (nat_bytes sz ?w) = ?w"
    using w by (simp add: bytes_val_nat_bytes power_mult)
  have "\<not> is4in6_bytes (nat_bytes sz ?w)" if "sz = 16"
  proof
    assume "is4in6_bytes (nat_bytes sz ?w)"
    then show False
      using is4in6_val [of "nat_bytes sz ?w"] sz that unfolding val by simp
  qed
  moreover have d: "2 ^ k' dvd ?w"
    using k by (meson dvd_add dvd_triv_left dvd_trans le_imp_power_dvd)
  moreover have k8: "8 * sz - (8 * sz - k') = k'"
    using k by simp
  ultimately obtain b n where n: "ParseCIDR (trim_space (IP_String (nat_bytes sz ?w) @ ''/'' @ itoa (8 * sz - k'))) = Some (b, n)"
    "wf_net n sz (nat_bytes sz ?w) (8 * sz - k')"
    using ParseCIDR_rendered [of "nat_bytes sz ?w" "8 * sz - k'"] sz val by auto
  have "?w div 2 ^ k' = v div 2 ^ k' + i"
    by simp
  then show ?thesis
    unfolding ip using block_addrs_wf [OF n] by (simp only: val k8)
qed

text \<open>C28. Subdividing a block into a longer prefix gives two to the number of extra bits child
  blocks, which are pairwise disjoint and together cover exactly the parent. The one exception is an
  IPv6 parent that contains the IPv4-mapped addresses (from \<open>::ffff:0:0\<close>) cut into children of
  96 bits or more.\<close>

theorem Subdivide_partition:
  assumes "Subdivide cidr prefixLen = Inr bs" and "Parse cidr = Inr info"
    and "Version info = 4 \<or> prefixLen < 96 \<or>
      mapped_base < bytes_val (Network info) \<or> bytes_val (Broadcast info) < mapped_base"
  shows "length bs = 2 ^ nat (prefixLen - PrefixLen info) \<and>
    (\<Union>c \<in> set bs. block_addrs c) = block_addrs cidr \<and>
    (\<forall>i < length bs. \<forall>j < length bs. i \<noteq> j \<longrightarrow> block_addrs (bs ! i) \<inter> block_addrs (bs ! j) = {})"
proof -
  obtain b n sz p where P: "ParseCIDR (trim_space cidr) = Some (b, n)" "wf_net n sz (Network info) p"
    and I: "info_block info sz (8 * sz - p)"
    by (rule Parse_block [OF assms(2)])
  define k v k' where "k = 8 * sz - p" and "v = bytes_val (Network info)" and "k' = 8 * sz - nat prefixLen"
  have sz: "sz = 4 \<and> Version info = 4 \<or> sz = 16 \<and> Version info = 6"
    and k8: "k \<le> 8 * sz" and dv: "2 ^ k dvd v" and v: "v < 2 ^ (8 * sz)"
    using I bytes_val_less [of "Network info"] by (auto simp: info_block_def k_def v_def power_mult)
  have bounds: "PrefixLen info < prefixLen" "prefixLen \<le> int (8 * sz)"
    using assms(1,2) sz by (auto simp: Subdivide_def Let_def split: if_splits)
  have PL: "PrefixLen info = int (8 * sz) - int k"
    using I bounds k8 by (auto simp: info_block_def k_def)
  have k': "k' \<le> k" "nat prefixLen = 8 * sz - k'" "0 \<le> prefixLen" "nat (prefixLen - PrefixLen info) = k - k'"
    "nat (int (8 * sz) - prefixLen) = k'"
    using bounds PL k8 by (auto simp: k'_def)
  have base: "ipToInt (Network info) = int v"
    using I by (auto simp: info_block_def ipToInt_def To4_def To16_def v_def is4in6_bytes_def)
  define child where "child i = IP_String (intToIP (int v + 2 ^ k' * int i) (if sz = 4 then 4 else 6)) @ ''/'' @
      itoa (8 * sz - k')" for i
  have ver: "Version info = (if sz = 4 then 4 else 6)"
    using sz by auto
  have itoa: "itoa_int prefixLen = itoa (8 * sz - k')"
    using k' by (simp add: itoa_int_def)
  have pow: "nat (2 ^ (k - k')) = 2 ^ (k - k')"
    by (simp add: nat_power_eq)
  have "bs = subdivide_loop (int v) (2 ^ nat (int (8 * sz) - prefixLen)) (Version info) prefixLen
      [0..<nat (2 ^ nat (prefixLen - PrefixLen info))]"
    using assms(1,2) sz base by (auto simp: Subdivide_def Let_def split: if_splits)
  then have bs: "bs = map child [0..<2 ^ (k - k')]"
    unfolding child_def k'(4,5) subdivide_loop_map itoa pow ver .
  have szw: "sz = 4 \<or> sz = 16 \<and> (v + 2 ^ k' * i) div 2 ^ 32 \<noteq> 65535" if i: "i < 2 ^ (k - k')" for i
  proof (cases "sz = 4")
    case False
    then have s16: "sz = 16" "Version info \<noteq> 4"
      using sz by auto
    have "32 < k'" if "prefixLen < 96"
      using that s16 k'(3) unfolding k'_def by linarith
    then show ?thesis
      using child_not_mapped [OF _ k'(1) i, of info] I assms(3) s16 unfolding v_def k_def by blast
  qed simp
  have mem: "x \<in> block_addrs (child i) \<longleftrightarrow> length x = 16 \<and> length (ip_norm x) = sz \<and>
      bytes_val (ip_norm x) div 2 ^ k' = v div 2 ^ k' + i" if "i < 2 ^ (k - k')" for x i
    unfolding child_def by (rule child_block [OF szw [OF that] k'(1) k8 dv v that])
  obtain q where q: "v = 2 ^ k * q"
    using dv by blast
  have e: "(2 :: nat) ^ k = 2 ^ k' * 2 ^ (k - k')"
    using k'(1) by (simp flip: power_add)
  have vd: "v div 2 ^ k' = 2 ^ (k - k') * q" "v div 2 ^ k = q"
    unfolding q by (simp_all add: e mult.assoc)
  have parent: "x \<in> block_addrs cidr \<longleftrightarrow> length x = 16 \<and> length (ip_norm x) = sz \<and>
      bytes_val (ip_norm x) div 2 ^ k' div 2 ^ (k - k') = q" for x
    using block_addrs_wf [OF P] vd(2) by (simp add: v_def k_def [symmetric] e div_mult2_eq)
  have split: "y div 2 ^ (k - k') = q \<longleftrightarrow> (\<exists>i < 2 ^ (k - k'). y = 2 ^ (k - k') * q + i)" for y :: nat
  proof
    assume "y div 2 ^ (k - k') = q"
    then show "\<exists>i < 2 ^ (k - k'). y = 2 ^ (k - k') * q + i"
      using mult_div_mod_eq [of "2 ^ (k - k')" y] by (intro exI [of _ "y mod 2 ^ (k - k')"]) simp
  qed auto
  have "(\<Union>c \<in> set bs. block_addrs c) = block_addrs cidr"
  proof (rule set_eqI)
    fix x
    have "x \<in> (\<Union>c \<in> set bs. block_addrs c) \<longleftrightarrow> (\<exists>i < 2 ^ (k - k'). x \<in> block_addrs (child i))"
      by (auto simp: bs)
    also have "\<dots> \<longleftrightarrow> x \<in> block_addrs cidr"
      unfolding parent split using mem vd by auto
    finally show "x \<in> (\<Union>c \<in> set bs. block_addrs c) \<longleftrightarrow> x \<in> block_addrs cidr" .
  qed
  moreover have "\<forall>i < length bs. \<forall>j < length bs. i \<noteq> j \<longrightarrow> block_addrs (bs ! i) \<inter> block_addrs (bs ! j) = {}"
    using mem by (auto simp: bs)
  ultimately show ?thesis
    using k' by (simp add: bs)
qed

lemma Subdivide_partition_witness:
  "(\<Union>c \<in> set [''10.0.0.0/26'', ''10.0.0.64/26'', ''10.0.0.128/26'', ''10.0.0.192/26'']. block_addrs c) =
     block_addrs ''10.0.0.0/24''"
proof -
  have s: "Subdivide ''10.0.0.0/24'' 26 =
      Inr [''10.0.0.0/26'', ''10.0.0.64/26'', ''10.0.0.128/26'', ''10.0.0.192/26'']"
    by code_simp
  have p: "Parse ''10.0.0.0/24'' = Inr \<lparr>Network = [10, 0, 0, 0], Broadcast = [10, 0, 0, 255],
      Mask = [255, 255, 255, 0], PrefixLen = 24, Total = 256, Version = 4\<rparr>"
    by code_simp
  show ?thesis
    using Subdivide_partition [OF s p] by simp
qed

section \<open>Placement\<close>

definition placed :: "Addr \<Rightarrow> Candidate \<Rightarrow> nat \<Rightarrow> bool" where
  "placed a c bits = (\<exists>p. ParsePrefix (cand_CIDR c) = Some p \<and> prefix_bits p = bits \<and>
     Prefix_Contains (Prefix_Masked p) a)"

lemma placed_fun: "placed a c m \<Longrightarrow> placed a c n \<Longrightarrow> m = n"
  by (auto simp: placed_def)

definition better :: "Candidate \<times> nat \<Rightarrow> Candidate \<times> nat \<Rightarrow> bool" where
  "better x y = (snd y < snd x \<or> snd y = snd x \<and> cand_ID (fst x) \<le> cand_ID (fst y))"

lemma better_trans: "better x y \<Longrightarrow> better y z \<Longrightarrow> better x z"
  by (auto simp: better_def)

lemma most_specific_scan_spec:
  "case most_specific_scan a best cs of
     None \<Rightarrow> best = None \<and> (\<forall>c \<in> set cs. \<forall>m. \<not> placed a c m)
   | Some (c, m) \<Rightarrow> (best = Some (c, m) \<or> c \<in> set cs \<and> placed a c m) \<and>
       (case best of None \<Rightarrow> True | Some x \<Rightarrow> better (c, m) x) \<and>
       (\<forall>d \<in> set cs. \<forall>l. placed a d l \<longrightarrow> better (c, m) (d, l))"
proof (induction cs arbitrary: best)
  case Nil
  then show ?case
    by (auto simp: better_def split: option.splits)
next
  case (Cons c cs)
  show ?case
  proof (cases "\<exists>l. placed a c l")
    case False
    then have "most_specific_scan a best (c # cs) = most_specific_scan a best cs"
      by (auto simp: placed_def split: option.splits)
    then show ?thesis
      using Cons [of best] False by (auto split: option.splits)
  next
    case True
    then obtain l where l: "placed a c l" ..
    let ?best = "case best of None \<Rightarrow> Some (c, l) | Some (b, m) \<Rightarrow>
        if l > m \<or> (l = m \<and> cand_ID c < cand_ID b) then Some (c, l) else best"
    have s: "most_specific_scan a best (c # cs) = most_specific_scan a ?best cs"
      using l by (auto simp: placed_def Let_def)
    have "\<exists>d m. ?best = Some (d, m) \<and> better (d, m) (c, l) \<and>
      (case best of None \<Rightarrow> True | Some x \<Rightarrow> better (d, m) x) \<and> (best = Some (d, m) \<or> d = c \<and> m = l)"
      by (cases best) (auto simp: better_def not_less)
    then obtain d m where best: "?best = Some (d, m)" "better (d, m) (c, l)"
      "case best of None \<Rightarrow> True | Some x \<Rightarrow> better (d, m) x" "best = Some (d, m) \<or> d = c \<and> m = l"
      by blast
    have "most_specific_scan a ?best cs \<noteq> None"
      using Cons [of ?best] best(1) by (auto split: option.splits)
    then obtain e n where e: "most_specific_scan a (Some (d, m)) cs = Some (e, n)"
      unfolding best(1) by auto
    have IH: "?best = Some (e, n) \<or> e \<in> set cs \<and> placed a e n" "better (e, n) (d, m)"
      "\<forall>d \<in> set cs. \<forall>l. placed a d l \<longrightarrow> better (e, n) (d, l)"
      using Cons [of "Some (d, m)"] unfolding best(1) e by simp_all
    have "best = Some (e, n) \<or> e \<in> set (c # cs) \<and> placed a e n"
      using IH(1) best(1,4) l by auto
    moreover have "case best of None \<Rightarrow> True | Some x \<Rightarrow> better (e, n) x"
      using IH(2) best(3) better_trans by (auto split: option.splits)
    moreover have "\<forall>d \<in> set (c # cs). \<forall>l. placed a d l \<longrightarrow> better (e, n) (d, l)"
      using IH(2,3) best(2) l placed_fun better_trans by (metis set_ConsD)
    ultimately show ?thesis
      unfolding s best(1) e by simp
  qed
qed

text \<open>C29. Placement picks, among the candidate subnets that contain the address, one with the
  longest prefix and, among those, the lowest identifier; it finds none only when no candidate
  contains the address.\<close>

theorem MostSpecific_longest_prefix:
  "case MostSpecific cands addr of
     None \<Rightarrow> \<forall>c \<in> set cands. \<forall>m. \<not> placed (Addr_WithoutZone (Addr_Unmap addr)) c m
   | Some c \<Rightarrow> c \<in> set cands \<and> (\<exists>m. placed (Addr_WithoutZone (Addr_Unmap addr)) c m \<and>
       (\<forall>d \<in> set cands. \<forall>l. placed (Addr_WithoutZone (Addr_Unmap addr)) d l \<longrightarrow>
          l < m \<or> l = m \<and> cand_ID c \<le> cand_ID d))"
proof -
  let ?a = "Addr_WithoutZone (Addr_Unmap addr)"
  show ?thesis
    using most_specific_scan_spec [where a = ?a and best = None and cs = cands]
    by (cases "most_specific_scan ?a None cands")
      (auto simp: MostSpecific_def better_def split: prod.splits)
qed

theorem MostSpecific_longest_prefix_witness:
  "MostSpecific [\<lparr>cand_ID = ''b'', cand_CIDR = ''10.0.0.0/8''\<rparr>, \<lparr>cand_ID = ''a'', cand_CIDR = ''10.1.0.0/16''\<rparr>]
     (Addr4 0x0a010203) = Some \<lparr>cand_ID = ''a'', cand_CIDR = ''10.1.0.0/16''\<rparr> \<and>
   placed (Addr4 0x0a010203) \<lparr>cand_ID = ''a'', cand_CIDR = ''10.1.0.0/16''\<rparr> 16"
proof -
  let ?c = "[\<lparr>cand_ID = ''b'', cand_CIDR = ''10.0.0.0/8''\<rparr>, \<lparr>cand_ID = ''a'', cand_CIDR = ''10.1.0.0/16''\<rparr>]"
  have m: "MostSpecific ?c (Addr4 0x0a010203) = Some \<lparr>cand_ID = ''a'', cand_CIDR = ''10.1.0.0/16''\<rparr>"
    by code_simp
  have p: "ParsePrefix ''10.1.0.0/16'' = Some (Prefix (Addr4 0x0a010000) 16)"
    by code_simp
  have u: "Addr_WithoutZone (Addr_Unmap (Addr4 0x0a010203)) = Addr4 0x0a010203"
    by code_simp
  show ?thesis
    using MostSpecific_longest_prefix [of ?c "Addr4 0x0a010203"] m p
    unfolding u by (auto simp: placed_def)
qed

section \<open>Findings\<close>

text \<open>C39. The usable range of an IPv6 block is computed with a conversion that reads an IPv4-mapped
  address as an IPv4 number. A block that starts above \<open>::\<close> and whose last address has that form
  (the blocks of 81 to 95 bits that end at \<open>::ffff:ffff:ffff\<close>) therefore has an empty range: whatever is
  excluded or skipped, both allocators report the block of at least \<open>2^33\<close> addresses as
  exhausted, even when every address of it is free.\<close>

theorem FirstFree_mapped_broadcast:
  assumes "Parse cidr = Inr info" and "Version info = 6" and "is4in6_bytes (Broadcast info)"
    and "bytes_val (Network info) \<noteq> 0"
  shows "FirstFree cidr ex gateway skipFirst skipLast = Inl IpnetExhausted \<and>
    (0 < n \<longrightarrow> BulkFree cidr ex gateway skipFirst skipLast n = Inl IpnetExhausted) \<and> 2 ^ 33 \<le> Total info"
proof -
  obtain b m sz p where "ParseCIDR (trim_space cidr) = Some (b, m)" "wf_net m sz (Network info) p"
    and I0: "info_block info sz (8 * sz - p)"
    by (rule Parse_block [OF assms(1)])
  define k where "k = 8 * sz - p"
  have I: "info_block info 16 k"
    using I0 assms(2) by (auto simp: info_block_def k_def)
  let ?v = "bytes_val (Network info)" and ?b = "bytes_val (Broadcast info)"
  have l: "length (Broadcast info) = 16" "length (Network info) = 16" and nm: "\<not> is4in6_bytes (Network info)"
    and bc: "?b = ?v + 2 ^ k - 1" and dv: "2 ^ k dvd ?v" and T: "Total info = (if k \<ge> 63 then maxInt64 else 2 ^ k)"
    using I by (auto simp: info_block_def)
  have vb: "?v \<le> ?b"
    using bc one_le_power [of "2 :: nat" k] by linarith
  note k = block_mapped(1) [OF I vb order_refl is4in6_val [OF assms(3)]]
  have v: "2 ^ 32 \<le> ?v"
    using dv k assms(4) by (meson dvd_imp_le dvd_trans gr0I le_imp_power_dvd less_imp_le)
  have lo: "ipToInt (Network info) = int ?v"
    using nm l by (simp add: ipToInt_def To4_def To16_def)
  have "ipToInt (Broadcast info) = int (bytes_val (drop 12 (Broadcast info)))"
    using assms(3) l by (simp add: ipToInt_def To4_def)
  moreover have "bytes_val (drop 12 (Broadcast info)) < 2 ^ 32"
    using bytes_val_less [of "drop 12 (Broadcast info)"] l by simp
  ultimately have "ipToInt (Broadcast info) < ipToInt (Network info)"
    using lo v by linarith
  moreover obtain lo hi where r: "boundedRange info skipFirst skipLast = (lo, hi)"
    by fastforce
  ultimately have lt: "hi < lo"
    using assms(2) by (auto simp: boundedRange_def hostRange_def Let_def split: if_splits)
  have "free_scan B 6 lo hi = None" "bulk_scan B 6 c lo hi = []" for B c
    using lt by (simp_all add: free_scan.simps [of _ _ lo] bulk_scan.simps [of _ _ _ lo])
  moreover have "2 ^ 33 \<le> Total info"
  proof (cases "63 \<le> k")
    case False
    have "(2 :: int) ^ 33 \<le> 2 ^ k"
      using k by (intro power_increasing) auto
    then show ?thesis
      using T False by simp
  qed (simp add: T maxInt64_def)
  ultimately show ?thesis
    using assms(1,2) r by (simp add: FirstFree_def BulkFree_def)
qed

theorem FirstFree_mapped_broadcast_witness:
  "FirstFree ''::fffe:0:0/95'' [] ''::fffe:0:1'' 1 2 = Inl IpnetExhausted \<and>
   map_sum id Total (Parse ''::fffe:0:0/95'') = Inr (2 ^ 33)"
proof -
  have T: "map_sum id Total (Parse ''::fffe:0:0/95'') = Inr (2 ^ 33)"
    "map_sum id (\<lambda>i. Version i = 6 \<and> is4in6_bytes (Broadcast i) \<and> bytes_val (Network i) \<noteq> 0) (Parse ''::fffe:0:0/95'') = Inr True"
    by code_simp+
  then obtain info where i: "Parse ''::fffe:0:0/95'' = Inr info"
    by (cases "Parse ''::fffe:0:0/95''") auto
  show ?thesis
    using FirstFree_mapped_broadcast [OF i] T i by simp
qed

text \<open>C40. The exception of the partition: when an IPv6 block that contains the IPv4-mapped
  addresses is cut into children of 96 bits or more, the child that starts at \<open>::ffff:0:0\<close> is
  written with the dotted text of that address, and the result is no block that can be parsed.\<close>

theorem Subdivide_mapped_child:
  assumes "Subdivide cidr prefixLen = Inr bs" and "Parse cidr = Inr info" and "Version info = 6"
    and "96 \<le> prefixLen" and "bytes_val (Network info) \<le> mapped_base"
    and "mapped_base \<le> bytes_val (Broadcast info)"
  shows "\<exists>c \<in> set bs. c = ''0.0.0.0/'' @ itoa_int prefixLen \<and> Parse c = Inl IpnetParse"
proof -
  obtain b n sz p where "ParseCIDR (trim_space cidr) = Some (b, n)" "wf_net n sz (Network info) p"
    and I0: "info_block info sz (8 * sz - p)"
    by (rule Parse_block [OF assms(2)])
  define k v k' where "k = 8 * sz - p" and "v = bytes_val (Network info)" and "k' = 128 - nat prefixLen"
  have I: "info_block info 16 k"
    using I0 assms(3) by (auto simp: info_block_def k_def)
  then have dv: "2 ^ k dvd v" and bc: "bytes_val (Broadcast info) = v + 2 ^ k - 1" and k8: "k \<le> 128"
    and PL: "PrefixLen info = 128 - int k"
    and base: "ipToInt (Network info) = int v"
    by (auto simp: info_block_def v_def ipToInt_def To4_def To16_def)
  have bounds: "PrefixLen info < prefixLen" "prefixLen \<le> 128"
    using assms(1,2,3) by (auto simp: Subdivide_def Let_def split: if_splits)
  have k': "k' \<le> k" "nat (prefixLen - PrefixLen info) = k - k'" "nat (128 - prefixLen) = k'" "k' \<le> 32"
    using bounds PL k8 assms(4) unfolding k'_def by linarith+
  have pow: "nat (2 ^ (k - k')) = 2 ^ (k - k')"
    by (simp add: nat_power_eq)
  have bs: "bs = map (\<lambda>i. IP_String (intToIP (int v + 2 ^ k' * int i) 6) @ ''/'' @ itoa_int prefixLen) [0..<2 ^ (k - k')]"
  proof -
    have "bs = subdivide_loop (int v) (2 ^ nat (128 - prefixLen)) 6 prefixLen
        [0..<nat (2 ^ nat (prefixLen - PrefixLen info))]"
      using assms(1,2,3) base by (auto simp: Subdivide_def Let_def split: if_splits)
    then show ?thesis
      unfolding k'(2,3) subdivide_loop_map pow .
  qed
  have le: "v \<le> mapped_base" "mapped_base \<le> v + 2 ^ k - 1"
    using assms(5,6) bc v_def by simp_all
  have "2 ^ k' dvd v"
    using dv k'(1) by (meson dvd_trans le_imp_power_dvd)
  moreover have "2 ^ k' dvd mapped_base"
    using k'(4) unfolding mapped_base_def by (intro dvd_mult le_imp_power_dvd)
  ultimately obtain i where i: "mapped_base - v = 2 ^ k' * i"
    using dvd_diff_nat by blast
  have "2 ^ k' * i < 2 ^ k' * 2 ^ (k - k')"
  proof -
    have "2 ^ k' * (2 :: nat) ^ (k - k') = 2 ^ k"
      using k'(1) by (simp flip: power_add)
    then show ?thesis
      using le one_le_power [of "2 :: nat" k] i by linarith
  qed
  then have "i < 2 ^ (k - k')"
    by simp
  moreover have "int v + 2 ^ k' * int i = int mapped_base"
    using i le(1) by (metis le_add_diff_inverse of_nat_add of_nat_mult of_nat_numeral of_nat_power)
  moreover have "IP_String (intToIP (int mapped_base) 6) = ''0.0.0.0''"
    by code_simp
  ultimately have mem: "''0.0.0.0/'' @ itoa_int prefixLen \<in> set bs"
    unfolding bs by (auto intro!: image_eqI [of _ _ i])
  have all: "\<forall>q \<in> set [96..128]. Parse (''0.0.0.0/'' @ itoa_int q) = Inl IpnetParse"
    by code_simp
  have "prefixLen \<in> set [96..128]"
    using assms(4) bounds unfolding set_upto by simp
  with all have "Parse (''0.0.0.0/'' @ itoa_int prefixLen) = Inl IpnetParse" ..
  then show ?thesis
    using mem by blast
qed

theorem Subdivide_mapped_child_witness:
  "Subdivide ''::fffe:0:0/95'' 96 = Inr [''::fffe:0:0/96'', ''0.0.0.0/96''] \<and> Parse ''0.0.0.0/96'' = Inl IpnetParse"
proof -
  have s: "Subdivide ''::fffe:0:0/95'' 96 = Inr [''::fffe:0:0/96'', ''0.0.0.0/96'']"
    by code_simp
  have i: "map_sum id (\<lambda>i. Version i = 6 \<and> bytes_val (Network i) \<le> mapped_base \<and> mapped_base \<le> bytes_val (Broadcast i))
      (Parse ''::fffe:0:0/95'') = Inr True" "itoa_int 96 = ''96''"
    by code_simp+
  then obtain info where info: "Parse ''::fffe:0:0/95'' = Inr info"
    by (cases "Parse ''::fffe:0:0/95''") auto
  show ?thesis
    using Subdivide_mapped_child [OF s info] s info i by auto
qed

text \<open>Range membership compares raw integers and so mixes address families: an IPv6 range
  contains the IPv4 addresses with the same numbers.\<close>

theorem InRange_mixes_families:
  "InRange ''::1-::ffff'' ''0.0.0.5'' \<and> InRange ''::a00:1'' ''10.0.0.1''"
  by code_simp

end
