(* ===== verification/Authz.thy ===== *)
theory Authz
  imports Prelude
begin

text \<open>
  \<open>internal/authz\<close>: the access model. A caller is a tenant, an identity, the roles the gateway
  resolved and an actor kind; the checks are pure functions of it. The lemmas state tenant
  isolation and which callers pass the privileged gates.
\<close>

abbreviation ActorUser :: string where
  "ActorUser \<equiv> ''user''"

abbreviation ActorService :: string where
  "ActorService \<equiv> ''service''"

abbreviation ActorSystem :: string where
  "ActorSystem \<equiv> ''system''"

record Subjects =
  su_TenantID :: string
  su_UserID :: string
  su_Roles :: "string list"
  su_ActorKind :: string

definition hasRole :: "Subjects \<Rightarrow> string \<Rightarrow> bool" where
  "hasRole s role = list_ex (\<lambda>r. r = role) (su_Roles s)"

definition IsAdmin :: "Subjects \<Rightarrow> bool" where
  "IsAdmin s = (su_ActorKind s = ActorSystem \<or> hasRole s ''admin'' \<or> hasRole s ''owner'')"

definition IsPlatformAdmin :: "Subjects \<Rightarrow> bool" where
  "IsPlatformAdmin s = (su_ActorKind s = ActorSystem \<or>
     hasRole s ''platform-admin'' \<or> hasRole s ''admin'' \<or> hasRole s ''owner'')"

definition ActorID :: "Subjects \<Rightarrow> string" where
  "ActorID s = (if su_UserID s \<noteq> [] then su_UserID s else su_ActorKind s)"

definition RequireAdmin :: "Subjects \<Rightarrow> unit res" where
  "RequireAdmin s = (if IsAdmin s then Inr () else Inl (ErrForbidden ''admin required''))"

definition RequirePlatformAdmin :: "Subjects \<Rightarrow> unit res" where
  "RequirePlatformAdmin s =
     (if IsPlatformAdmin s then Inr () else Inl (ErrForbidden ''platform-admin required''))"

definition RequireTenant :: "Subjects \<Rightarrow> string \<Rightarrow> unit res" where
  "RequireTenant s tenantID =
     (if tenantID = [] then Inl (ErrForbidden ''tenant required'')
      else if su_TenantID s = tenantID then Inr ()
      else if su_ActorKind s = ActorSystem then Inr ()
      else Inl (ErrForbidden ''tenant mismatch''))"

section \<open>Properties\<close>

lemma RequireTenant_Inr [simp]: "RequireTenant s t = Inr u \<longleftrightarrow>
    t \<noteq> [] \<and> (su_TenantID s = t \<or> su_ActorKind s = ActorSystem)"
  by (auto simp: RequireTenant_def)

lemma RequireAdmin_Inr [simp]: "RequireAdmin s = Inr u \<longleftrightarrow> IsAdmin s"
  by (auto simp: RequireAdmin_def)

end
