(* ===== verification/Models.thy ===== *)
theory Models
  imports Netip
begin

text \<open>
  \<open>internal/store\<close>: the domain types (\<open>models.go\<close>) and the identifier
  generator (\<open>ids.go\<close>). Each Go struct is a \<open>record\<close> whose fields carry a
  prefix naming the struct (\<open>sn_\<close> subnets, \<open>ip_\<close> addresses, \<open>dv_\<close>
  devices, ...); \<open>X0\<close> is the Go zero value of struct \<open>X\<close>. The floating-point
  \<open>Utilization\<close> of a subnet is left out: it is a percentage computed for display from the
  two counters that are modelled. A \<open>float64\<close> that is only stored (a coordinate) is its bit
  pattern; the tags of a device are an option, since the scan
  merge tells an absent map from an empty one; a \<open>map[string]any\<close> of audit details holds \<open>any\<close> values:
  texts, numbers, booleans, \<open>[]any\<close> and \<open>map[string]any\<close>, and two typed slices a
  caller can put there, \<open>[]string\<close> (\<open>AnyStrs\<close>) and \<open>[]map[string]any\<close> (\<open>AnyMaps\<close>).
\<close>

type_synonym float64 = "64 word"

datatype any = AnyNil | AnyStr string | AnyInt int | AnyBool bool | AnyStrs "string list"
  | AnyList "any list" | AnyMap "(string \<times> any) list" | AnyMaps "(string \<times> any) list list"

section \<open>Enumerations (stored as text)\<close>

abbreviation SubnetActive :: string where
  "SubnetActive \<equiv> ''active''"

abbreviation SubnetReserved :: string where
  "SubnetReserved \<equiv> ''reserved''"

abbreviation SubnetDeprecated :: string where
  "SubnetDeprecated \<equiv> ''deprecated''"

abbreviation SubnetDeleted :: string where
  "SubnetDeleted \<equiv> ''deleted''"

abbreviation IPActive :: string where
  "IPActive \<equiv> ''active''"

abbreviation IPReserved :: string where
  "IPReserved \<equiv> ''reserved''"

abbreviation IPDHCP :: string where
  "IPDHCP \<equiv> ''dhcp''"

abbreviation IPDeprecated :: string where
  "IPDeprecated \<equiv> ''deprecated''"

abbreviation IPOffline :: string where
  "IPOffline \<equiv> ''offline''"

abbreviation AddrHost :: string where
  "AddrHost \<equiv> ''host''"

abbreviation DevRouter :: string where
  "DevRouter \<equiv> ''router''"

abbreviation DevSwitch :: string where
  "DevSwitch \<equiv> ''switch''"

abbreviation DevFirewall :: string where
  "DevFirewall \<equiv> ''firewall''"

abbreviation DevLoadBalancer :: string where
  "DevLoadBalancer \<equiv> ''load_balancer''"

abbreviation DevServer :: string where
  "DevServer \<equiv> ''server''"

abbreviation DevOther :: string where
  "DevOther \<equiv> ''other''"

abbreviation VlanActive :: string where
  "VlanActive \<equiv> ''active''"

abbreviation LocStActive :: string where
  "LocStActive \<equiv> ''active''"

abbreviation MemberAddress :: string where
  "MemberAddress \<equiv> ''address''"

abbreviation MemberRange :: string where
  "MemberRange \<equiv> ''range''"

abbreviation MemberSubnet :: string where
  "MemberSubnet \<equiv> ''subnet''"

abbreviation GroupActive :: string where
  "GroupActive \<equiv> ''active''"

abbreviation GroupInactive :: string where
  "GroupInactive \<equiv> ''inactive''"

abbreviation ScanPending :: string where
  "ScanPending \<equiv> ''pending''"

abbreviation ScanScanning :: string where
  "ScanScanning \<equiv> ''scanning''"

abbreviation ScanCompleted :: string where
  "ScanCompleted \<equiv> ''completed''"

abbreviation ScanFailed :: string where
  "ScanFailed \<equiv> ''failed''"

abbreviation ScanCancelled :: string where
  "ScanCancelled \<equiv> ''cancelled''"

abbreviation TriggerAuto :: string where
  "TriggerAuto \<equiv> ''auto''"

abbreviation TriggerManual :: string where
  "TriggerManual \<equiv> ''manual''"

abbreviation LinkSNMPFDB :: string where
  "LinkSNMPFDB \<equiv> ''snmp_fdb''"

abbreviation LinkLLDP :: string where
  "LinkLLDP \<equiv> ''lldp''"

abbreviation LinkManual :: string where
  "LinkManual \<equiv> ''manual''"

abbreviation SrcManual :: string where
  "SrcManual \<equiv> ''manual''"

abbreviation SrcScan :: string where
  "SrcScan \<equiv> ''scan''"

abbreviation SrcHostReport :: string where
  "SrcHostReport \<equiv> ''host_report''"

abbreviation RepReported :: string where
  "RepReported \<equiv> ''reported''"

abbreviation RepNotReported :: string where
  "RepNotReported \<equiv> ''not_reported''"

abbreviation OriginManual :: string where
  "OriginManual \<equiv> ''manual''"

abbreviation OriginHostSync :: string where
  "OriginHostSync \<equiv> ''host_sync''"

abbreviation OriginARP :: string where
  "OriginARP \<equiv> ''arp''"

abbreviation SNMPStateNone :: string where
  "SNMPStateNone \<equiv> ''none''"

abbreviation SNMPStateOwn :: string where
  "SNMPStateOwn \<equiv> ''own''"

abbreviation SNMPStateInherited :: string where
  "SNMPStateInherited \<equiv> ''inherited''"

abbreviation SNMPNotRequested :: string where
  "SNMPNotRequested \<equiv> ''not_requested''"

abbreviation SNMPNoLiveHosts :: string where
  "SNMPNoLiveHosts \<equiv> ''no_live_hosts''"

abbreviation SNMPNoCredentials :: string where
  "SNMPNoCredentials \<equiv> ''no_credentials''"

abbreviation SNMPUnreadable :: string where
  "SNMPUnreadable \<equiv> ''credentials_unreadable''"

abbreviation SNMPRan :: string where
  "SNMPRan \<equiv> ''ran''"

abbreviation HostKindInterface :: string where
  "HostKindInterface \<equiv> ''interface''"

abbreviation HostKindAddress :: string where
  "HostKindAddress \<equiv> ''address''"

abbreviation MACSourceManual :: string where
  "MACSourceManual \<equiv> ''manual''"

abbreviation MACSourceAgent :: string where
  "MACSourceAgent \<equiv> ''agent''"

abbreviation MACSourceARP :: string where
  "MACSourceARP \<equiv> ''arp''"

abbreviation ARPFill :: string where
  "ARPFill \<equiv> ''fill''"

abbreviation ARPUpdate :: string where
  "ARPUpdate \<equiv> ''update''"

abbreviation ARPConflict :: string where
  "ARPConflict \<equiv> ''conflict''"

abbreviation ARPClearConflict :: string where
  "ARPClearConflict \<equiv> ''clear_conflict''"

abbreviation ARPCreate :: string where
  "ARPCreate \<equiv> ''create''"

abbreviation ARPTouch :: string where
  "ARPTouch \<equiv> ''touch''"

abbreviation ARPIgnoredInvalid :: string where
  "ARPIgnoredInvalid \<equiv> ''invalid''"

abbreviation ARPIgnoredMulticast :: string where
  "ARPIgnoredMulticast \<equiv> ''multicast''"

abbreviation ARPIgnoredVirtualRouter :: string where
  "ARPIgnoredVirtualRouter \<equiv> ''virtual_router''"

abbreviation ARPIgnoredNetworkDevice :: string where
  "ARPIgnoredNetworkDevice \<equiv> ''network_device''"

abbreviation ARPIgnoredProxy :: string where
  "ARPIgnoredProxy \<equiv> ''proxy_arp''"

abbreviation ARPIgnoredOutside :: string where
  "ARPIgnoredOutside \<equiv> ''outside_subnets''"

abbreviation ARPIgnoredExcluded :: string where
  "ARPIgnoredExcluded \<equiv> ''excluded_device''"

abbreviation ARPRan :: string where
  "ARPRan \<equiv> ''ran''"

abbreviation ARPDisabled :: string where
  "ARPDisabled \<equiv> ''disabled''"

abbreviation ARPFailed :: string where
  "ARPFailed \<equiv> ''failed''"

abbreviation AddrGateway :: string where
  "AddrGateway \<equiv> ''gateway''"

abbreviation AddrBroadcast :: string where
  "AddrBroadcast \<equiv> ''broadcast''"

abbreviation AddrNetwork :: string where
  "AddrNetwork \<equiv> ''network''"

abbreviation AddrVirtual :: string where
  "AddrVirtual \<equiv> ''virtual''"

abbreviation AddrAnycast :: string where
  "AddrAnycast \<equiv> ''anycast''"

abbreviation DevVM :: string where
  "DevVM \<equiv> ''vm''"

abbreviation DevAccessPoint :: string where
  "DevAccessPoint \<equiv> ''access_point''"

abbreviation DevStorage :: string where
  "DevStorage \<equiv> ''storage''"

abbreviation DevPrinter :: string where
  "DevPrinter \<equiv> ''printer''"

abbreviation DevPhone :: string where
  "DevPhone \<equiv> ''phone''"

abbreviation DevWorkstation :: string where
  "DevWorkstation \<equiv> ''workstation''"

abbreviation DevContainer :: string where
  "DevContainer \<equiv> ''container''"

abbreviation DevStActive :: string where
  "DevStActive \<equiv> ''active''"

abbreviation DevStPlanned :: string where
  "DevStPlanned \<equiv> ''planned''"

abbreviation DevStStaged :: string where
  "DevStStaged \<equiv> ''staged''"

abbreviation DevStDecommissioned :: string where
  "DevStDecommissioned \<equiv> ''decommissioned''"

abbreviation DevStOffline :: string where
  "DevStOffline \<equiv> ''offline''"

abbreviation DevStFailed :: string where
  "DevStFailed \<equiv> ''failed''"

abbreviation DevStAvailable :: string where
  "DevStAvailable \<equiv> ''available''"

abbreviation VlanReserved :: string where
  "VlanReserved \<equiv> ''reserved''"

abbreviation VlanDeprecated :: string where
  "VlanDeprecated \<equiv> ''deprecated''"

abbreviation LocRegion :: string where
  "LocRegion \<equiv> ''region''"

abbreviation LocCountry :: string where
  "LocCountry \<equiv> ''country''"

abbreviation LocCity :: string where
  "LocCity \<equiv> ''city''"

abbreviation LocDatacenter :: string where
  "LocDatacenter \<equiv> ''datacenter''"

abbreviation LocBuilding :: string where
  "LocBuilding \<equiv> ''building''"

abbreviation LocFloor :: string where
  "LocFloor \<equiv> ''floor''"

abbreviation LocRoom :: string where
  "LocRoom \<equiv> ''room''"

abbreviation LocRack :: string where
  "LocRack \<equiv> ''rack''"

abbreviation LocSite :: string where
  "LocSite \<equiv> ''site''"

abbreviation LocBranch :: string where
  "LocBranch \<equiv> ''branch''"

abbreviation LocStPlanned :: string where
  "LocStPlanned \<equiv> ''planned''"

abbreviation LocStDecommissioned :: string where
  "LocStDecommissioned \<equiv> ''decommissioned''"

abbreviation PowerOn :: string where
  "PowerOn \<equiv> ''on''"

abbreviation PowerOff :: string where
  "PowerOff \<equiv> ''off''"

abbreviation PowerCycle :: string where
  "PowerCycle \<equiv> ''cycle''"

abbreviation PowerReset :: string where
  "PowerReset \<equiv> ''reset''"

abbreviation PowerSoft :: string where
  "PowerSoft \<equiv> ''soft''"

abbreviation PowerDiag :: string where
  "PowerDiag \<equiv> ''diag''"

abbreviation UpdUnknown :: string where
  "UpdUnknown \<equiv> ''unknown''"

abbreviation UpdUpToDate :: string where
  "UpdUpToDate \<equiv> ''up_to_date''"

abbreviation UpdAvailable :: string where
  "UpdAvailable \<equiv> ''updates_available''"

abbreviation UpdUnsupported :: string where
  "UpdUnsupported \<equiv> ''unsupported''"

abbreviation UpdError :: string where
  "UpdError \<equiv> ''error''"

abbreviation DevInterfaceKindManagement :: string where
  "DevInterfaceKindManagement \<equiv> ''management''"

abbreviation HostSyncOK :: string where
  "HostSyncOK \<equiv> ''ok''"

abbreviation HostSyncDegraded :: string where
  "HostSyncDegraded \<equiv> ''degraded''"

abbreviation HostSyncDisabled :: string where
  "HostSyncDisabled \<equiv> ''disabled''"

abbreviation GuestVM :: string where
  "GuestVM \<equiv> ''vm''"

abbreviation GuestContainer :: string where
  "GuestContainer \<equiv> ''container''"

section \<open>Networks and addresses\<close>

record SNMPSummary =
  sum_State :: string
  sum_Version :: int
  sum_SecurityLevel :: string
  sum_Weak :: bool
  sum_SourceSubnetID :: string
  sum_SourceName :: string
  sum_SourceCIDR :: string

definition SNMPSummary0 :: SNMPSummary where
  "SNMPSummary0 =
    \<lparr>sum_State = [], sum_Version = 0, sum_SecurityLevel = [], sum_Weak = False,
      sum_SourceSubnetID = [], sum_SourceName = [], sum_SourceCIDR = []\<rparr>"

record Subnet =
  sn_ID :: string
  sn_TenantID :: string
  sn_Name :: string
  sn_CIDR :: string
  sn_Description :: string
  sn_Gateway :: string
  sn_DNSServers :: string
  sn_VlanID :: string
  sn_ParentID :: string
  sn_LocationID :: string
  sn_Status :: string
  sn_IPVersion :: int
  sn_NetworkAddress :: string
  sn_BroadcastAddr :: string
  sn_Mask :: string
  sn_PrefixLength :: int
  sn_SNMPSecretRef :: string
  sn_SNMPVersion :: int
  sn_Tags :: "string tbl"
  sn_CreatedBy :: string
  sn_CreatedAt :: time
  sn_UpdatedAt :: time
  sn_Origin :: string
  sn_TotalAddresses :: int
  sn_UsedAddresses :: int
  sn_AvailableAddresses :: int
  sn_SNMP :: "SNMPSummary option"

definition Subnet0 :: Subnet where
  "Subnet0 =
    \<lparr>sn_ID = [], sn_TenantID = [], sn_Name = [], sn_CIDR = [], sn_Description = [],
      sn_Gateway = [], sn_DNSServers = [], sn_VlanID = [], sn_ParentID = [],
      sn_LocationID = [], sn_Status = [], sn_IPVersion = 0, sn_NetworkAddress = [],
      sn_BroadcastAddr = [], sn_Mask = [], sn_PrefixLength = 0, sn_SNMPSecretRef = [],
      sn_SNMPVersion = 0, sn_Tags = [], sn_CreatedBy = [], sn_CreatedAt = 0, sn_UpdatedAt = 0,
      sn_Origin = [], sn_TotalAddresses = 0, sn_UsedAddresses = 0, sn_AvailableAddresses = 0,
      sn_SNMP = None\<rparr>"

record SubnetSNMP =
  sc_TenantID :: string
  sc_SubnetID :: string
  sc_Version :: int
  sc_SecurityLevel :: string
  sc_AuthProtocol :: string
  sc_PrivProtocol :: string
  sc_Sealed :: "byte list"
  sc_UpdatedBy :: string
  sc_UpdatedAt :: time

definition SubnetSNMP0 :: SubnetSNMP where
  "SubnetSNMP0 =
    \<lparr>sc_TenantID = [], sc_SubnetID = [], sc_Version = 0, sc_SecurityLevel = [],
      sc_AuthProtocol = [], sc_PrivProtocol = [], sc_Sealed = [], sc_UpdatedBy = [],
      sc_UpdatedAt = 0\<rparr>"

record HostSwitchLink =
  hl_SwitchID :: string
  hl_SwitchName :: string
  hl_PortID :: string
  hl_PortName :: string
  hl_VLAN :: int
  hl_Source :: string
  hl_LastSeen :: "time option"
  hl_Primary :: bool

definition HostSwitchLink0 :: HostSwitchLink where
  "HostSwitchLink0 =
    \<lparr>hl_SwitchID = [], hl_SwitchName = [], hl_PortID = [], hl_PortName = [], hl_VLAN = 0,
      hl_Source = [], hl_LastSeen = None, hl_Primary = False\<rparr>"

record AddressLink =
  al_SwitchID :: string
  al_SwitchName :: string
  al_PortID :: string
  al_PortName :: string
  al_VLAN :: int
  al_Source :: string
  al_LastSeen :: "time option"

definition AddressLink0 :: AddressLink where
  "AddressLink0 =
    \<lparr>al_SwitchID = [], al_SwitchName = [], al_PortID = [], al_PortName = [], al_VLAN = 0,
      al_Source = [], al_LastSeen = None\<rparr>"

record IPAddress =
  ip_ID :: string
  ip_TenantID :: string
  ip_Address :: string
  ip_SubnetID :: string
  ip_Hostname :: string
  ip_MACAddress :: string
  ip_Description :: string
  ip_DeviceID :: string
  ip_InterfaceName :: string
  ip_Status :: string
  ip_AddressType :: string
  ip_IsPrimary :: bool
  ip_PTRRecord :: string
  ip_DNSName :: string
  ip_Owner :: string
  ip_LastSeen :: "time option"
  ip_LeaseExpiry :: "time option"
  ip_HasReverseDNS :: bool
  ip_Note :: string
  ip_Tags :: "string tbl"
  ip_CreatedBy :: string
  ip_CreatedAt :: time
  ip_UpdatedAt :: time
  ip_ReportState :: string
  ip_PreviousDeviceID :: string
  ip_MovedAt :: "time option"
  ip_MoveCount :: int
  ip_MoveWindowStart :: "time option"
  ip_Conflict :: bool
  ip_MACSource :: string
  ip_MACSourceDeviceID :: string
  ip_MACSeenAt :: "time option"
  ip_MACConflict :: string
  ip_Origin :: string
  ip_Link :: "AddressLink option"
  ip_Links :: "HostSwitchLink list"

definition IPAddress0 :: IPAddress where
  "IPAddress0 =
    \<lparr>ip_ID = [], ip_TenantID = [], ip_Address = [], ip_SubnetID = [], ip_Hostname = [],
      ip_MACAddress = [], ip_Description = [], ip_DeviceID = [], ip_InterfaceName = [],
      ip_Status = [], ip_AddressType = [], ip_IsPrimary = False, ip_PTRRecord = [],
      ip_DNSName = [], ip_Owner = [], ip_LastSeen = None, ip_LeaseExpiry = None,
      ip_HasReverseDNS = False, ip_Note = [], ip_Tags = [], ip_CreatedBy = [],
      ip_CreatedAt = 0, ip_UpdatedAt = 0, ip_ReportState = [], ip_PreviousDeviceID = [],
      ip_MovedAt = None, ip_MoveCount = 0, ip_MoveWindowStart = None, ip_Conflict = False,
      ip_MACSource = [], ip_MACSourceDeviceID = [], ip_MACSeenAt = None, ip_MACConflict = [],
      ip_Origin = [], ip_Link = None, ip_Links = []\<rparr>"

record BehindAddress =
  ba_AddressID :: string
  ba_Address :: string
  ba_Hostname :: string

definition BehindAddress0 :: BehindAddress where
  "BehindAddress0 =
    \<lparr>ba_AddressID = [], ba_Address = [], ba_Hostname = []\<rparr>"

record ARPSettings =
  as_TenantID :: string
  as_Enabled :: bool
  as_ExcludedDevices :: "string list"
  as_ProxyThreshold :: int
  as_UpdatedBy :: string
  as_UpdatedAt :: time

definition ARPSettings0 :: ARPSettings where
  "ARPSettings0 =
    \<lparr>as_TenantID = [], as_Enabled = False, as_ExcludedDevices = [], as_ProxyThreshold = 0,
      as_UpdatedBy = [], as_UpdatedAt = 0\<rparr>"

section \<open>Devices\<close>

record HardwareBIOS =
  hb_Vendor :: string
  hb_Version :: string
  hb_ReleaseDate :: string

definition HardwareBIOS0 :: HardwareBIOS where
  "HardwareBIOS0 =
    \<lparr>hb_Vendor = [], hb_Version = [], hb_ReleaseDate = []\<rparr>"

record HardwareSystem =
  hy_Manufacturer :: string
  hy_Product :: string
  hy_Version :: string
  hy_Serial :: string
  hy_UUID :: string
  hy_SKU :: string
  hy_Family :: string

definition HardwareSystem0 :: HardwareSystem where
  "HardwareSystem0 =
    \<lparr>hy_Manufacturer = [], hy_Product = [], hy_Version = [], hy_Serial = [], hy_UUID = [],
      hy_SKU = [], hy_Family = []\<rparr>"

record HardwareBoard =
  ho_Manufacturer :: string
  ho_Product :: string
  ho_Serial :: string

definition HardwareBoard0 :: HardwareBoard where
  "HardwareBoard0 =
    \<lparr>ho_Manufacturer = [], ho_Product = [], ho_Serial = []\<rparr>"

record HardwareChassis =
  hc_Type :: string
  hc_Manufacturer :: string
  hc_Serial :: string
  hc_AssetTag :: string

definition HardwareChassis0 :: HardwareChassis where
  "HardwareChassis0 =
    \<lparr>hc_Type = [], hc_Manufacturer = [], hc_Serial = [], hc_AssetTag = []\<rparr>"

record HardwareProcessor =
  pr_Socket :: string
  pr_Manufacturer :: string
  pr_Model :: string
  pr_Family :: string
  pr_MaxMHz :: int
  pr_CurrentMHz :: int
  pr_Cores :: int
  pr_Threads :: int
  pr_Populated :: bool

definition HardwareProcessor0 :: HardwareProcessor where
  "HardwareProcessor0 =
    \<lparr>pr_Socket = [], pr_Manufacturer = [], pr_Model = [], pr_Family = [], pr_MaxMHz = 0,
      pr_CurrentMHz = 0, pr_Cores = 0, pr_Threads = 0, pr_Populated = False\<rparr>"

record HardwareMemorySlot =
  sl_Locator :: string
  sl_Bank :: string
  sl_Populated :: bool
  sl_SizeBytes :: int
  sl_Type :: string
  sl_FormFactor :: string
  sl_TypeDetail :: "string list"
  sl_SpeedMTs :: int
  sl_ConfiguredMTs :: int
  sl_Manufacturer :: string
  sl_PartNumber :: string
  sl_Serial :: string

definition HardwareMemorySlot0 :: HardwareMemorySlot where
  "HardwareMemorySlot0 =
    \<lparr>sl_Locator = [], sl_Bank = [], sl_Populated = False, sl_SizeBytes = 0, sl_Type = [],
      sl_FormFactor = [], sl_TypeDetail = [], sl_SpeedMTs = 0, sl_ConfiguredMTs = 0,
      sl_Manufacturer = [], sl_PartNumber = [], sl_Serial = []\<rparr>"

record HardwareMemory =
  me_TotalBytes :: int
  me_ErrorCorrection :: string
  me_Location :: string
  me_Use :: string
  me_MaxCapacityBytes :: int
  me_SlotsTotal :: int
  me_SlotsUsed :: int
  me_Slots :: "HardwareMemorySlot list"

definition HardwareMemory0 :: HardwareMemory where
  "HardwareMemory0 =
    \<lparr>me_TotalBytes = 0, me_ErrorCorrection = [], me_Location = [], me_Use = [],
      me_MaxCapacityBytes = 0, me_SlotsTotal = 0, me_SlotsUsed = 0, me_Slots = []\<rparr>"

record HardwareDisk =
  dk_Name :: string
  dk_Model :: string
  dk_Vendor :: string
  dk_Serial :: string
  dk_SizeBytes :: int
  dk_Media :: string
  dk_Interface :: string
  dk_Removable :: bool

definition HardwareDisk0 :: HardwareDisk where
  "HardwareDisk0 =
    \<lparr>dk_Name = [], dk_Model = [], dk_Vendor = [], dk_Serial = [], dk_SizeBytes = 0,
      dk_Media = [], dk_Interface = [], dk_Removable = False\<rparr>"

record HardwareFilesystem =
  fs_Mount :: string
  fs_FS :: string
  fs_SizeBytes :: int
  fs_FreeBytes :: int
  fs_Disks :: "string list"

definition HardwareFilesystem0 :: HardwareFilesystem where
  "HardwareFilesystem0 =
    \<lparr>fs_Mount = [], fs_FS = [], fs_SizeBytes = 0, fs_FreeBytes = 0, fs_Disks = []\<rparr>"

record HardwareAvailability =
  av_SMBIOS :: string
  av_Disks :: string

definition HardwareAvailability0 :: HardwareAvailability where
  "HardwareAvailability0 =
    \<lparr>av_SMBIOS = [], av_Disks = []\<rparr>"

record HardwareProfile =
  hp_Schema :: int
  hp_BIOS :: HardwareBIOS
  hp_System :: HardwareSystem
  hp_Board :: HardwareBoard
  hp_Chassis :: HardwareChassis
  hp_Processors :: "HardwareProcessor list"
  hp_Memory :: HardwareMemory
  hp_Disks :: "HardwareDisk list"
  hp_Filesystems :: "HardwareFilesystem list"
  hp_Availability :: HardwareAvailability
  hp_Truncated :: "int tbl"

definition HardwareProfile0 :: HardwareProfile where
  "HardwareProfile0 =
    \<lparr>hp_Schema = 0, hp_BIOS = HardwareBIOS0, hp_System = HardwareSystem0,
      hp_Board = HardwareBoard0, hp_Chassis = HardwareChassis0, hp_Processors = [],
      hp_Memory = HardwareMemory0, hp_Disks = [], hp_Filesystems = [],
      hp_Availability = HardwareAvailability0, hp_Truncated = []\<rparr>"

record HardwareSummary =
  hs_CPUModel :: string
  hs_CPUSockets :: int
  hs_CPUCores :: int
  hs_CPUThreads :: int
  hs_MemoryTotalBytes :: int
  hs_MemoryType :: string
  hs_MemorySlotsTotal :: int
  hs_MemorySlotsUsed :: int
  hs_DiskCount :: int
  hs_DiskTotalBytes :: int
  hs_ReportedAt :: time

definition HardwareSummary0 :: HardwareSummary where
  "HardwareSummary0 =
    \<lparr>hs_CPUModel = [], hs_CPUSockets = 0, hs_CPUCores = 0, hs_CPUThreads = 0,
      hs_MemoryTotalBytes = 0, hs_MemoryType = [], hs_MemorySlotsTotal = 0,
      hs_MemorySlotsUsed = 0, hs_DiskCount = 0, hs_DiskTotalBytes = 0, hs_ReportedAt = 0\<rparr>"

record DeviceHardware =
  hw_DeviceID :: string
  hw_TenantID :: string
  hw_Profile :: HardwareProfile
  hw_Digest :: string
  hw_Summary :: HardwareSummary
  hw_ReportedAt :: time
  hw_UpdatedAt :: time

definition DeviceHardware0 :: DeviceHardware where
  "DeviceHardware0 =
    \<lparr>hw_DeviceID = [], hw_TenantID = [], hw_Profile = HardwareProfile0, hw_Digest = [],
      hw_Summary = HardwareSummary0, hw_ReportedAt = 0, hw_UpdatedAt = 0\<rparr>"

record Device =
  dv_ID :: string
  dv_TenantID :: string
  dv_Name :: string
  dv_DeviceType :: string
  dv_Description :: string
  dv_Manufacturer :: string
  dv_Model :: string
  dv_SerialNumber :: string
  dv_AssetTag :: string
  dv_LocationID :: string
  dv_RackID :: string
  dv_RackPosition :: int
  dv_DeviceHeightU :: int
  dv_Status :: string
  dv_PrimaryIP :: string
  dv_PrimaryIPv6 :: string
  dv_ManagementIP :: string
  dv_OSType :: string
  dv_OSVersion :: string
  dv_FirmwareVersion :: string
  dv_Contact :: string
  dv_LastSeen :: "time option"
  dv_IPMISecretRef :: string
  dv_RebootRequired :: bool
  dv_UnattendedUpgrades :: bool
  dv_Tags :: "string tbl option"
  dv_CreatedBy :: string
  dv_CreatedAt :: time
  dv_UpdatedAt :: time
  dv_Source :: string
  dv_InventoryHostID :: string
  dv_VirtualizationKind :: string
  dv_HypervisorDeviceID :: string
  dv_UpdateStatus :: string
  dv_ReportState :: string
  dv_LastReportAt :: "time option"
  dv_ReportDigest :: string
  dv_HardwareSummary :: "HardwareSummary option"
  dv_GuestCount :: int
  dv_InterfaceCount :: int
  dv_AddressCount :: int
  dv_PackageUpdateCount :: int
  dv_SecurityUpdateCount :: int

definition Device0 :: Device where
  "Device0 =
    \<lparr>dv_ID = [], dv_TenantID = [], dv_Name = [], dv_DeviceType = [], dv_Description = [],
      dv_Manufacturer = [], dv_Model = [], dv_SerialNumber = [], dv_AssetTag = [],
      dv_LocationID = [], dv_RackID = [], dv_RackPosition = 0, dv_DeviceHeightU = 0,
      dv_Status = [], dv_PrimaryIP = [], dv_PrimaryIPv6 = [], dv_ManagementIP = [],
      dv_OSType = [], dv_OSVersion = [], dv_FirmwareVersion = [], dv_Contact = [],
      dv_LastSeen = None, dv_IPMISecretRef = [], dv_RebootRequired = False,
      dv_UnattendedUpgrades = False, dv_Tags = None, dv_CreatedBy = [], dv_CreatedAt = 0,
      dv_UpdatedAt = 0, dv_Source = [], dv_InventoryHostID = [], dv_VirtualizationKind = [],
      dv_HypervisorDeviceID = [], dv_UpdateStatus = [], dv_ReportState = [],
      dv_LastReportAt = None, dv_ReportDigest = [], dv_HardwareSummary = None,
      dv_GuestCount = 0, dv_InterfaceCount = 0, dv_AddressCount = 0, dv_PackageUpdateCount = 0,
      dv_SecurityUpdateCount = 0\<rparr>"

record DeviceInterface =
  if_ID :: string
  if_TenantID :: string
  if_DeviceID :: string
  if_Name :: string
  if_MACAddress :: string
  if_InterfaceType :: string
  if_Enabled :: bool
  if_SpeedMbps :: int
  if_Description :: string
  if_IfIndex :: int
  if_RemoteDeviceID :: string
  if_RemoteInterfaceID :: string
  if_RemotePortName :: string
  if_LinkSource :: string
  if_LinkVlan :: int
  if_LinkLastSeen :: "time option"
  if_CreatedAt :: time
  if_UpdatedAt :: time
  if_ReportState :: string
  if_RemoteDeviceName :: string
  if_BehindDeviceID :: string
  if_BehindDeviceName :: string
  if_BehindAddresses :: "BehindAddress list"
  if_Links :: "HostSwitchLink list"

definition DeviceInterface0 :: DeviceInterface where
  "DeviceInterface0 =
    \<lparr>if_ID = [], if_TenantID = [], if_DeviceID = [], if_Name = [], if_MACAddress = [],
      if_InterfaceType = [], if_Enabled = False, if_SpeedMbps = 0, if_Description = [],
      if_IfIndex = 0, if_RemoteDeviceID = [], if_RemoteInterfaceID = [],
      if_RemotePortName = [], if_LinkSource = [], if_LinkVlan = 0, if_LinkLastSeen = None,
      if_CreatedAt = 0, if_UpdatedAt = 0, if_ReportState = [], if_RemoteDeviceName = [],
      if_BehindDeviceID = [], if_BehindDeviceName = [], if_BehindAddresses = [], if_Links = []\<rparr>"

record DeviceInterfaceLink =
  il_ID :: string
  il_TenantID :: string
  il_InterfaceID :: string
  il_RemoteDeviceID :: string
  il_RemoteInterfaceID :: string
  il_RemotePortName :: string
  il_LinkSource :: string
  il_LinkVlan :: int
  il_LinkLastSeen :: "time option"

definition DeviceInterfaceLink0 :: DeviceInterfaceLink where
  "DeviceInterfaceLink0 =
    \<lparr>il_ID = [], il_TenantID = [], il_InterfaceID = [], il_RemoteDeviceID = [],
      il_RemoteInterfaceID = [], il_RemotePortName = [], il_LinkSource = [], il_LinkVlan = 0,
      il_LinkLastSeen = None\<rparr>"

record DevicePackage =
  pk_ID :: string
  pk_TenantID :: string
  pk_DeviceID :: string
  pk_Name :: string
  pk_CurrentVersion :: string
  pk_AvailableVersion :: string
  pk_NeedsUpdate :: bool
  pk_IsSecurityUpdate :: bool
  pk_PackageManager :: string
  pk_Description :: string
  pk_CreatedAt :: time
  pk_UpdatedAt :: time

definition DevicePackage0 :: DevicePackage where
  "DevicePackage0 =
    \<lparr>pk_ID = [], pk_TenantID = [], pk_DeviceID = [], pk_Name = [], pk_CurrentVersion = [],
      pk_AvailableVersion = [], pk_NeedsUpdate = False, pk_IsSecurityUpdate = False,
      pk_PackageManager = [], pk_Description = [], pk_CreatedAt = 0, pk_UpdatedAt = 0\<rparr>"

section \<open>Host synchronisation\<close>

record HypervisorGuest =
  gu_ID :: string
  gu_TenantID :: string
  gu_HostDeviceID :: string
  gu_GuestRef :: string
  gu_Name :: string
  gu_Kind :: string
  gu_Platform :: string
  gu_MACs :: "string list"
  gu_GuestDeviceID :: string
  gu_GuestDeviceName :: string
  gu_LastReportedAt :: time

definition HypervisorGuest0 :: HypervisorGuest where
  "HypervisorGuest0 =
    \<lparr>gu_ID = [], gu_TenantID = [], gu_HostDeviceID = [], gu_GuestRef = [], gu_Name = [],
      gu_Kind = [], gu_Platform = [], gu_MACs = [], gu_GuestDeviceID = [],
      gu_GuestDeviceName = [], gu_LastReportedAt = 0\<rparr>"

record HostSyncSettings =
  ss_TenantID :: string
  ss_Enabled :: bool
  ss_FullIntervalMinutes :: int
  ss_ExcludedInterfaces :: "string list"
  ss_ChangedSince :: "time option"
  ss_LastPollAt :: "time option"
  ss_LastReconcileAt :: "time option"
  ss_ReconcileRequested :: bool
  ss_Status :: string
  ss_LastError :: string
  ss_HostsReported :: int
  ss_HostsFailed :: int
  ss_UpdatedBy :: string
  ss_UpdatedAt :: time

definition HostSyncSettings0 :: HostSyncSettings where
  "HostSyncSettings0 =
    \<lparr>ss_TenantID = [], ss_Enabled = False, ss_FullIntervalMinutes = 0,
      ss_ExcludedInterfaces = [], ss_ChangedSince = None, ss_LastPollAt = None,
      ss_LastReconcileAt = None, ss_ReconcileRequested = False, ss_Status = [],
      ss_LastError = [], ss_HostsReported = 0, ss_HostsFailed = 0, ss_UpdatedBy = [],
      ss_UpdatedAt = 0\<rparr>"

record HostSyncStatus =
  st_Status :: string
  st_LastError :: string
  st_ChangedSince :: "time option"
  st_LastPollAt :: "time option"
  st_LastReconcileAt :: "time option"
  st_ClearReconcile :: bool
  st_HostsReported :: int
  st_HostsFailed :: int

definition HostSyncStatus0 :: HostSyncStatus where
  "HostSyncStatus0 =
    \<lparr>st_Status = [], st_LastError = [], st_ChangedSince = None, st_LastPollAt = None,
      st_LastReconcileAt = None, st_ClearReconcile = False, st_HostsReported = 0,
      st_HostsFailed = 0\<rparr>"

record HostSyncIssue =
  is_Field :: string
  is_Reason :: string
  is_Count :: int

definition HostSyncIssue0 :: HostSyncIssue where
  "HostSyncIssue0 =
    \<lparr>is_Field = [], is_Reason = [], is_Count = 0\<rparr>"

record HostSyncDeviceState =
  ds_DeviceID :: string
  ds_TenantID :: string
  ds_InventoryHostID :: string
  ds_SnapshotID :: string
  ds_CollectedAt :: "time option"
  ds_AppliedAt :: "time option"
  ds_Trigger :: string
  ds_Changes :: int
  ds_Issues :: "HostSyncIssue list"

definition HostSyncDeviceState0 :: HostSyncDeviceState where
  "HostSyncDeviceState0 =
    \<lparr>ds_DeviceID = [], ds_TenantID = [], ds_InventoryHostID = [], ds_SnapshotID = [],
      ds_CollectedAt = None, ds_AppliedAt = None, ds_Trigger = [], ds_Changes = 0,
      ds_Issues = []\<rparr>"

section \<open>VLANs, locations and groups\<close>

record Vlan =
  vl_ID :: string
  vl_TenantID :: string
  vl_VlanID :: int
  vl_Name :: string
  vl_Description :: string
  vl_Domain :: string
  vl_LocationID :: string
  vl_Status :: string
  vl_Tags :: "string tbl"
  vl_CreatedBy :: string
  vl_CreatedAt :: time
  vl_UpdatedAt :: time
  vl_SubnetCount :: int

definition Vlan0 :: Vlan where
  "Vlan0 =
    \<lparr>vl_ID = [], vl_TenantID = [], vl_VlanID = 0, vl_Name = [], vl_Description = [],
      vl_Domain = [], vl_LocationID = [], vl_Status = [], vl_Tags = [], vl_CreatedBy = [],
      vl_CreatedAt = 0, vl_UpdatedAt = 0, vl_SubnetCount = 0\<rparr>"

record Location =
  lo_ID :: string
  lo_TenantID :: string
  lo_Name :: string
  lo_Code :: string
  lo_LocationType :: string
  lo_Description :: string
  lo_ParentID :: string
  lo_Path :: string
  lo_Address :: string
  lo_City :: string
  lo_State :: string
  lo_Country :: string
  lo_PostalCode :: string
  lo_Latitude :: float64
  lo_Longitude :: float64
  lo_Contact :: string
  lo_Phone :: string
  lo_Email :: string
  lo_Status :: string
  lo_RackSizeU :: int
  lo_Tags :: "string tbl"
  lo_CreatedBy :: string
  lo_CreatedAt :: time
  lo_UpdatedAt :: time
  lo_ChildCount :: int
  lo_DeviceCount :: int
  lo_SubnetCount :: int
  lo_VlanCount :: int

definition Location0 :: Location where
  "Location0 =
    \<lparr>lo_ID = [], lo_TenantID = [], lo_Name = [], lo_Code = [], lo_LocationType = [],
      lo_Description = [], lo_ParentID = [], lo_Path = [], lo_Address = [], lo_City = [],
      lo_State = [], lo_Country = [], lo_PostalCode = [], lo_Latitude = 0, lo_Longitude = 0,
      lo_Contact = [], lo_Phone = [], lo_Email = [], lo_Status = [], lo_RackSizeU = 0,
      lo_Tags = [], lo_CreatedBy = [], lo_CreatedAt = 0, lo_UpdatedAt = 0, lo_ChildCount = 0,
      lo_DeviceCount = 0, lo_SubnetCount = 0, lo_VlanCount = 0\<rparr>"

record IPGroup =
  ig_ID :: string
  ig_TenantID :: string
  ig_Name :: string
  ig_Description :: string
  ig_Status :: string
  ig_Tags :: "string tbl"
  ig_CreatedBy :: string
  ig_CreatedAt :: time
  ig_UpdatedAt :: time
  ig_MemberCount :: int

definition IPGroup0 :: IPGroup where
  "IPGroup0 =
    \<lparr>ig_ID = [], ig_TenantID = [], ig_Name = [], ig_Description = [], ig_Status = [],
      ig_Tags = [], ig_CreatedBy = [], ig_CreatedAt = 0, ig_UpdatedAt = 0, ig_MemberCount = 0\<rparr>"

record IPGroupMember =
  im_ID :: string
  im_TenantID :: string
  im_IPGroupID :: string
  im_MemberType :: string
  im_Value :: string
  im_Description :: string
  im_Sequence :: int

definition IPGroupMember0 :: IPGroupMember where
  "IPGroupMember0 =
    \<lparr>im_ID = [], im_TenantID = [], im_IPGroupID = [], im_MemberType = [], im_Value = [],
      im_Description = [], im_Sequence = 0\<rparr>"

record HostGroup =
  hg_ID :: string
  hg_TenantID :: string
  hg_Name :: string
  hg_Description :: string
  hg_Status :: string
  hg_Tags :: "string tbl"
  hg_CreatedBy :: string
  hg_CreatedAt :: time
  hg_UpdatedAt :: time
  hg_MemberCount :: int

definition HostGroup0 :: HostGroup where
  "HostGroup0 =
    \<lparr>hg_ID = [], hg_TenantID = [], hg_Name = [], hg_Description = [], hg_Status = [],
      hg_Tags = [], hg_CreatedBy = [], hg_CreatedAt = 0, hg_UpdatedAt = 0, hg_MemberCount = 0\<rparr>"

record HostGroupMember =
  hm_ID :: string
  hm_TenantID :: string
  hm_HostGroupID :: string
  hm_DeviceID :: string
  hm_Sequence :: int
  hm_DeviceName :: string
  hm_DeviceType :: string
  hm_DeviceStatus :: string
  hm_DevicePrimaryIP :: string

definition HostGroupMember0 :: HostGroupMember where
  "HostGroupMember0 =
    \<lparr>hm_ID = [], hm_TenantID = [], hm_HostGroupID = [], hm_DeviceID = [], hm_Sequence = 0,
      hm_DeviceName = [], hm_DeviceType = [], hm_DeviceStatus = [], hm_DevicePrimaryIP = []\<rparr>"

section \<open>Scan jobs, DNS configuration, audit\<close>

record IPScanJob =
  sj_ID :: string
  sj_TenantID :: string
  sj_SubnetID :: string
  sj_Status :: string
  sj_Progress :: int
  sj_StatusMessage :: string
  sj_TotalAddresses :: int
  sj_ScannedCount :: int
  sj_AliveCount :: int
  sj_NewCount :: int
  sj_UpdatedCount :: int
  sj_SNMPDiscoveredCount :: int
  sj_SNMPStatus :: string
  sj_SNMPSourceSubnetID :: string
  sj_SNMPProbed :: int
  sj_SNMPNoAnswer :: int
  sj_SNMPRejected :: int
  sj_ARPStatus :: string
  sj_ARPDevices :: int
  sj_ARPPartial :: int
  sj_ARPEntries :: int
  sj_ARPApplied :: int
  sj_ARPCreated :: int
  sj_ARPConflicts :: int
  sj_ARPIgnored :: "int tbl"
  sj_TriggeredBy :: string
  sj_RetryCount :: int
  sj_MaxRetries :: int
  sj_NextRetryAt :: "time option"
  sj_TimeoutMs :: int
  sj_Concurrency :: int
  sj_SkipReverseDNS :: bool
  sj_TCPProbePorts :: string
  sj_EnableSNMP :: bool
  sj_EnableDNSUpdate :: bool
  sj_StartedAt :: "time option"
  sj_CompletedAt :: "time option"
  sj_CreatedBy :: string
  sj_CreatedAt :: time
  sj_UpdatedAt :: time

definition IPScanJob0 :: IPScanJob where
  "IPScanJob0 =
    \<lparr>sj_ID = [], sj_TenantID = [], sj_SubnetID = [], sj_Status = [], sj_Progress = 0,
      sj_StatusMessage = [], sj_TotalAddresses = 0, sj_ScannedCount = 0, sj_AliveCount = 0,
      sj_NewCount = 0, sj_UpdatedCount = 0, sj_SNMPDiscoveredCount = 0, sj_SNMPStatus = [],
      sj_SNMPSourceSubnetID = [], sj_SNMPProbed = 0, sj_SNMPNoAnswer = 0, sj_SNMPRejected = 0,
      sj_ARPStatus = [], sj_ARPDevices = 0, sj_ARPPartial = 0, sj_ARPEntries = 0,
      sj_ARPApplied = 0, sj_ARPCreated = 0, sj_ARPConflicts = 0, sj_ARPIgnored = [],
      sj_TriggeredBy = [], sj_RetryCount = 0, sj_MaxRetries = 0, sj_NextRetryAt = None,
      sj_TimeoutMs = 0, sj_Concurrency = 0, sj_SkipReverseDNS = False, sj_TCPProbePorts = [],
      sj_EnableSNMP = False, sj_EnableDNSUpdate = False, sj_StartedAt = None,
      sj_CompletedAt = None, sj_CreatedBy = [], sj_CreatedAt = 0, sj_UpdatedAt = 0\<rparr>"

record DNSConfig =
  dc_ID :: string
  dc_TenantID :: string
  dc_DNSServers :: "string list"
  dc_TimeoutMs :: int
  dc_UseSystemDNSFallback :: bool
  dc_ReverseDNSEnabled :: bool
  dc_CreatedAt :: time
  dc_UpdatedAt :: time

definition DNSConfig0 :: DNSConfig where
  "DNSConfig0 =
    \<lparr>dc_ID = [], dc_TenantID = [], dc_DNSServers = [], dc_TimeoutMs = 0,
      dc_UseSystemDNSFallback = False, dc_ReverseDNSEnabled = False, dc_CreatedAt = 0,
      dc_UpdatedAt = 0\<rparr>"

record AuditRow =
  au_ID :: string
  au_TenantID :: string
  au_At :: time
  au_ActorKind :: string
  au_ActorID :: string
  au_Action :: string
  au_SubjectKind :: string
  au_SubjectID :: string
  au_Target :: string
  au_Outcome :: string
  au_Reason :: string
  au_Detail :: "any tbl"

definition AuditRow0 :: AuditRow where
  "AuditRow0 =
    \<lparr>au_ID = [], au_TenantID = [], au_At = 0, au_ActorKind = [], au_ActorID = [],
      au_Action = [], au_SubjectKind = [], au_SubjectID = [], au_Target = [], au_Outcome = [],
      au_Reason = [], au_Detail = []\<rparr>"

record ARPOp =
  ao_Kind :: string
  ao_AddressID :: string
  ao_Address :: string
  ao_SubnetID :: string
  ao_MAC :: string
  ao_SourceDeviceID :: string
  ao_At :: time
  ao_Audit :: "AuditRow list"

definition ARPOp0 :: ARPOp where
  "ARPOp0 =
    \<lparr>ao_Kind = [], ao_AddressID = [], ao_Address = [], ao_SubnetID = [], ao_MAC = [],
      ao_SourceDeviceID = [], ao_At = 0, ao_Audit = []\<rparr>"

section \<open>Filters\<close>

record SubnetFilter =
  sf_VlanID :: string
  sf_ParentID :: string
  sf_LocationID :: string
  sf_Status :: string
  sf_IPVersion :: int
  sf_Query :: string
  sf_Limit :: int
  sf_CursorID :: string

definition SubnetFilter0 :: SubnetFilter where
  "SubnetFilter0 =
    \<lparr>sf_VlanID = [], sf_ParentID = [], sf_LocationID = [], sf_Status = [], sf_IPVersion = 0,
      sf_Query = [], sf_Limit = 0, sf_CursorID = []\<rparr>"

record AddressFilter =
  af_SubnetID :: string
  af_DeviceID :: string
  af_Status :: string
  af_AddressType :: string
  af_AddressPrefix :: string
  af_HostnamePattern :: string
  af_ReportState :: string
  af_Conflict :: "bool option"
  af_MAC :: string
  af_Limit :: int
  af_CursorID :: string

definition AddressFilter0 :: AddressFilter where
  "AddressFilter0 =
    \<lparr>af_SubnetID = [], af_DeviceID = [], af_Status = [], af_AddressType = [],
      af_AddressPrefix = [], af_HostnamePattern = [], af_ReportState = [], af_Conflict = None,
      af_MAC = [], af_Limit = 0, af_CursorID = []\<rparr>"

record DeviceFilter =
  df_DeviceType :: string
  df_Status :: string
  df_LocationID :: string
  df_Manufacturer :: string
  df_RackID :: string
  df_Source :: string
  df_ReportState :: string
  df_Query :: string
  df_HasHardware :: string
  df_Limit :: int
  df_CursorID :: string

definition DeviceFilter0 :: DeviceFilter where
  "DeviceFilter0 =
    \<lparr>df_DeviceType = [], df_Status = [], df_LocationID = [], df_Manufacturer = [],
      df_RackID = [], df_Source = [], df_ReportState = [], df_Query = [], df_HasHardware = [],
      df_Limit = 0, df_CursorID = []\<rparr>"

record VlanFilter =
  vf_LocationID :: string
  vf_Domain :: string
  vf_Status :: string
  vf_VlanIDMin :: int
  vf_VlanIDMax :: int
  vf_Limit :: int
  vf_CursorID :: string

definition VlanFilter0 :: VlanFilter where
  "VlanFilter0 =
    \<lparr>vf_LocationID = [], vf_Domain = [], vf_Status = [], vf_VlanIDMin = 0, vf_VlanIDMax = 0,
      vf_Limit = 0, vf_CursorID = []\<rparr>"

record LocationFilter =
  lf_ParentID :: string
  lf_LocationType :: string
  lf_Country :: string
  lf_Status :: string
  lf_Limit :: int
  lf_CursorID :: string

definition LocationFilter0 :: LocationFilter where
  "LocationFilter0 =
    \<lparr>lf_ParentID = [], lf_LocationType = [], lf_Country = [], lf_Status = [], lf_Limit = 0,
      lf_CursorID = []\<rparr>"

record ScanFilter =
  jf_SubnetID :: string
  jf_Status :: string
  jf_Limit :: int
  jf_CursorID :: string

definition ScanFilter0 :: ScanFilter where
  "ScanFilter0 =
    \<lparr>jf_SubnetID = [], jf_Status = [], jf_Limit = 0, jf_CursorID = []\<rparr>"

section \<open>Functions of the domain model\<close>

definition DefaultARPSettings :: "string \<Rightarrow> ARPSettings" where
  "DefaultARPSettings tenantID =
     ARPSettings0\<lparr>as_TenantID := tenantID, as_Enabled := True, as_ProxyThreshold := 8\<rparr>"

definition IsNetworkDevice :: "string \<Rightarrow> bool" where
  "IsNetworkDevice t = (t = DevRouter \<or> t = DevSwitch \<or> t = DevFirewall \<or> t = DevLoadBalancer)"

fun MACHex :: "string \<Rightarrow> string" where
  "MACHex [] = []"
| "MACHex (c # s) =
     (if (48 \<le> ord c \<and> ord c \<le> 57) \<or> (97 \<le> ord c \<and> ord c \<le> 102) then c # MACHex s
      else if 65 \<le> ord c \<and> ord c \<le> 70 then char_of (ord c + 32) # MACHex s
      else MACHex s)"

definition fill :: "string \<Rightarrow> string \<Rightarrow> string" where
  "fill d s = (if d = [] \<and> s \<noteq> [] then s else d)"

definition FillEmptyDevice :: "Device \<Rightarrow> Device \<Rightarrow> Device" where
  "FillEmptyDevice dst src = dst\<lparr>
     dv_DeviceType := fill (dv_DeviceType dst) (dv_DeviceType src),
     dv_Manufacturer := fill (dv_Manufacturer dst) (dv_Manufacturer src),
     dv_Model := fill (dv_Model dst) (dv_Model src),
     dv_SerialNumber := fill (dv_SerialNumber dst) (dv_SerialNumber src),
     dv_PrimaryIP := fill (dv_PrimaryIP dst) (dv_PrimaryIP src),
     dv_PrimaryIPv6 := fill (dv_PrimaryIPv6 dst) (dv_PrimaryIPv6 src),
     dv_ManagementIP := fill (dv_ManagementIP dst) (dv_ManagementIP src),
     dv_OSType := fill (dv_OSType dst) (dv_OSType src),
     dv_OSVersion := fill (dv_OSVersion dst) (dv_OSVersion src),
     dv_FirmwareVersion := fill (dv_FirmwareVersion dst) (dv_FirmwareVersion src),
     dv_LastSeen := (case dv_LastSeen src of None \<Rightarrow> dv_LastSeen dst | Some t \<Rightarrow> Some t)\<rparr>"

definition link_less :: "HostSwitchLink \<Rightarrow> HostSwitchLink \<Rightarrow> bool" where
  "link_less a b =
     (if hl_Primary a \<noteq> hl_Primary b then hl_Primary a
      else if hl_SwitchName a \<noteq> hl_SwitchName b then hl_SwitchName a < hl_SwitchName b
      else hl_SwitchID a < hl_SwitchID b)"

definition MarkPrimary :: "HostSwitchLink list \<Rightarrow> string \<Rightarrow> HostSwitchLink list" where
  "MarkPrimary links primaryPort =
     sort_by link_less
       (map (\<lambda>l. l\<lparr>hl_Primary := primaryPort \<noteq> [] \<and> hl_PortID l = primaryPort\<rparr>) links)"

section \<open>Identifiers\<close>

text \<open>\<open>NewID\<close> from the millisecond clock and sixteen random bytes.\<close>

definition hexbytes :: "byte list \<Rightarrow> string" where
  "hexbytes bs = concat (map hex2 bs)"

definition NewID_bytes :: "nat \<Rightarrow> byte list \<Rightarrow> byte list" where
  "NewID_bytes ms r =
     [of_nat (ms div 2 ^ 40), of_nat (ms div 2 ^ 32), of_nat (ms div 2 ^ 24),
      of_nat (ms div 2 ^ 16), of_nat (ms div 2 ^ 8), of_nat ms,
      or (and (r ! 6) 0x0f) 0x70, r ! 7, or (and (r ! 8) 0x3f) 0x80] @ drop 9 r"

definition NewID :: "nat \<Rightarrow> byte list \<Rightarrow> string" where
  "NewID ms r = (let h = hexbytes (NewID_bytes ms r) in
     take 8 h @ ''-'' @ take 4 (drop 8 h) @ ''-'' @ take 4 (drop 12 h) @ ''-'' @
     take 4 (drop 16 h) @ ''-'' @ take 12 (drop 20 h))"

lemma char_less_iff: "(c :: char) < d \<longleftrightarrow> ord c < ord d"
  by (simp add: less_char_def ord_def)

lemma digit_char_mono: "a < b \<Longrightarrow> b < 16 \<Longrightarrow> digit_char a < digit_char b"
  by (simp add: char_less_iff ord_digit_char)

lemma lex_append_less:
  fixes u v :: string
  assumes "u < v" "length u = length v"
  shows "u @ x < v @ y"
  using assms by (auto simp: list_less_def intro: lexord_sufI)

lemma lex_same_prefix: "(u @ x < u @ y) = ((x :: string) < y)"
  by (induction u) auto

lemma length_hex2 [simp]: "length (hex2 b) = 2"
  by (simp add: hex2_def)

lemma hex2_mono: "unat a < unat b \<Longrightarrow> hex2 a < hex2 b"
proof -
  assume lt: "unat a < unat b"
  have b: "unat b div 16 < 16" "unat b mod 16 < 16"
    using unat_byte_less [of b] by auto
  have "unat a div 16 \<le> unat b div 16"
    using lt by (simp add: div_le_mono)
  then consider "unat a div 16 < unat b div 16" | "unat a div 16 = unat b div 16" "unat a mod 16 < unat b mod 16"
    using lt by (metis div_mult_mod_eq le_neq_implies_less nat_add_left_cancel_less)
  then show ?thesis
    using b by cases (auto simp: hex2_def digit_char_mono)
qed

lemma length_hexbytes [simp]: "length (hexbytes bs) = 2 * length bs"
  by (induction bs) (auto simp: hexbytes_def)

lemma hexbytes_append: "hexbytes (a @ b) = hexbytes a @ hexbytes b"
  by (simp add: hexbytes_def)

lemma hexbytes_mono:
  "length a = length b \<Longrightarrow> bytes_val a < bytes_val b \<Longrightarrow> hexbytes a < hexbytes b"
proof (induction a b rule: list_induct2)
  case (Cons x xs y ys)
  show ?case
  proof (cases "unat x < unat y")
    case True
    then show ?thesis
      using hex2_mono lex_append_less by (simp add: hexbytes_def)
  next
    case False
    have "unat x = unat y"
    proof (rule ccontr)
      assume "unat x \<noteq> unat y"
      then have "Suc (unat y) * 256 ^ length ys \<le> unat x * 256 ^ length xs"
        using False Cons(1) mult_le_mono1 [of "Suc (unat y)" "unat x" "256 ^ length ys"] by simp
      then show False
        using Cons(1,3) bytes_val_less [of ys] by simp
    qed
    then have "x = y"
      by (simp add: word_unat_eq_iff)
    then show ?thesis
      using Cons by (simp add: hexbytes_def lex_same_prefix)
  qed
qed simp

lemma NewID_prefix:
  "NewID ms r = hexbytes (nat_bytes 4 (ms div 2 ^ 16)) @ ''-'' @ hexbytes (nat_bytes 2 ms) @ ''-'' @
     take 4 (drop 12 (hexbytes (NewID_bytes ms r))) @ ''-'' @
     take 4 (drop 16 (hexbytes (NewID_bytes ms r))) @ ''-'' @
     take 12 (drop 20 (hexbytes (NewID_bytes ms r)))"
proof -
  have n: "(4 :: nat) = Suc (Suc (Suc (Suc 0)))" "(2 :: nat) = Suc (Suc 0)"
    by simp_all
  have 4: "nat_bytes 4 v = [of_nat (v div 256 div 256 div 256), of_nat (v div 256 div 256),
      of_nat (v div 256), of_nat v]" for v
    unfolding n nat_bytes.simps by simp
  have 2: "nat_bytes 2 ms = [of_nat (ms div 256), of_nat ms]"
    unfolding n nat_bytes.simps by simp
  have "NewID_bytes ms r = nat_bytes 4 (ms div 2 ^ 16) @ nat_bytes 2 ms @ drop 6 (NewID_bytes ms r)"
    unfolding NewID_bytes_def 4 2 by (simp add: div_mult2_eq [symmetric])
  then have "hexbytes (NewID_bytes ms r) = hexbytes (nat_bytes 4 (ms div 2 ^ 16)) @
      hexbytes (nat_bytes 2 ms) @ hexbytes (drop 6 (NewID_bytes ms r))"
    by (metis hexbytes_append)
  then show ?thesis
    unfolding NewID_def Let_def by simp
qed

text \<open>Identifiers are time-ordered: one drawn in an earlier millisecond is smaller in the
  order the lists are sorted by, whatever the random bytes, as long as the clock fits in 48
  bits.\<close>

theorem NewID_time_ordered:
  assumes "ms < ms'" and "ms' < 2 ^ 48"
  shows "NewID ms r < NewID ms' r'"
proof (cases "ms div 2 ^ 16 < ms' div 2 ^ 16")
  case True
  moreover have "ms' div 2 ^ 16 < 256 ^ 4" "ms div 2 ^ 16 < 256 ^ 4"
    using assms by (simp_all add: less_mult_imp_div_less)
  ultimately have "hexbytes (nat_bytes 4 (ms div 2 ^ 16)) < hexbytes (nat_bytes 4 (ms' div 2 ^ 16))"
    by (intro hexbytes_mono) (simp_all add: bytes_val_nat_bytes)
  then show ?thesis
    unfolding NewID_prefix by (intro lex_append_less) simp_all
next
  case False
  then have eq: "ms div 2 ^ 16 = ms' div 2 ^ 16"
    using assms(1) by (meson div_le_mono le_antisym less_imp_le not_less)
  then have "ms mod 2 ^ 16 < ms' mod 2 ^ 16"
    using assms(1) by (metis div_mult_mod_eq nat_add_left_cancel_less)
  then have "ms mod 256 ^ 2 < ms' mod 256 ^ 2"
    by simp
  then have "hexbytes (nat_bytes 2 ms) < hexbytes (nat_bytes 2 ms')"
    by (intro hexbytes_mono) (simp_all only: bytes_val_nat_bytes length_nat_bytes)
  then show ?thesis
    unfolding NewID_prefix eq lex_same_prefix by (intro lex_append_less) simp_all
qed

theorem NewID_time_ordered_witness:
  "NewID 1700000000000 (replicate 16 255) < NewID 1700000000001 (replicate 16 0)"
  by (rule NewID_time_ordered) simp_all

end
