(* ===== verification/Mac.thy ===== *)
theory Mac
  imports Models
begin

text \<open>
  MAC addresses: \<open>net.ParseMAC\<close> and \<open>HardwareAddr.String\<close> of the standard library, and
  \<open>hostreport.NormalizeMAC\<close>, the one canonical form the service stores and compares. The
  main fact is that normalisation is idempotent: a canonical MAC normalises to itself.
\<close>

section \<open>net.ParseMAC\<close>

text \<open>Two hexadecimal digits, followed by the separator when the text goes on.\<close>

definition xtoi2 :: "string \<Rightarrow> char option \<Rightarrow> byte option" where
  "xtoi2 s e =
     (if length s > 2 \<and> Some (s ! 2) \<noteq> e then None
      else case s of
          a # b # _ \<Rightarrow> (case (hex_value a, hex_value b) of
              (Some x, Some y) \<Rightarrow> Some (of_nat (x * 16 + y))
            | _ \<Rightarrow> None)
        | _ \<Rightarrow> None)"

fun mac_pairs :: "char \<Rightarrow> nat \<Rightarrow> string \<Rightarrow> byte list option" where
  "mac_pairs sep 0 s = Some []"
| "mac_pairs sep (Suc n) s = (case xtoi2 s (Some sep) of
     None \<Rightarrow> None
   | Some b \<Rightarrow> map_option (\<lambda>bs. b # bs) (mac_pairs sep n (drop 3 s)))"

fun mac_quads :: "nat \<Rightarrow> string \<Rightarrow> byte list option" where
  "mac_quads 0 s = Some []"
| "mac_quads (Suc n) s = (case (xtoi2 (take 2 s) None, xtoi2 (drop 2 s) (Some (CHR ''.''))) of
     (Some a, Some b) \<Rightarrow> map_option (\<lambda>bs. a # b # bs) (mac_quads n (drop 5 s))
   | _ \<Rightarrow> None)"

definition ParseMAC :: "string \<Rightarrow> byte list option" where
  "ParseMAC s =
     (if length s < 14 then None
      else if s ! 2 = CHR '':'' \<or> s ! 2 = CHR ''-'' then
        (if (length s + 1) mod 3 \<noteq> 0 then None
         else if (length s + 1) div 3 \<notin> {6, 8, 20} then None
         else mac_pairs (s ! 2) ((length s + 1) div 3) s)
      else if s ! 4 = CHR ''.'' then
        (if (length s + 1) mod 5 \<noteq> 0 then None
         else if 2 * (length s + 1) div 5 \<notin> {6, 8, 20} then None
         else mac_quads ((length s + 1) div 5) s)
      else None)"

fun HardwareAddr_String :: "byte list \<Rightarrow> string" where
  "HardwareAddr_String [] = []"
| "HardwareAddr_String [b] = hex2 b"
| "HardwareAddr_String (b # bs) = hex2 b @ CHR '':'' # HardwareAddr_String bs"

section \<open>hostreport.NormalizeMAC\<close>

definition NormalizeMAC :: "string \<Rightarrow> string option" where
  "NormalizeMAC s = (case ParseMAC (trim_space s) of
       None \<Rightarrow> None
     | Some hw \<Rightarrow>
         if length hw \<noteq> 6 \<or> odd (unat (hd hw)) then None
         else if list_all (\<lambda>b. b = 0) hw then None
         else Some (HardwareAddr_String hw))"

section \<open>Properties\<close>

lemma unat_byte_digits: "unat (b :: byte) div 16 < 16" "unat b mod 16 < 16"
  using unat_byte_less [of b] by auto

lemma xtoi2_hex2: "xtoi2 (hex2 b @ r) e = (if r = [] \<or> Some (hd r) = e then Some b else None)"
proof -
  have "unat b div 16 * 16 + unat b mod 16 = unat b"
    by simp
  then have "(of_nat (unat b div 16 * 16 + unat b mod 16) :: byte) = b"
    by (simp only:) simp
  then show ?thesis
    using unat_byte_digits [of b]
    by (cases r) (auto simp: xtoi2_def hex2_def hex_value_digit_char nth_append)
qed

lemma mac_pairs_String: "mac_pairs (CHR '':'') (length bs) (HardwareAddr_String bs) = Some bs"
proof (induction bs rule: HardwareAddr_String.induct)
  case (2 b)
  then show ?case
    using xtoi2_hex2 [of b "[]"] by simp
next
  case (3 b c bs)
  have "drop 3 (hex2 b @ CHR '':'' # HardwareAddr_String (c # bs)) = HardwareAddr_String (c # bs)"
    by (simp add: hex2_def)
  then show ?case
    using 3 xtoi2_hex2 [of b "CHR '':'' # HardwareAddr_String (c # bs)"] by simp
qed simp

lemma length_HardwareAddr_String: "bs \<noteq> [] \<Longrightarrow> length (HardwareAddr_String bs) + 1 = 3 * length bs"
  by (induction bs rule: HardwareAddr_String.induct) auto

lemma HardwareAddr_String_sep: "2 \<le> length bs \<Longrightarrow> HardwareAddr_String bs ! 2 = CHR '':''"
  by (cases bs rule: HardwareAddr_String.cases) (auto simp: nth_append hex2_def)

lemma ParseMAC_String: "length bs = 6 \<Longrightarrow> ParseMAC (HardwareAddr_String bs) = Some bs"
proof -
  assume l: "length bs = 6"
  then have "length (HardwareAddr_String bs) = 17"
    using length_HardwareAddr_String [of bs] by fastforce
  then show ?thesis
    using l mac_pairs_String [of bs] HardwareAddr_String_sep [of bs] by (simp add: ParseMAC_def)
qed

lemma graphic_HardwareAddr_String: "graphic (HardwareAddr_String bs)"
proof (induction bs rule: HardwareAddr_String.induct)
  have h: "graphic (hex2 b)" for b
    using unat_byte_digits [of b] by (auto simp: graphic_def hex2_def ord_digit_char)
  {
    case 1
    then show ?case by (simp add: graphic_def)
  next
    case (2 b)
    then show ?case using h by simp
  next
    case (3 b c bs)
    then show ?case using h [of b] by (auto simp: graphic_def ord_def)
  }
qed

text \<open>C32. The stored form of a MAC is canonical: whatever notation it was written in, normalising
  the result again gives the same text, and it has exactly six bytes, is unicast and not zero.\<close>

theorem NormalizeMAC_canonical:
  assumes "NormalizeMAC s = Some m"
  shows "NormalizeMAC m = Some m \<and> (\<exists>hw. ParseMAC m = Some hw \<and> length hw = 6 \<and> even (unat (hd hw)) \<and>
    (\<exists>b \<in> set hw. b \<noteq> 0))"
proof -
  obtain hw where hw: "length hw = 6" "even (unat (hd hw))" "\<not> list_all (\<lambda>b. b = 0) hw"
    and m: "m = HardwareAddr_String hw"
    using assms by (auto simp: NormalizeMAC_def split: option.splits if_splits)
  have "ParseMAC (trim_space m) = Some hw"
    unfolding m trim_space_graphic [OF graphic_HardwareAddr_String] by (rule ParseMAC_String [OF hw(1)])
  moreover have "ParseMAC m = Some hw"
    unfolding m by (rule ParseMAC_String [OF hw(1)])
  ultimately show ?thesis
    using hw m by (auto simp: NormalizeMAC_def list_all_iff)
qed

theorem NormalizeMAC_canonical_witness:
  "NormalizeMAC ''0200.5e10.00FF'' = Some ''02:00:5e:10:00:ff'' \<and>
   NormalizeMAC ''02:00:5e:10:00:ff'' = Some ''02:00:5e:10:00:ff''"
proof -
  have "NormalizeMAC ''0200.5e10.00FF'' = Some ''02:00:5e:10:00:ff''"
    by code_simp
  then show ?thesis
    using NormalizeMAC_canonical by blast
qed

end
