(* ===== verification/Repo.thy ===== *)
theory Repo
  imports Models
begin

text \<open>
  \<open>internal/repo/repo.go\<close>: the result types of the storage contract that are not domain
  models, and the contract itself. The floating-point \<open>OverallUtilization\<close> of the statistics is left out, like every
  utilization ratio.
\<close>

record Stats =
  rs_TotalSubnets :: int
  rs_TotalAddresses :: int
  rs_UsedAddresses :: int
  rs_AvailableAddresses :: int
  rs_TotalVlans :: int
  rs_TotalDevices :: int
  rs_TotalLocations :: int
  rs_DevicesByType :: "int tbl"

record PortLinkData =
  pd_Switches :: "Device list"
  pd_SwitchIfaces :: "DeviceInterface list"
  pd_Links :: "DeviceInterfaceLink list"
  pd_Hosts :: "Device list"
  pd_HostIfaces :: "DeviceInterface list"
  pd_Addresses :: "IPAddress list"
  pd_NetworkMACs :: "string list"
  pd_Guests :: "HypervisorGuest list"

record MACOwner =
  mo_MAC :: string
  mo_DeviceID :: string
  mo_HypervisorDeviceID :: string

text \<open>
  The storage contract \<open>repo.Store\<close> over a state \<open>'m\<close>: one operation per method. An
  operation that reads the store's clock or draws an identifier takes the environment. The paged lists,
  whose order and windowing are the shared \<open>listquery\<close> package's, are not part of it.
\<close>

record 'm Store =
  s_CreateSubnet :: "env \<Rightarrow> Subnet \<Rightarrow> ('m, unit) op"
  s_GetSubnet :: "string \<Rightarrow> string \<Rightarrow> ('m, Subnet) op"
  s_ListSubnets :: "string \<Rightarrow> SubnetFilter \<Rightarrow> ('m, Subnet list) op"
  s_UpdateSubnet :: "env \<Rightarrow> Subnet \<Rightarrow> ('m, unit) op"
  s_DeleteSubnet :: "string \<Rightarrow> string \<Rightarrow> bool \<Rightarrow> ('m, unit) op"
  s_CountAddressesInSubnet :: "string \<Rightarrow> string \<Rightarrow> ('m, int) op"
  s_ListAllocatedAddresses :: "string \<Rightarrow> string \<Rightarrow> ('m, string list) op"
  s_SubnetsForVlan :: "string \<Rightarrow> string \<Rightarrow> ('m, Subnet list) op"
  s_AllSubnetCIDRs :: "string \<Rightarrow> ('m, Subnet list) op"
  s_GetSubnetSNMP :: "string \<Rightarrow> string \<Rightarrow> ('m, SubnetSNMP) op"
  s_PutSubnetSNMP :: "env \<Rightarrow> SubnetSNMP \<Rightarrow> AuditRow \<Rightarrow> ('m, unit) op"
  s_DeleteSubnetSNMP :: "env \<Rightarrow> string \<Rightarrow> string \<Rightarrow> AuditRow \<Rightarrow> ('m, unit) op"
  s_ListSubnetSNMP :: "string \<Rightarrow> ('m, SubnetSNMP list) op"
  s_LegacySNMPRefCount :: "('m, int) op"
  s_CreateAddress :: "env \<Rightarrow> IPAddress \<Rightarrow> ('m, unit) op"
  s_GetAddress :: "string \<Rightarrow> string \<Rightarrow> ('m, IPAddress) op"
  s_FindAddress :: "string \<Rightarrow> string \<Rightarrow> ('m, IPAddress) op"
  s_ListAddresses :: "string \<Rightarrow> AddressFilter \<Rightarrow> ('m, IPAddress list) op"
  s_UpdateAddress :: "env \<Rightarrow> IPAddress \<Rightarrow> ('m, unit) op"
  s_DeleteAddress :: "string \<Rightarrow> string \<Rightarrow> ('m, unit) op"
  s_UpsertAddressByAddress :: "env \<Rightarrow> IPAddress \<Rightarrow> ('m, bool) op"
  s_AddressesForDevice :: "string \<Rightarrow> string \<Rightarrow> ('m, IPAddress list) op"
  s_CreateDevice :: "env \<Rightarrow> Device \<Rightarrow> ('m, unit) op"
  s_GetDevice :: "string \<Rightarrow> string \<Rightarrow> ('m, Device) op"
  s_ListDevices :: "string \<Rightarrow> DeviceFilter \<Rightarrow> ('m, Device list) op"
  s_UpdateDevice :: "env \<Rightarrow> Device \<Rightarrow> ('m, unit) op"
  s_DeleteDevice :: "string \<Rightarrow> string \<Rightarrow> bool \<Rightarrow> ('m, unit) op"
  s_UpsertDeviceByName :: "env \<Rightarrow> Device \<Rightarrow> ('m, Device) op"
  s_GetDeviceHardware :: "string \<Rightarrow> string \<Rightarrow> ('m, DeviceHardware) op"
  s_SetDeviceBMCRef :: "env \<Rightarrow> string \<Rightarrow> string \<Rightarrow> string \<Rightarrow> AuditRow \<Rightarrow> ('m, string) op"
  s_CreateInterface :: "env \<Rightarrow> DeviceInterface \<Rightarrow> ('m, unit) op"
  s_GetInterface :: "string \<Rightarrow> string \<Rightarrow> ('m, DeviceInterface) op"
  s_ListInterfaces :: "string \<Rightarrow> string \<Rightarrow> ('m, DeviceInterface list) op"
  s_UpsertInterfaceByName :: "env \<Rightarrow> DeviceInterface \<Rightarrow> ('m, DeviceInterface) op"
  s_DeleteInterface :: "string \<Rightarrow> string \<Rightarrow> ('m, unit) op"
  s_ReplaceInterfaceLinks :: "env \<Rightarrow> string \<Rightarrow> string \<Rightarrow> DeviceInterfaceLink list \<Rightarrow> ('m, unit) op"
  s_ListInterfaceLinks :: "string \<Rightarrow> string \<Rightarrow> ('m, DeviceInterfaceLink list) op"
  s_ReplaceDevicePackages :: "env \<Rightarrow> string \<Rightarrow> string \<Rightarrow> DevicePackage list \<Rightarrow> ('m, unit) op"
  s_ListDevicePackages :: "string \<Rightarrow> string \<Rightarrow> bool option \<Rightarrow> bool option \<Rightarrow> string \<Rightarrow> ('m, DevicePackage list) op"
  s_DeleteDevicePackages :: "string \<Rightarrow> string \<Rightarrow> ('m, unit) op"
  s_CreateVlan :: "env \<Rightarrow> Vlan \<Rightarrow> ('m, unit) op"
  s_GetVlan :: "string \<Rightarrow> string \<Rightarrow> ('m, Vlan) op"
  s_ListVlans :: "string \<Rightarrow> VlanFilter \<Rightarrow> ('m, Vlan list) op"
  s_UpdateVlan :: "env \<Rightarrow> Vlan \<Rightarrow> ('m, unit) op"
  s_DeleteVlan :: "string \<Rightarrow> string \<Rightarrow> bool \<Rightarrow> ('m, unit) op"
  s_CreateLocation :: "env \<Rightarrow> Location \<Rightarrow> ('m, unit) op"
  s_GetLocation :: "string \<Rightarrow> string \<Rightarrow> ('m, Location) op"
  s_ListLocations :: "string \<Rightarrow> LocationFilter \<Rightarrow> ('m, Location list) op"
  s_UpdateLocation :: "env \<Rightarrow> Location \<Rightarrow> ('m, unit) op"
  s_DeleteLocation :: "string \<Rightarrow> string \<Rightarrow> bool \<Rightarrow> ('m, unit) op"
  s_CreateIPGroup :: "env \<Rightarrow> IPGroup \<Rightarrow> ('m, unit) op"
  s_GetIPGroup :: "string \<Rightarrow> string \<Rightarrow> ('m, IPGroup) op"
  s_ListIPGroups :: "string \<Rightarrow> int \<Rightarrow> string \<Rightarrow> ('m, IPGroup list) op"
  s_UpdateIPGroup :: "env \<Rightarrow> IPGroup \<Rightarrow> ('m, unit) op"
  s_DeleteIPGroup :: "string \<Rightarrow> string \<Rightarrow> ('m, unit) op"
  s_AddIPGroupMember :: "env \<Rightarrow> IPGroupMember \<Rightarrow> ('m, unit) op"
  s_RemoveIPGroupMember :: "string \<Rightarrow> string \<Rightarrow> ('m, unit) op"
  s_UpdateIPGroupMember :: "IPGroupMember \<Rightarrow> ('m, unit) op"
  s_ListIPGroupMembers :: "string \<Rightarrow> string \<Rightarrow> ('m, IPGroupMember list) op"
  s_AllIPGroupsWithMembers :: "string \<Rightarrow> string list \<Rightarrow> ('m, IPGroup list \<times> IPGroupMember list tbl) op"
  s_CreateHostGroup :: "env \<Rightarrow> HostGroup \<Rightarrow> ('m, unit) op"
  s_GetHostGroup :: "string \<Rightarrow> string \<Rightarrow> ('m, HostGroup) op"
  s_ListHostGroups :: "string \<Rightarrow> int \<Rightarrow> string \<Rightarrow> ('m, HostGroup list) op"
  s_UpdateHostGroup :: "env \<Rightarrow> HostGroup \<Rightarrow> ('m, unit) op"
  s_DeleteHostGroup :: "string \<Rightarrow> string \<Rightarrow> ('m, unit) op"
  s_AddHostGroupMember :: "env \<Rightarrow> HostGroupMember \<Rightarrow> ('m, unit) op"
  s_RemoveHostGroupMember :: "string \<Rightarrow> string \<Rightarrow> ('m, unit) op"
  s_UpdateHostGroupMember :: "HostGroupMember \<Rightarrow> ('m, unit) op"
  s_ListHostGroupMembers :: "string \<Rightarrow> string \<Rightarrow> ('m, HostGroupMember list) op"
  s_ListDeviceHostGroups :: "string \<Rightarrow> string \<Rightarrow> ('m, HostGroup list) op"
  s_CreateScanJob :: "env \<Rightarrow> IPScanJob \<Rightarrow> ('m, unit) op"
  s_GetScanJob :: "string \<Rightarrow> string \<Rightarrow> ('m, IPScanJob) op"
  s_ListScanJobs :: "string \<Rightarrow> ScanFilter \<Rightarrow> ('m, IPScanJob list) op"
  s_UpdateScanJob :: "env \<Rightarrow> IPScanJob \<Rightarrow> ('m, unit) op"
  s_ClaimDueScanJobs :: "env \<Rightarrow> time \<Rightarrow> int \<Rightarrow> ('m, IPScanJob list) op"
  s_ActiveScanForSubnet :: "string \<Rightarrow> string \<Rightarrow> ('m, bool) op"
  s_GetDNSConfig :: "string \<Rightarrow> ('m, DNSConfig) op"
  s_UpsertDNSConfig :: "env \<Rightarrow> DNSConfig \<Rightarrow> ('m, unit) op"
  s_TenantStats :: "string \<Rightarrow> ('m, Stats) op"
  s_TenantIDs :: "('m, string list) op"
  s_AppendAudit :: "env \<Rightarrow> AuditRow \<Rightarrow> ('m, unit) op"
  s_GetARPSettings :: "string \<Rightarrow> ('m, ARPSettings) op"
  s_PutARPSettings :: "env \<Rightarrow> ARPSettings \<Rightarrow> AuditRow \<Rightarrow> ('m, unit) op"
  s_NetworkMACs :: "string \<Rightarrow> ('m, string list) op"
  s_ApplyARP :: "env \<Rightarrow> string \<Rightarrow> ARPOp list \<Rightarrow> AuditRow list \<Rightarrow> ('m, unit) op"
  s_PortLinkData :: "string \<Rightarrow> ('m, PortLinkData) op"
  s_SetInterfaceLinks :: "env \<Rightarrow> string \<Rightarrow> DeviceInterface list \<Rightarrow> AuditRow list \<Rightarrow> ('m, unit) op"
  s_SetAddressLinks :: "env \<Rightarrow> string \<Rightarrow> IPAddress list \<Rightarrow> AuditRow list \<Rightarrow> ('m, unit) op"
  s_EnsureHostSyncSettings :: "env \<Rightarrow> string \<Rightarrow> ('m, HostSyncSettings) op"
  s_GetHostSyncSettings :: "string \<Rightarrow> ('m, HostSyncSettings) op"
  s_UpdateHostSyncSettings :: "env \<Rightarrow> HostSyncSettings \<Rightarrow> AuditRow \<Rightarrow> ('m, unit) op"
  s_RequestReconcile :: "env \<Rightarrow> string \<Rightarrow> AuditRow \<Rightarrow> ('m, unit) op"
  s_ListHostSyncSettings :: "('m, HostSyncSettings list) op"
  s_SaveHostSyncState :: "env \<Rightarrow> string \<Rightarrow> HostSyncStatus \<Rightarrow> ('m, unit) op"
  s_ApplyHostReport :: "env \<Rightarrow> string \<Rightarrow> ('m, unit) op \<Rightarrow> ('m, unit) op"
  s_HostDevices :: "string \<Rightarrow> ('m, Device list) op"
  s_GetHostSyncDeviceState :: "string \<Rightarrow> string \<Rightarrow> ('m, HostSyncDeviceState) op"
  s_HostSyncCounts :: "string \<Rightarrow> ('m, int \<times> int) op"
  s_ListGuests :: "string \<Rightarrow> string \<Rightarrow> ('m, HypervisorGuest list) op"
  s_ClearAddressConflict :: "env \<Rightarrow> string \<Rightarrow> string \<Rightarrow> AuditRow \<Rightarrow> ('m, IPAddress) op"

end
