(* ===== verification/Contracts.thy ===== *)
theory Contracts
  imports Repo
begin

text \<open>
  The contracts the services rely on, one locale per group of repository methods: the operations
  of a store, an abstraction of its state and the laws a provider promises. The in-memory
  repository is shown to satisfy them in \<open>Memstore_Contracts\<close>; the services prove their
  lemmas inside the locales.
\<close>

text \<open>
  The address table as the allocator sees it. \<open>recorded m t x\<close>: tenant \<open>t\<close> has a row
  whose address is the text \<open>x\<close>. \<open>fresh e m\<close>: the identifiers still to be drawn are
  unused and distinct.
\<close>

locale address_store =
  fixes st :: "'m Store"
    and inv :: "'m \<Rightarrow> bool"
    and recorded :: "'m \<Rightarrow> string \<Rightarrow> string \<Rightarrow> bool"
    and fresh :: "env \<Rightarrow> 'm \<Rightarrow> bool"
  assumes create_refused: "inv m \<Longrightarrow> s_CreateAddress st e a m = (Inl RepoConflict, m') \<Longrightarrow>
      recorded m (ip_TenantID a) (ip_Address a)"
    and create_error: "inv m \<Longrightarrow> s_CreateAddress st e a m = (Inl err, m') \<Longrightarrow>
      inv m' \<and> recorded m' = recorded m \<and> (\<forall>f. fresh f m \<longrightarrow> fresh f m') \<and>
      err \<noteq> AddressesNoAvailable \<and> err \<noteq> AddressesConflict"
    and create_done: "inv m \<Longrightarrow> ip_ID a = [] \<Longrightarrow> fresh e m \<Longrightarrow>
      s_CreateAddress st e a m = (Inr u, m') \<Longrightarrow>
      inv m' \<and> fresh (env_skip 1 e) m' \<and> \<not> recorded m (ip_TenantID a) (ip_Address a) \<and>
      recorded m' = (\<lambda>t x. recorded m t x \<or> t = ip_TenantID a \<and> x = ip_Address a)"
    and find_recorded: "inv m \<Longrightarrow> recorded m t x \<Longrightarrow>
      \<exists>a. s_FindAddress st t x m = (Inr a, m) \<and> ip_TenantID a = t \<and> ip_Address a = x"
    and allocated_recorded: "inv m \<Longrightarrow> s_ListAllocatedAddresses st t i m = (Inr xs, m') \<Longrightarrow>
      m' = m \<and> (\<forall>x \<in> set xs. recorded m t x)"

text \<open>
  The audit log as the background writer sees it. \<open>log m\<close>: the stored rows, up to the fields
  the store may stamp; \<open>able m\<close>: writes succeed.
\<close>

locale audit_sink =
  fixes app :: "AuditRow \<Rightarrow> ('m, unit) op"
    and log :: "'m \<Rightarrow> 'r list"
    and img :: "AuditRow \<Rightarrow> 'r"
    and able :: "'m \<Rightarrow> bool"
  assumes append_stored: "app r m = (Inr u, m') \<Longrightarrow> log m' = log m @ [img r]"
    and append_able: "able m \<Longrightarrow> \<exists>m'. app r m = (Inr (), m') \<and> able m'"

end
