(* ===== verification/Memstore_Base.thy ===== *)
theory Memstore_Base
  imports Models Ipnet
begin

text \<open>
  \<open>internal/memstore\<close>, the in-memory implementation of the storage contract: its state, error
  injection, the audit log and the helpers its operations share (\<open>memstore.go\<close>,
  \<open>hostsync.go\<close>). Every method takes the store's lock for its whole duration, so a method is
  a function from the state to a result and the next state.
\<close>

section \<open>State\<close>

type_synonym hostKey = "string \<times> string \<times> string"

record Mem =
  m_subnets :: "Subnet tbl"
  m_addrs :: "IPAddress tbl"
  m_devices :: "Device tbl"
  m_ifaces :: "DeviceInterface tbl"
  m_links :: "DeviceInterfaceLink list tbl"
  m_pkgs :: "DevicePackage list tbl"
  m_vlans :: "Vlan tbl"
  m_locs :: "Location tbl"
  m_ipGroups :: "IPGroup tbl"
  m_ipMembers :: "IPGroupMember tbl"
  m_hostGroups :: "HostGroup tbl"
  m_hostMembers :: "HostGroupMember tbl"
  m_scans :: "IPScanJob tbl"
  m_dns :: "DNSConfig tbl"
  m_audit :: "AuditRow list"
  m_guests :: "HypervisorGuest tbl"
  m_hsSettings :: "HostSyncSettings tbl"
  m_devState :: "HostSyncDeviceState tbl"
  m_snmp :: "SubnetSNMP tbl"
  m_arp :: "ARPSettings tbl"
  m_hostLinks :: "(hostKey \<times> HostSwitchLink list) list"
  m_hardware :: "DeviceHardware tbl"
  m_failNext :: "string list"

definition New :: Mem where
  "New = \<lparr>m_subnets = [], m_addrs = [], m_devices = [], m_ifaces = [], m_links = [], m_pkgs = [],
     m_vlans = [], m_locs = [], m_ipGroups = [], m_ipMembers = [], m_hostGroups = [], m_hostMembers = [],
     m_scans = [], m_dns = [], m_audit = [], m_guests = [], m_hsSettings = [], m_devState = [],
     m_snmp = [], m_arp = [], m_hostLinks = [], m_hardware = [], m_failNext = []\<rparr>"

section \<open>Error injection\<close>

definition FailNext :: "string \<Rightarrow> Mem \<Rightarrow> Mem" where
  "FailNext mth m = m\<lparr>m_failNext := mth # m_failNext m\<rparr>"

text \<open>An armed method reports its injected failure once.\<close>

definition mfail :: "string \<Rightarrow> Mem \<Rightarrow> (goerr \<times> Mem) option" where
  "mfail mth m = (if mth \<in> set (m_failNext m)
     then Some (InjectedErr mth, m\<lparr>m_failNext := filter (\<lambda>x. x \<noteq> mth) (m_failNext m)\<rparr>) else None)"

definition guarded :: "string \<Rightarrow> (Mem, 'a) op \<Rightarrow> (Mem, 'a) op" where
  "guarded mth body m = (case mfail mth m of
       Some (e, m') \<Rightarrow> (Inl e, m')
     | None \<Rightarrow> body m)"

section \<open>Audit log\<close>

definition appendAuditLocked :: "env \<Rightarrow> AuditRow \<Rightarrow> Mem \<Rightarrow> Mem" where
  "appendAuditLocked e row m = m\<lparr>m_audit := m_audit m @
     [row\<lparr>au_ID := (if au_ID row = [] then env_ids e 0 else au_ID row),
          au_At := (if au_At row = 0 then env_mnow e else au_At row)\<rparr>]\<rparr>"

fun appendAudits :: "env \<Rightarrow> string \<Rightarrow> AuditRow list \<Rightarrow> Mem \<Rightarrow> Mem" where
  "appendAudits e tenantID [] m = m"
| "appendAudits e tenantID (row # rows) m =
     appendAudits (env_skip 1 e) tenantID rows
       (appendAuditLocked e (row\<lparr>au_TenantID := tenantID\<rparr>) m)"

definition AppendAudit :: "env \<Rightarrow> AuditRow \<Rightarrow> (Mem, unit) op" where
  "AppendAudit e row = guarded ''AppendAudit'' (\<lambda>m. (Inr (), appendAuditLocked e row m))"

section \<open>Shared helpers\<close>

definition subnetTotal :: "string \<Rightarrow> int" where
  "subnetTotal cidr = (if cidr = [] then 0 else case ParseCIDR cidr of
       None \<Rightarrow> 0
     | Some (_, ipnet) \<Rightarrow> (case Mask_Size (net_Mask ipnet) of (ones, bits) \<Rightarrow>
         if bits - ones = 0 then 1 else if bits - ones > 62 then 0 else 2 ^ (bits - ones)))"

text \<open>A row of the tenant, or nothing: the lookup every tenant-scoped method starts with.\<close>

definition tenant_row :: "('v \<Rightarrow> string) \<Rightarrow> string \<Rightarrow> string \<Rightarrow> 'v tbl \<Rightarrow> 'v option" where
  "tenant_row ten tenantID k t = (case tget t k of
       None \<Rightarrow> None
     | Some v \<Rightarrow> if ten v = tenantID then Some v else None)"

lemma tenant_row_Some: "tenant_row ten tid k t = Some v \<longleftrightarrow> tget t k = Some v \<and> ten v = tid"
  by (auto simp: tenant_row_def split: option.splits)

section \<open>Generic properties\<close>

lemma guarded_error:
  assumes "mfail mth m = Some (e, m')"
  shows "guarded mth body m = (Inl e, m')"
  using assms by (simp add: guarded_def)

lemma guarded_body: "mfail mth m = None \<Longrightarrow> guarded mth body m = body m"
  by (simp add: guarded_def)

text \<open>A property of the data tables that ignores the armed failures.\<close>

lemma guarded_cases:
  assumes "\<And>e m'. mfail mth m = Some (e, m') \<Longrightarrow> P (Inl e, m')" and "mfail mth m = None \<Longrightarrow> P (body m)"
  shows "P (guarded mth body m)"
  using assms by (auto simp: guarded_def split: option.splits)

lemma mfail_state: "mfail mth m = Some (e, m') \<Longrightarrow> m' = m\<lparr>m_failNext := m_failNext m'\<rparr>"
  by (auto simp: mfail_def split: if_splits)

lemma appendAuditLocked_tables [simp]:
  "m_subnets (appendAuditLocked e r m) = m_subnets m" "m_addrs (appendAuditLocked e r m) = m_addrs m"
  "m_devices (appendAuditLocked e r m) = m_devices m" "m_ifaces (appendAuditLocked e r m) = m_ifaces m"
  "m_links (appendAuditLocked e r m) = m_links m" "m_pkgs (appendAuditLocked e r m) = m_pkgs m"
  "m_vlans (appendAuditLocked e r m) = m_vlans m" "m_locs (appendAuditLocked e r m) = m_locs m"
  "m_ipGroups (appendAuditLocked e r m) = m_ipGroups m" "m_ipMembers (appendAuditLocked e r m) = m_ipMembers m"
  "m_hostGroups (appendAuditLocked e r m) = m_hostGroups m" "m_hostMembers (appendAuditLocked e r m) = m_hostMembers m"
  "m_scans (appendAuditLocked e r m) = m_scans m" "m_dns (appendAuditLocked e r m) = m_dns m"
  "m_guests (appendAuditLocked e r m) = m_guests m" "m_hsSettings (appendAuditLocked e r m) = m_hsSettings m"
  "m_devState (appendAuditLocked e r m) = m_devState m" "m_snmp (appendAuditLocked e r m) = m_snmp m"
  "m_arp (appendAuditLocked e r m) = m_arp m" "m_hostLinks (appendAuditLocked e r m) = m_hostLinks m"
  "m_hardware (appendAuditLocked e r m) = m_hardware m" "m_failNext (appendAuditLocked e r m) = m_failNext m"
  by (simp_all add: appendAuditLocked_def)

lemma appendAudits_tables [simp]:
  "m_subnets (appendAudits e t rs m) = m_subnets m" "m_addrs (appendAudits e t rs m) = m_addrs m"
  "m_devices (appendAudits e t rs m) = m_devices m" "m_ifaces (appendAudits e t rs m) = m_ifaces m"
  "m_scans (appendAudits e t rs m) = m_scans m" "m_snmp (appendAudits e t rs m) = m_snmp m"
  "m_vlans (appendAudits e t rs m) = m_vlans m" "m_locs (appendAudits e t rs m) = m_locs m"
  "m_hostLinks (appendAudits e t rs m) = m_hostLinks m"
  "m_hostGroups (appendAudits e t rs m) = m_hostGroups m" "m_ipGroups (appendAudits e t rs m) = m_ipGroups m"
  "m_ipMembers (appendAudits e t rs m) = m_ipMembers m" "m_hostMembers (appendAudits e t rs m) = m_hostMembers m"
  "m_dns (appendAudits e t rs m) = m_dns m" "m_links (appendAudits e t rs m) = m_links m"
  "m_pkgs (appendAudits e t rs m) = m_pkgs m" "m_guests (appendAudits e t rs m) = m_guests m"
  "m_failNext (appendAudits e t rs m) = m_failNext m"
  by (induction rs arbitrary: e m) simp_all

section \<open>Well-formed tables\<close>

text \<open>
  A table is well formed when no key occurs twice, every row is stored under its own identifier and
  no two rows clash in the given relation, which names the unique columns of the table.
\<close>

definition row_ok :: "('v \<Rightarrow> string) \<Rightarrow> ('v \<Rightarrow> 'v \<Rightarrow> bool) \<Rightarrow> 'v tbl \<Rightarrow> bool" where
  "row_ok idf cl t = (twf t \<and> (\<forall>k v. tget t k = Some v \<longrightarrow> idf v = k) \<and>
     (\<forall>k v k' v'. tget t k = Some v \<longrightarrow> tget t k' = Some v' \<longrightarrow> k \<noteq> k' \<longrightarrow> \<not> cl v v'))"

abbreviation no_clash :: "'v \<Rightarrow> 'v \<Rightarrow> bool" where
  "no_clash \<equiv> \<lambda>_ _. False"

lemma row_ok_empty [simp]: "row_ok idf cl []"
  by (simp add: row_ok_def)

lemma row_ok_twf: "row_ok idf cl t \<Longrightarrow> twf t"
  by (simp add: row_ok_def)

lemma row_ok_id: "row_ok idf cl t \<Longrightarrow> tget t k = Some v \<Longrightarrow> idf v = k"
  by (simp add: row_ok_def)

lemma row_ok_unique: "row_ok idf cl t \<Longrightarrow> tget t k = Some v \<Longrightarrow> tget t k' = Some v' \<Longrightarrow> cl v v' \<Longrightarrow> k = k'"
  unfolding row_ok_def by blast

lemma row_ok_tput:
  assumes "row_ok idf cl t" and "idf v = k"
    and "\<And>k' v'. tget t k' = Some v' \<Longrightarrow> k' \<noteq> k \<Longrightarrow> \<not> cl v v' \<and> \<not> cl v' v"
  shows "row_ok idf cl (tput k v t)"
  using assms by (auto simp: row_ok_def)

text \<open>A row whose unique columns no other row has, as the conflict scan of an insert or an update
  establishes it.\<close>

lemma row_ok_tput_checked:
  assumes "row_ok idf cl t" and "idf v = k" and "\<not> list_ex P (tvals t)"
    and "\<And>v'. idf v' \<noteq> k \<Longrightarrow> cl v v' \<Longrightarrow> P v'" and "\<And>v'. idf v' \<noteq> k \<Longrightarrow> cl v' v \<Longrightarrow> P v'"
  shows "row_ok idf cl (tput k v t)"
proof (rule row_ok_tput [OF assms(1, 2)])
  fix k' v'
  assume v': "tget t k' = Some v'" "k' \<noteq> k"
  then have "\<not> P v'" "idf v' \<noteq> k"
    using assms(3) tget_Some_mem [OF v'(1)] row_ok_id [OF assms(1) v'(1)] by (auto simp: list_ex_iff)
  with assms(4, 5) show "\<not> cl v v' \<and> \<not> cl v' v"
    by blast
qed

text \<open>A rewrite of a stored row that keeps its identifier and its unique columns.\<close>

lemma row_ok_tput_same:
  assumes "row_ok idf cl t" and "tget t k = Some v0" and "idf v = idf v0"
    and "\<And>w. cl v w \<Longrightarrow> cl v0 w" and "\<And>w. cl w v \<Longrightarrow> cl w v0"
  shows "row_ok idf cl (tput k v t)"
proof (rule row_ok_tput [OF assms(1)])
  show "idf v = k"
    using assms(3) row_ok_id [OF assms(1, 2)] by simp
  fix k' v'
  assume v': "tget t k' = Some v'" "k' \<noteq> k"
  show "\<not> cl v v' \<and> \<not> cl v' v"
    using row_ok_unique [OF assms(1, 2) v'(1) assms(4)] row_ok_unique [OF assms(1) v'(1) assms(2) assms(5)]
      v'(2) by blast
qed

lemma row_ok_sub:
  assumes "row_ok idf cl t" and "twf t'" and "\<And>k v. tget t' k = Some v \<Longrightarrow> tget t k = Some v"
  shows "row_ok idf cl t'"
  using assms row_ok_id [OF assms(1)] row_ok_unique [OF assms(1)] unfolding row_ok_def by blast

lemma row_ok_tmap:
  assumes "row_ok idf cl t" and "\<And>v. idf (f v) = idf v" and "\<And>v w. cl (f v) (f w) \<Longrightarrow> cl v w"
  shows "row_ok idf cl (tmap f t)"
  unfolding row_ok_def
proof (intro conjI allI impI)
  show "twf (tmap f t)"
    using assms(1) by (simp add: row_ok_def)
  fix k v k' v'
  assume v: "tget (tmap f t) k = Some v"
  then show "idf v = k"
    using row_ok_id [OF assms(1)] assms(2) by auto
  assume v': "tget (tmap f t) k' = Some v'" and "k \<noteq> k'"
  then obtain w w' where w: "tget t k = Some w" "v = f w" "tget t k' = Some w'" "v' = f w'"
    using v by auto
  show "\<not> cl v v'"
  proof
    assume "cl v v'"
    then have "k = k'"
      unfolding w(2, 4) by (rule row_ok_unique [OF assms(1) w(1, 3) assms(3)])
    with \<open>k \<noteq> k'\<close> show False ..
  qed
qed

lemma row_ok_tdel [intro]: "row_ok idf cl t \<Longrightarrow> row_ok idf cl (tdel k t)"
  by (rule row_ok_sub, assumption) (auto dest: row_ok_twf split: if_splits)

lemma row_ok_fold_tdel [intro]: "row_ok idf cl t \<Longrightarrow> row_ok idf cl (fold tdel ks t)"
  by (induction ks arbitrary: t) auto

lemma row_ok_tdrop [intro]: "row_ok idf cl t \<Longrightarrow> row_ok idf cl (tdrop P t)"
  by (rule row_ok_sub, assumption)
    (auto dest: row_ok_twf simp: tget_tdrop [OF row_ok_twf] split: option.splits if_splits)

lemma guarded_inv:
  assumes "I (m\<lparr>m_failNext := filter (\<lambda>x. x \<noteq> mth) (m_failNext m)\<rparr>)" and "I (snd (body m))"
  shows "I (snd (guarded mth body m))"
  using assms by (auto simp: guarded_def mfail_def)

end
