(* ===== verification/Memstore_Net.thy ===== *)
theory Memstore_Net
  imports Memstore_Base Mac
begin

text \<open>
  Subnets, addresses, SNMP credential rows, ARP application and per-switch host links of the
  in-memory store (\<open>memstore.go\<close>, \<open>snmp.go\<close>, \<open>arp.go\<close>,
  \<open>portlink.go\<close>, and the paged list of addresses of \<open>lists.go\<close>).
\<close>

section \<open>Per-switch host links\<close>

fun normalize_links :: "env \<Rightarrow> HostSwitchLink list \<Rightarrow> HostSwitchLink list" where
  "normalize_links e [] = []"
| "normalize_links e (l # ls) =
     l\<lparr>hl_SwitchName := [], hl_Primary := False,
       hl_LastSeen := (case hl_LastSeen l of None \<Rightarrow> Some (env_mnow e) | Some t \<Rightarrow> Some t)\<rparr>
     # normalize_links e ls"

definition setHostLinksLocked :: "env \<Rightarrow> string \<Rightarrow> string \<Rightarrow> string \<Rightarrow> HostSwitchLink list \<Rightarrow> Mem \<Rightarrow> Mem" where
  "setHostLinksLocked e tenantID kind i links m =
     (if links = [] then m\<lparr>m_hostLinks := tdel (tenantID, kind, i) (m_hostLinks m)\<rparr>
      else m\<lparr>m_hostLinks := tput (tenantID, kind, i) (normalize_links e links) (m_hostLinks m)\<rparr>)"

definition device_name :: "Mem \<Rightarrow> string \<Rightarrow> string" where
  "device_name m i = (case tget (m_devices m) i of None \<Rightarrow> [] | Some d \<Rightarrow> dv_Name d)"

definition link_alive :: "Mem \<Rightarrow> string \<Rightarrow> HostSwitchLink \<Rightarrow> bool" where
  "link_alive m tenantID l = (case tget (m_ifaces m) (hl_PortID l) of
       None \<Rightarrow> False
     | Some p \<Rightarrow> if_TenantID p = tenantID \<and> if_DeviceID p = hl_SwitchID l)"

definition hostLinksLocked :: "Mem \<Rightarrow> string \<Rightarrow> string \<Rightarrow> string \<Rightarrow> string \<Rightarrow> HostSwitchLink list" where
  "hostLinksLocked m tenantID kind i primaryPort =
     (let stored = (case tget (m_hostLinks m) (tenantID, kind, i) of None \<Rightarrow> [] | Some ls \<Rightarrow> ls);
          out = map (\<lambda>l. l\<lparr>hl_SwitchName := device_name m (hl_SwitchID l)\<rparr>)
                  (filter (link_alive m tenantID) stored) in
      if out = [] then [] else MarkPrimary out primaryPort)"

definition linkedToLocked :: "Mem \<Rightarrow> string \<Rightarrow> string \<Rightarrow> string \<Rightarrow> string \<Rightarrow> bool" where
  "linkedToLocked m tenantID kind i portID =
     list_ex (\<lambda>l. hl_PortID l = portID) (hostLinksLocked m tenantID kind i [])"

definition decorateAddrLocked :: "Mem \<Rightarrow> IPAddress \<Rightarrow> IPAddress" where
  "decorateAddrLocked m a = (case ip_Link a of
       None \<Rightarrow> a\<lparr>ip_Links := hostLinksLocked m (ip_TenantID a) HostKindAddress (ip_ID a) []\<rparr>
     | Some l \<Rightarrow>
        a\<lparr>ip_Link := Some (case tget (m_devices m) (al_SwitchID l) of
              None \<Rightarrow> l
            | Some d \<Rightarrow> if dv_TenantID d = ip_TenantID a then l\<lparr>al_SwitchName := dv_Name d\<rparr> else l),
          ip_Links := hostLinksLocked m (ip_TenantID a) HostKindAddress (ip_ID a) (al_PortID l)\<rparr>)"

definition behindAddressesLocked :: "Mem \<Rightarrow> string \<Rightarrow> string \<Rightarrow> BehindAddress list" where
  "behindAddressesLocked m tenantID portID =
     sort_by (\<lambda>x y. ba_Address x < ba_Address y)
       (map (\<lambda>a. \<lparr>ba_AddressID = ip_ID a, ba_Address = ip_Address a, ba_Hostname = ip_Hostname a\<rparr>)
         (filter (\<lambda>a. ip_TenantID a = tenantID \<and>
             ((case ip_Link a of None \<Rightarrow> False | Some l \<Rightarrow> al_PortID l = portID) \<or>
              linkedToLocked m tenantID HostKindAddress (ip_ID a) portID))
           (tvals (m_addrs m))))"

section \<open>Subnets\<close>

definition fillSubnet :: "Mem \<Rightarrow> Subnet \<Rightarrow> Subnet" where
  "fillSubnet m s =
     (let used = tcount (\<lambda>a. ip_TenantID a = sn_TenantID s \<and> ip_SubnetID a = sn_ID s) (m_addrs m);
          total = subnetTotal (sn_CIDR s) in
      s\<lparr>sn_TotalAddresses := total, sn_UsedAddresses := used,
        sn_AvailableAddresses := (if total > 0 then total - used else 0)\<rparr>)"

definition CreateSubnet :: "env \<Rightarrow> Subnet \<Rightarrow> (Mem, unit) op" where
  "CreateSubnet e s = guarded ''CreateSubnet'' (\<lambda>m.
     if list_ex (\<lambda>ex. sn_TenantID ex = sn_TenantID s \<and> sn_Name ex = sn_Name s) (tvals (m_subnets m))
     then (Inl RepoConflict, m)
     else
       (let i = (if sn_ID s = [] then env_ids e 0 else sn_ID s);
            s' = s\<lparr>sn_ID := i,
                   sn_Status := (if sn_Status s = [] then SubnetActive else sn_Status s),
                   sn_IPVersion := (if sn_IPVersion s = 0 then 4 else sn_IPVersion s),
                   sn_Origin := OriginManual,
                   sn_CreatedAt := (if sn_CreatedAt s = 0 then env_mnow e else sn_CreatedAt s),
                   sn_UpdatedAt := env_mnow e\<rparr> in
        (Inr (), m\<lparr>m_subnets := tput i s' (m_subnets m)\<rparr>)))"

definition GetSubnet :: "string \<Rightarrow> string \<Rightarrow> (Mem, Subnet) op" where
  "GetSubnet tenantID i m = (case tenant_row sn_TenantID tenantID i (m_subnets m) of
       None \<Rightarrow> (Inl RepoNotFound, m)
     | Some s \<Rightarrow> (Inr (fillSubnet m s), m))"

definition subnet_matches :: "SubnetFilter \<Rightarrow> Subnet \<Rightarrow> bool" where
  "subnet_matches f s =
     ((sf_VlanID f \<noteq> [] \<longrightarrow> sn_VlanID s = sf_VlanID f) \<and>
      (sf_ParentID f \<noteq> [] \<longrightarrow> sn_ParentID s = sf_ParentID f) \<and>
      (sf_LocationID f \<noteq> [] \<longrightarrow> sn_LocationID s = sf_LocationID f) \<and>
      (sf_Status f \<noteq> [] \<longrightarrow> sn_Status s = sf_Status f) \<and>
      (sf_IPVersion f \<noteq> 0 \<longrightarrow> sn_IPVersion s = sf_IPVersion f) \<and>
      (sf_Query f \<noteq> [] \<longrightarrow> contains_sub (to_lower (sn_Name s)) (to_lower (sf_Query f)) \<or>
         contains_sub (to_lower (sn_CIDR s)) (to_lower (sf_Query f))))"

definition ListSubnets :: "string \<Rightarrow> SubnetFilter \<Rightarrow> (Mem, Subnet list) op" where
  "ListSubnets tenantID f m =
     (Inr (map (fillSubnet m) (paginate sn_ID (sf_CursorID f) (sf_Limit f)
        (filter (\<lambda>s. sn_TenantID s = tenantID \<and> subnet_matches f s) (tvals (m_subnets m))))), m)"

definition UpdateSubnet :: "env \<Rightarrow> Subnet \<Rightarrow> (Mem, unit) op" where
  "UpdateSubnet e s = guarded ''UpdateSubnet'' (\<lambda>m.
     case tenant_row sn_TenantID (sn_TenantID s) (sn_ID s) (m_subnets m) of
       None \<Rightarrow> (Inl RepoNotFound, m)
     | Some ex \<Rightarrow>
        if list_ex (\<lambda>x. sn_ID x \<noteq> sn_ID s \<and> sn_TenantID x = sn_TenantID s \<and> sn_Name x = sn_Name s)
             (tvals (m_subnets m))
        then (Inl RepoConflict, m)
        else (Inr (), m\<lparr>m_subnets := tput (sn_ID s)
               (s\<lparr>sn_CreatedAt := sn_CreatedAt ex, sn_Origin := sn_Origin ex, sn_UpdatedAt := env_mnow e\<rparr>)
               (m_subnets m)\<rparr>))"

definition DeleteSubnet :: "string \<Rightarrow> string \<Rightarrow> bool \<Rightarrow> (Mem, unit) op" where
  "DeleteSubnet tenantID i force = guarded ''DeleteSubnet'' (\<lambda>m.
     case tenant_row sn_TenantID tenantID i (m_subnets m) of
       None \<Rightarrow> (Inl RepoNotFound, m)
     | Some s \<Rightarrow>
        (let addrIDs = map fst (filter (\<lambda>(aid, a). ip_TenantID a = tenantID \<and> ip_SubnetID a = i) (m_addrs m)) in
         if addrIDs \<noteq> [] \<and> \<not> force then (Inl RepoNotEmpty, m)
         else (Inr (), m\<lparr>
           m_addrs := fold tdel addrIDs (m_addrs m),
           m_hostLinks := fold tdel (map (\<lambda>aid. (tenantID, HostKindAddress, aid)) addrIDs) (m_hostLinks m),
           m_scans := tdrop (\<lambda>j. sj_TenantID j = tenantID \<and> sj_SubnetID j = i) (m_scans m),
           m_snmp := tdel i (m_snmp m),
           m_subnets := tdel i (tmap (\<lambda>c. if sn_ParentID c = i then c\<lparr>sn_ParentID := []\<rparr> else c)
             (m_subnets m))\<rparr>)))"

definition CountAddressesInSubnet :: "string \<Rightarrow> string \<Rightarrow> (Mem, int) op" where
  "CountAddressesInSubnet tenantID subnetID m =
     (Inr (tcount (\<lambda>a. ip_TenantID a = tenantID \<and> ip_SubnetID a = subnetID) (m_addrs m)), m)"

definition ListAllocatedAddresses :: "string \<Rightarrow> string \<Rightarrow> (Mem, string list) op" where
  "ListAllocatedAddresses tenantID subnetID m =
     (Inr (sort (map ip_Address (filter (\<lambda>a. ip_TenantID a = tenantID \<and> ip_SubnetID a = subnetID)
        (tvals (m_addrs m))))), m)"

definition SubnetsForVlan :: "string \<Rightarrow> string \<Rightarrow> (Mem, Subnet list) op" where
  "SubnetsForVlan tenantID vlanID m =
     (Inr (paginate sn_ID [] 0 (map (fillSubnet m)
        (filter (\<lambda>s. sn_TenantID s = tenantID \<and> sn_VlanID s = vlanID) (tvals (m_subnets m))))), m)"

definition AllSubnetCIDRs :: "string \<Rightarrow> (Mem, Subnet list) op" where
  "AllSubnetCIDRs tenantID = guarded ''AllSubnetCIDRs'' (\<lambda>m.
     (Inr (paginate sn_ID [] 0 (filter (\<lambda>s. sn_TenantID s = tenantID) (tvals (m_subnets m)))), m))"

section \<open>Addresses\<close>

definition findAddrLocked :: "string \<Rightarrow> string \<Rightarrow> Mem \<Rightarrow> (string \<times> IPAddress) option" where
  "findAddrLocked tenantID address m =
     tfind (\<lambda>a. ip_TenantID a = tenantID \<and> ip_Address a = address) (m_addrs m)"

definition clearAddrServerFields :: "IPAddress \<Rightarrow> IPAddress" where
  "clearAddrServerFields a = a\<lparr>ip_ReportState := [], ip_PreviousDeviceID := [], ip_MovedAt := None,
     ip_MoveCount := 0, ip_MoveWindowStart := None, ip_Conflict := False, ip_Origin := [], ip_Link := None\<rparr>"

definition keepAddrServerFields :: "IPAddress \<Rightarrow> IPAddress \<Rightarrow> IPAddress" where
  "keepAddrServerFields a ex = a\<lparr>ip_ReportState := ip_ReportState ex,
     ip_PreviousDeviceID := ip_PreviousDeviceID ex, ip_MovedAt := ip_MovedAt ex,
     ip_MoveCount := ip_MoveCount ex, ip_MoveWindowStart := ip_MoveWindowStart ex,
     ip_Conflict := ip_Conflict ex, ip_Origin := ip_Origin ex, ip_Link := ip_Link ex\<rparr>"

definition default_addr :: "env \<Rightarrow> IPAddress \<Rightarrow> IPAddress" where
  "default_addr e a = clearAddrServerFields
     (a\<lparr>ip_ID := (if ip_ID a = [] then env_ids e 0 else ip_ID a),
        ip_Status := (if ip_Status a = [] then IPActive else ip_Status a),
        ip_AddressType := (if ip_AddressType a = [] then AddrHost else ip_AddressType a)\<rparr>)"

definition CreateAddress :: "env \<Rightarrow> IPAddress \<Rightarrow> (Mem, unit) op" where
  "CreateAddress e a = guarded ''CreateAddress'' (\<lambda>m.
     case findAddrLocked (ip_TenantID a) (ip_Address a) m of
       Some _ \<Rightarrow> (Inl RepoConflict, m)
     | None \<Rightarrow>
        (let a' = (default_addr e a)\<lparr>
               ip_CreatedAt := (if ip_CreatedAt a = 0 then env_mnow e else ip_CreatedAt a),
               ip_UpdatedAt := env_mnow e\<rparr> in
         (Inr (), m\<lparr>m_addrs := tput (ip_ID a') a' (m_addrs m)\<rparr>)))"

definition GetAddress :: "string \<Rightarrow> string \<Rightarrow> (Mem, IPAddress) op" where
  "GetAddress tenantID i m = (case tenant_row ip_TenantID tenantID i (m_addrs m) of
       None \<Rightarrow> (Inl RepoNotFound, m)
     | Some a \<Rightarrow> (Inr (decorateAddrLocked m a), m))"

definition FindAddress :: "string \<Rightarrow> string \<Rightarrow> (Mem, IPAddress) op" where
  "FindAddress tenantID address m = (case findAddrLocked tenantID address m of
       None \<Rightarrow> (Inl RepoNotFound, m)
     | Some (_, a) \<Rightarrow> (Inr (decorateAddrLocked m a), m))"

definition address_matches :: "AddressFilter \<Rightarrow> IPAddress \<Rightarrow> bool" where
  "address_matches f a =
     ((af_SubnetID f \<noteq> [] \<longrightarrow> ip_SubnetID a = af_SubnetID f) \<and>
      (af_DeviceID f \<noteq> [] \<longrightarrow> ip_DeviceID a = af_DeviceID f) \<and>
      (af_Status f \<noteq> [] \<longrightarrow> ip_Status a = af_Status f) \<and>
      (af_AddressType f \<noteq> [] \<longrightarrow> ip_AddressType a = af_AddressType f) \<and>
      (af_AddressPrefix f \<noteq> [] \<longrightarrow> has_prefix (ip_Address a) (af_AddressPrefix f)) \<and>
      (af_HostnamePattern f \<noteq> [] \<longrightarrow>
         contains_sub (to_lower (ip_Hostname a)) (to_lower (af_HostnamePattern f))) \<and>
      (af_ReportState f \<noteq> [] \<longrightarrow> ip_ReportState a = af_ReportState f) \<and>
      (case af_Conflict f of None \<Rightarrow> True | Some b \<Rightarrow> ip_Conflict a = b) \<and>
      (af_MAC f \<noteq> [] \<longrightarrow> contains_sub (MACHex (ip_MACAddress a)) (af_MAC f)))"

definition ListAddresses :: "string \<Rightarrow> AddressFilter \<Rightarrow> (Mem, IPAddress list) op" where
  "ListAddresses tenantID f = guarded ''ListAddresses'' (\<lambda>m.
     (Inr (paginate ip_ID (af_CursorID f) (af_Limit f) (map (decorateAddrLocked m)
        (filter (\<lambda>a. ip_TenantID a = tenantID \<and> address_matches f a) (tvals (m_addrs m))))), m))"

text \<open>
  The paged list. \<open>listquery\<close> is outside the repository: a record of the three things the code uses
  of it, the request completed with the defaults of a list specification, the sort by the request's
  field and the window of a page.
\<close>

record ('a, 'r) listquery =
  lq_ListRequest :: "'r \<Rightarrow> 'r"
  lq_SortSlice :: "'a list \<Rightarrow> 'r \<Rightarrow> 'a list"
  lq_Window :: "'a list \<Rightarrow> 'r \<Rightarrow> 'a list \<times> int \<times> 'r"

definition pageOf :: "('a, 'r) listquery \<Rightarrow> 'a list \<Rightarrow> 'r \<Rightarrow> 'a list \<times> int \<times> 'r" where
  "pageOf lq all req = (let req' = lq_ListRequest lq req in lq_Window lq (lq_SortSlice lq all req') req')"

definition PageAddresses ::
  "(IPAddress, 'r) listquery \<Rightarrow> string \<Rightarrow> AddressFilter \<Rightarrow> 'r \<Rightarrow> (Mem, IPAddress list \<times> int \<times> 'r) op" where
  "PageAddresses lq tenantID f req = guarded ''PageAddresses''
     (bind_op (ListAddresses tenantID (f\<lparr>af_CursorID := [], af_Limit := 0\<rparr>)) (\<lambda>all m. (Inr (pageOf lq all req), m)))"

definition UpdateAddress :: "env \<Rightarrow> IPAddress \<Rightarrow> (Mem, unit) op" where
  "UpdateAddress e a = guarded ''UpdateAddress'' (\<lambda>m.
     case tenant_row ip_TenantID (ip_TenantID a) (ip_ID a) (m_addrs m) of
       None \<Rightarrow> (Inl RepoNotFound, m)
     | Some ex \<Rightarrow>
        if ip_Address a \<noteq> ip_Address ex \<and> findAddrLocked (ip_TenantID a) (ip_Address a) m \<noteq> None
        then (Inl RepoConflict, m)
        else (Inr (), m\<lparr>m_addrs := tput (ip_ID a)
               ((keepAddrServerFields (a\<lparr>ip_CreatedAt := ip_CreatedAt ex\<rparr>) ex)\<lparr>ip_UpdatedAt := env_mnow e\<rparr>)
               (m_addrs m)\<rparr>))"

definition DeleteAddress :: "string \<Rightarrow> string \<Rightarrow> (Mem, unit) op" where
  "DeleteAddress tenantID i = guarded ''DeleteAddress'' (\<lambda>m.
     case tenant_row ip_TenantID tenantID i (m_addrs m) of
       None \<Rightarrow> (Inl RepoNotFound, m)
     | Some a \<Rightarrow> (Inr (), m\<lparr>m_addrs := tdel i (m_addrs m),
         m_hostLinks := tdel (tenantID, HostKindAddress, i) (m_hostLinks m)\<rparr>))"

text \<open>What a scan records on an existing row.\<close>

definition observe_addr :: "env \<Rightarrow> IPAddress \<Rightarrow> IPAddress \<Rightarrow> IPAddress" where
  "observe_addr e ex obs =
     (let named = (ip_Hostname obs \<noteq> [] \<and> ip_ReportState ex \<noteq> RepReported) in
      ex\<lparr>ip_Hostname := (if named then ip_Hostname obs else ip_Hostname ex),
         ip_HasReverseDNS := (if named then ip_HasReverseDNS obs else ip_HasReverseDNS ex),
         ip_MACAddress := (if ip_MACAddress obs \<noteq> [] \<and> ip_ReportState ex \<noteq> RepReported
           then ip_MACAddress obs else ip_MACAddress ex),
         ip_Status := (if ip_Status ex = IPOffline \<and> ip_Status obs \<noteq> [] then ip_Status obs else ip_Status ex),
         ip_LastSeen := ip_LastSeen obs,
         ip_UpdatedAt := env_mnow e\<rparr>)"

definition UpsertAddressByAddress :: "env \<Rightarrow> IPAddress \<Rightarrow> (Mem, bool) op" where
  "UpsertAddressByAddress e a = guarded ''UpsertAddressByAddress'' (\<lambda>m.
     case findAddrLocked (ip_TenantID a) (ip_Address a) m of
       Some (i, ex) \<Rightarrow> (Inr False, m\<lparr>m_addrs := tput i (observe_addr e ex a) (m_addrs m)\<rparr>)
     | None \<Rightarrow>
        (let a' = (default_addr e a)\<lparr>ip_CreatedAt := env_mnow e, ip_UpdatedAt := env_mnow e\<rparr> in
         (Inr True, m\<lparr>m_addrs := tput (ip_ID a') a' (m_addrs m)\<rparr>)))"

definition AddressesForDevice :: "string \<Rightarrow> string \<Rightarrow> (Mem, IPAddress list) op" where
  "AddressesForDevice tenantID deviceID = guarded ''AddressesForDevice'' (\<lambda>m.
     (Inr (paginate ip_ID [] 0 (map (decorateAddrLocked m)
        (filter (\<lambda>a. ip_TenantID a = tenantID \<and> ip_DeviceID a = deviceID) (tvals (m_addrs m))))), m))"

section \<open>SNMP credential rows\<close>

definition GetSubnetSNMP :: "string \<Rightarrow> string \<Rightarrow> (Mem, SubnetSNMP) op" where
  "GetSubnetSNMP tenantID subnetID = guarded ''GetSubnetSNMP'' (\<lambda>m.
     case tenant_row sc_TenantID tenantID subnetID (m_snmp m) of
       None \<Rightarrow> (Inl RepoNotFound, m)
     | Some r \<Rightarrow> (Inr r, m))"

definition PutSubnetSNMP :: "env \<Rightarrow> SubnetSNMP \<Rightarrow> AuditRow \<Rightarrow> (Mem, unit) op" where
  "PutSubnetSNMP e row audit = guarded ''PutSubnetSNMP'' (\<lambda>m.
     case tenant_row sn_TenantID (sc_TenantID row) (sc_SubnetID row) (m_subnets m) of
       None \<Rightarrow> (Inl RepoNotFound, m)
     | Some _ \<Rightarrow> (Inr (), appendAuditLocked e audit
         (m\<lparr>m_snmp := tput (sc_SubnetID row) (row\<lparr>sc_UpdatedAt := env_mnow e\<rparr>) (m_snmp m)\<rparr>)))"

definition DeleteSubnetSNMP :: "env \<Rightarrow> string \<Rightarrow> string \<Rightarrow> AuditRow \<Rightarrow> (Mem, unit) op" where
  "DeleteSubnetSNMP e tenantID subnetID audit = guarded ''DeleteSubnetSNMP'' (\<lambda>m.
     case tenant_row sc_TenantID tenantID subnetID (m_snmp m) of
       None \<Rightarrow> (Inl RepoNotFound, m)
     | Some _ \<Rightarrow> (Inr (), appendAuditLocked e audit (m\<lparr>m_snmp := tdel subnetID (m_snmp m)\<rparr>)))"

definition ListSubnetSNMP :: "string \<Rightarrow> (Mem, SubnetSNMP list) op" where
  "ListSubnetSNMP tenantID = guarded ''ListSubnetSNMP'' (\<lambda>m.
     (Inr (sort_by (\<lambda>x y. sc_SubnetID x < sc_SubnetID y)
        (map (\<lambda>r. r\<lparr>sc_Sealed := []\<rparr>) (filter (\<lambda>r. sc_TenantID r = tenantID) (tvals (m_snmp m))))), m))"

definition LegacySNMPRefCount :: "(Mem, int) op" where
  "LegacySNMPRefCount = guarded ''LegacySNMPRefCount'' (\<lambda>m.
     (Inr (tcount (\<lambda>s. sn_SNMPSecretRef s \<noteq> []) (m_subnets m)), m))"

section \<open>ARP\<close>

definition GetARPSettings :: "string \<Rightarrow> (Mem, ARPSettings) op" where
  "GetARPSettings tenantID = guarded ''GetARPSettings'' (\<lambda>m.
     case tget (m_arp m) tenantID of
       None \<Rightarrow> (Inr (DefaultARPSettings tenantID), m)
     | Some s \<Rightarrow> (Inr s, m))"

definition PutARPSettings :: "env \<Rightarrow> ARPSettings \<Rightarrow> AuditRow \<Rightarrow> (Mem, unit) op" where
  "PutARPSettings e s audit = guarded ''PutARPSettings'' (\<lambda>m.
     (Inr (), appendAuditLocked e (audit\<lparr>au_TenantID := as_TenantID s\<rparr>)
       (m\<lparr>m_arp := tput (as_TenantID s) (s\<lparr>as_UpdatedAt := env_mnow e\<rparr>) (m_arp m)\<rparr>)))"

definition networkMACsLocked :: "Mem \<Rightarrow> string \<Rightarrow> string list" where
  "networkMACsLocked m tenantID = remdups (List.map_filter (\<lambda>i.
     case tget (m_devices m) (if_DeviceID i) of
       None \<Rightarrow> None
     | Some d \<Rightarrow> if if_TenantID i \<noteq> tenantID \<or> \<not> IsNetworkDevice (dv_DeviceType d) then None
         else NormalizeMAC (if_MACAddress i)) (tvals (m_ifaces m)))"

definition NetworkMACs :: "string \<Rightarrow> (Mem, string list) op" where
  "NetworkMACs tenantID = guarded ''NetworkMACs'' (\<lambda>m. (Inr (networkMACsLocked m tenantID), m))"

definition arpOwned :: "IPAddress \<Rightarrow> bool" where
  "arpOwned a = (ip_MACAddress a = [] \<or> ip_MACSource a = MACSourceARP)"

definition arp_created :: "env \<Rightarrow> string \<Rightarrow> ARPOp \<Rightarrow> IPAddress" where
  "arp_created e tenantID op = IPAddress0\<lparr>ip_ID := ao_AddressID op, ip_TenantID := tenantID,
     ip_Address := ao_Address op, ip_SubnetID := ao_SubnetID op, ip_MACAddress := ao_MAC op,
     ip_Status := IPActive, ip_AddressType := AddrHost, ip_LastSeen := Some (ao_At op),
     ip_CreatedBy := ''arp'', ip_MACSource := MACSourceARP, ip_MACSourceDeviceID := ao_SourceDeviceID op,
     ip_MACSeenAt := Some (ao_At op), ip_Origin := OriginARP, ip_CreatedAt := env_mnow e,
     ip_UpdatedAt := env_mnow e\<rparr>"

text \<open>The change one operation makes to an existing row, when its guard lets it run.\<close>

definition arp_change :: "ARPOp \<Rightarrow> IPAddress \<Rightarrow> IPAddress option" where
  "arp_change op a =
     (if ao_Kind op = ARPFill \<or> ao_Kind op = ARPUpdate then
        (if \<not> arpOwned a then None
         else Some (a\<lparr>ip_MACAddress := ao_MAC op, ip_MACSource := MACSourceARP,
            ip_MACSourceDeviceID := ao_SourceDeviceID op, ip_MACSeenAt := Some (ao_At op), ip_MACConflict := []\<rparr>))
      else if ao_Kind op = ARPConflict then
        (if arpOwned a then None else Some (a\<lparr>ip_MACConflict := ao_MAC op\<rparr>))
      else if ao_Kind op = ARPClearConflict then
        Some (a\<lparr>ip_MACConflict := [], ip_MACSeenAt := Some (ao_At op)\<rparr>)
      else if ao_Kind op = ARPTouch then
        Some (a\<lparr>ip_MACSeenAt := Some (ao_At op),
          ip_MACSourceDeviceID := (if ip_MACSource a = MACSourceARP then ao_SourceDeviceID op
            else ip_MACSourceDeviceID a)\<rparr>)
      else None)"

definition applyARPOpLocked :: "env \<Rightarrow> string \<Rightarrow> ARPOp \<Rightarrow> Mem \<Rightarrow> bool \<times> Mem" where
  "applyARPOpLocked e tenantID op m =
     (if ao_Kind op = ARPCreate then
        (if findAddrLocked tenantID (ao_Address op) m \<noteq> None \<or>
            tenant_row sn_TenantID tenantID (ao_SubnetID op) (m_subnets m) = None then (False, m)
         else if tget (m_addrs m) (ao_AddressID op) \<noteq> None then (False, m)
         else (True, m\<lparr>m_addrs := tput (ao_AddressID op) (arp_created e tenantID op) (m_addrs m)\<rparr>))
      else case tenant_row ip_TenantID tenantID (ao_AddressID op) (m_addrs m) of
        None \<Rightarrow> (False, m)
      | Some a \<Rightarrow> (case arp_change op a of
          None \<Rightarrow> (False, m)
        | Some a' \<Rightarrow> (True, m\<lparr>m_addrs := tput (ip_ID a) (a'\<lparr>ip_UpdatedAt := env_mnow e\<rparr>) (m_addrs m)\<rparr>)))"

fun applyARPOps :: "env \<Rightarrow> string \<Rightarrow> ARPOp list \<Rightarrow> Mem \<Rightarrow> Mem" where
  "applyARPOps e tenantID [] m = m"
| "applyARPOps e tenantID (op # ops) m = (case applyARPOpLocked e tenantID op m of
     (False, m') \<Rightarrow> applyARPOps e tenantID ops m'
   | (True, m') \<Rightarrow> applyARPOps (env_skip (length (ao_Audit op)) e) tenantID ops
       (appendAudits e tenantID (ao_Audit op) m'))"

definition ApplyARP :: "env \<Rightarrow> string \<Rightarrow> ARPOp list \<Rightarrow> AuditRow list \<Rightarrow> (Mem, unit) op" where
  "ApplyARP e tenantID ops summary = guarded ''ApplyARP'' (\<lambda>m.
     (Inr (), appendAudits (env_skip (sum_list (map (\<lambda>o'. length (ao_Audit o')) ops)) e) tenantID summary
       (applyARPOps e tenantID ops m)))"

section \<open>Address links\<close>

definition set_address_link :: "env \<Rightarrow> string \<Rightarrow> IPAddress \<Rightarrow> Mem \<Rightarrow> Mem" where
  "set_address_link e tenantID a m =
     (let m1 = setHostLinksLocked e tenantID HostKindAddress (ip_ID a) (ip_Links a) m in
      case tget (m_addrs m1) (ip_ID a) of
        None \<Rightarrow> m1
      | Some cur \<Rightarrow> m1\<lparr>m_addrs := tput (ip_ID a)
          (cur\<lparr>ip_Link := map_option (\<lambda>l. l\<lparr>al_SwitchName := []\<rparr>) (ip_Link a), ip_UpdatedAt := env_mnow e\<rparr>)
          (m_addrs m1)\<rparr>)"

definition SetAddressLinks :: "env \<Rightarrow> string \<Rightarrow> IPAddress list \<Rightarrow> AuditRow list \<Rightarrow> (Mem, unit) op" where
  "SetAddressLinks e tenantID addrs audit = guarded ''SetAddressLinks'' (\<lambda>m.
     if list_ex (\<lambda>a. tenant_row ip_TenantID tenantID (ip_ID a) (m_addrs m) = None) addrs
     then (Inl RepoNotFound, m)
     else (Inr (), appendAudits e tenantID audit (fold (set_address_link e tenantID) addrs m)))"

end
