(* ===== verification/Memstore_Dev.thy ===== *)
theory Memstore_Dev
  imports Memstore_Net Repo
begin

text \<open>
  Devices, interfaces, links, packages and the switch-port correlation data of the in-memory store
  (\<open>memstore.go\<close>, \<open>bmc.go\<close>, \<open>portlink.go\<close> and the device part of
  \<open>hostsync.go\<close>).
\<close>

section \<open>Devices\<close>

definition pkgs_of :: "Mem \<Rightarrow> string \<Rightarrow> DevicePackage list" where
  "pkgs_of m deviceID = (case tget (m_pkgs m) deviceID of None \<Rightarrow> [] | Some ps \<Rightarrow> ps)"

definition fillDevice :: "Mem \<Rightarrow> Device \<Rightarrow> Device" where
  "fillDevice m d = d\<lparr>
     dv_HardwareSummary := (case tenant_row hw_TenantID (dv_TenantID d) (dv_ID d) (m_hardware m) of
         None \<Rightarrow> None
       | Some h \<Rightarrow> Some ((hw_Summary h)\<lparr>hs_ReportedAt := hw_ReportedAt h\<rparr>)),
     dv_GuestCount := tcount (\<lambda>g. gu_TenantID g = dv_TenantID d \<and> gu_HostDeviceID g = dv_ID d) (m_guests m),
     dv_InterfaceCount := tcount (\<lambda>i. if_TenantID i = dv_TenantID d \<and> if_DeviceID i = dv_ID d) (m_ifaces m),
     dv_AddressCount := tcount (\<lambda>a. ip_TenantID a = dv_TenantID d \<and> ip_DeviceID a = dv_ID d) (m_addrs m),
     dv_PackageUpdateCount := int (length (filter (\<lambda>p. pk_TenantID p = dv_TenantID d \<and> pk_NeedsUpdate p)
       (pkgs_of m (dv_ID d)))),
     dv_SecurityUpdateCount := int (length (filter (\<lambda>p. pk_TenantID p = dv_TenantID d \<and> pk_IsSecurityUpdate p)
       (pkgs_of m (dv_ID d))))\<rparr>"

definition overlay :: "string \<Rightarrow> string \<Rightarrow> string" where
  "overlay d s = (if s \<noteq> [] then s else d)"

definition mergeDevice :: "Device \<Rightarrow> Device \<Rightarrow> Device" where
  "mergeDevice dst src = dst\<lparr>
     dv_Name := overlay (dv_Name dst) (dv_Name src),
     dv_DeviceType := overlay (dv_DeviceType dst) (dv_DeviceType src),
     dv_Description := overlay (dv_Description dst) (dv_Description src),
     dv_Manufacturer := overlay (dv_Manufacturer dst) (dv_Manufacturer src),
     dv_Model := overlay (dv_Model dst) (dv_Model src),
     dv_SerialNumber := overlay (dv_SerialNumber dst) (dv_SerialNumber src),
     dv_AssetTag := overlay (dv_AssetTag dst) (dv_AssetTag src),
     dv_LocationID := overlay (dv_LocationID dst) (dv_LocationID src),
     dv_RackID := overlay (dv_RackID dst) (dv_RackID src),
     dv_Status := overlay (dv_Status dst) (dv_Status src),
     dv_PrimaryIP := overlay (dv_PrimaryIP dst) (dv_PrimaryIP src),
     dv_PrimaryIPv6 := overlay (dv_PrimaryIPv6 dst) (dv_PrimaryIPv6 src),
     dv_ManagementIP := overlay (dv_ManagementIP dst) (dv_ManagementIP src),
     dv_OSType := overlay (dv_OSType dst) (dv_OSType src),
     dv_OSVersion := overlay (dv_OSVersion dst) (dv_OSVersion src),
     dv_FirmwareVersion := overlay (dv_FirmwareVersion dst) (dv_FirmwareVersion src),
     dv_Contact := overlay (dv_Contact dst) (dv_Contact src),
     dv_IPMISecretRef := overlay (dv_IPMISecretRef dst) (dv_IPMISecretRef src),
     dv_RackPosition := (if dv_RackPosition src \<noteq> 0 then dv_RackPosition src else dv_RackPosition dst),
     dv_DeviceHeightU := (if dv_DeviceHeightU src \<noteq> 0 then dv_DeviceHeightU src else dv_DeviceHeightU dst),
     dv_LastSeen := (case dv_LastSeen src of None \<Rightarrow> dv_LastSeen dst | Some t \<Rightarrow> Some t),
     dv_Tags := (case dv_Tags src of None \<Rightarrow> dv_Tags dst | Some t \<Rightarrow> Some t),
     dv_RebootRequired := dv_RebootRequired src,
     dv_UnattendedUpgrades := dv_UnattendedUpgrades src\<rparr>"

definition keepDeviceServerFields :: "Device \<Rightarrow> Device \<Rightarrow> Device" where
  "keepDeviceServerFields d ex = d\<lparr>
     dv_Source := dv_Source ex, dv_InventoryHostID := dv_InventoryHostID ex,
     dv_VirtualizationKind := dv_VirtualizationKind ex, dv_HypervisorDeviceID := dv_HypervisorDeviceID ex,
     dv_UpdateStatus := dv_UpdateStatus ex, dv_ReportState := dv_ReportState ex,
     dv_LastReportAt := dv_LastReportAt ex, dv_ReportDigest := dv_ReportDigest ex\<rparr>"

definition default_device :: "env \<Rightarrow> string \<Rightarrow> Device \<Rightarrow> Device" where
  "default_device e source d = keepDeviceServerFields
     (d\<lparr>dv_ID := (if dv_ID d = [] then env_ids e 0 else dv_ID d),
        dv_Status := (if dv_Status d = [] then DevStActive else dv_Status d),
        dv_DeviceType := (if dv_DeviceType d = [] then DevOther else dv_DeviceType d)\<rparr>)
     (Device0\<lparr>dv_Source := source, dv_UpdateStatus := UpdUnknown\<rparr>)"

definition CreateDevice :: "env \<Rightarrow> Device \<Rightarrow> (Mem, unit) op" where
  "CreateDevice e d = guarded ''CreateDevice'' (\<lambda>m.
     if list_ex (\<lambda>ex. dv_TenantID ex = dv_TenantID d \<and> dv_Name ex = dv_Name d) (tvals (m_devices m))
     then (Inl RepoConflict, m)
     else
       (let d' = (default_device e SrcManual d)\<lparr>
              dv_CreatedAt := (if dv_CreatedAt d = 0 then env_mnow e else dv_CreatedAt d),
              dv_UpdatedAt := env_mnow e\<rparr> in
        (Inr (), m\<lparr>m_devices := tput (dv_ID d') d' (m_devices m)\<rparr>)))"

definition GetDevice :: "string \<Rightarrow> string \<Rightarrow> (Mem, Device) op" where
  "GetDevice tenantID i m = (case tenant_row dv_TenantID tenantID i (m_devices m) of
       None \<Rightarrow> (Inl RepoNotFound, m)
     | Some d \<Rightarrow> (Inr (fillDevice m d), m))"

definition device_matches :: "Mem \<Rightarrow> DeviceFilter \<Rightarrow> Device \<Rightarrow> bool" where
  "device_matches m f d =
     ((df_DeviceType f \<noteq> [] \<longrightarrow> dv_DeviceType d = df_DeviceType f) \<and>
      (df_Status f \<noteq> [] \<longrightarrow> dv_Status d = df_Status f) \<and>
      (df_LocationID f \<noteq> [] \<longrightarrow> dv_LocationID d = df_LocationID f) \<and>
      (df_Manufacturer f \<noteq> [] \<longrightarrow> dv_Manufacturer d = df_Manufacturer f) \<and>
      (df_RackID f \<noteq> [] \<longrightarrow> dv_RackID d = df_RackID f) \<and>
      (df_Source f \<noteq> [] \<longrightarrow> dv_Source d = df_Source f) \<and>
      (df_ReportState f \<noteq> [] \<longrightarrow> dv_ReportState d = df_ReportState f) \<and>
      (df_Query f \<noteq> [] \<longrightarrow> contains_sub (to_lower (dv_Name d)) (to_lower (df_Query f)) \<or>
         contains_sub (to_lower (dv_PrimaryIP d)) (to_lower (df_Query f))) \<and>
      (df_HasHardware f = ''true'' \<longrightarrow> tget (m_hardware m) (dv_ID d) \<noteq> None) \<and>
      (df_HasHardware f = ''false'' \<longrightarrow> tget (m_hardware m) (dv_ID d) = None))"

definition ListDevices :: "string \<Rightarrow> DeviceFilter \<Rightarrow> (Mem, Device list) op" where
  "ListDevices tenantID f m =
     (Inr (map (fillDevice m) (paginate dv_ID (df_CursorID f) (df_Limit f)
        (filter (\<lambda>d. dv_TenantID d = tenantID \<and> device_matches m f d) (tvals (m_devices m))))), m)"

definition UpdateDevice :: "env \<Rightarrow> Device \<Rightarrow> (Mem, unit) op" where
  "UpdateDevice e d = guarded ''UpdateDevice'' (\<lambda>m.
     case tenant_row dv_TenantID (dv_TenantID d) (dv_ID d) (m_devices m) of
       None \<Rightarrow> (Inl RepoNotFound, m)
     | Some ex \<Rightarrow>
        if list_ex (\<lambda>x. dv_ID x \<noteq> dv_ID d \<and> dv_TenantID x = dv_TenantID d \<and> dv_Name x = dv_Name d)
             (tvals (m_devices m))
        then (Inl RepoConflict, m)
        else (Inr (), m\<lparr>m_devices := tput (dv_ID d)
               ((keepDeviceServerFields (d\<lparr>dv_CreatedAt := dv_CreatedAt ex\<rparr>) ex)\<lparr>dv_UpdatedAt := env_mnow e\<rparr>)
               (m_devices m)\<rparr>))"

definition deleteDeviceHostSyncLocked :: "string \<Rightarrow> Mem \<Rightarrow> Mem" where
  "deleteDeviceHostSyncLocked i m = m\<lparr>
     m_devState := tdel i (m_devState m),
     m_hardware := tdel i (m_hardware m),
     m_guests := tmap (\<lambda>g. if gu_GuestDeviceID g = i then g\<lparr>gu_GuestDeviceID := []\<rparr> else g)
       (tdrop (\<lambda>g. gu_HostDeviceID g = i) (m_guests m)),
     m_devices := tmap (\<lambda>d. if dv_HypervisorDeviceID d = i then d\<lparr>dv_HypervisorDeviceID := []\<rparr> else d)
       (m_devices m)\<rparr>"

definition DeleteDevice :: "string \<Rightarrow> string \<Rightarrow> bool \<Rightarrow> (Mem, unit) op" where
  "DeleteDevice tenantID i force = guarded ''DeleteDevice'' (\<lambda>m.
     case tenant_row dv_TenantID tenantID i (m_devices m) of
       None \<Rightarrow> (Inl RepoNotFound, m)
     | Some d \<Rightarrow>
        (let ifaceIDs = map fst (filter (\<lambda>(iid, x). if_TenantID x = tenantID \<and> if_DeviceID x = i) (m_ifaces m));
             boundAddrs = tcount (\<lambda>a. ip_TenantID a = tenantID \<and> ip_DeviceID a = i) (m_addrs m) in
         if (ifaceIDs \<noteq> [] \<or> boundAddrs > 0) \<and> \<not> force then (Inl RepoNotEmpty, m)
         else
           (let m1 = deleteDeviceHostSyncLocked i (m\<lparr>
                  m_ifaces := fold tdel ifaceIDs (m_ifaces m),
                  m_links := fold tdel ifaceIDs (m_links m),
                  m_hostLinks := fold tdel (map (\<lambda>iid. (tenantID, HostKindInterface, iid)) ifaceIDs) (m_hostLinks m),
                  m_pkgs := tdel i (m_pkgs m)\<rparr>) in
            (Inr (), m1\<lparr>
               m_addrs := tmap (\<lambda>a. if ip_TenantID a = tenantID \<and> ip_DeviceID a = i
                 then a\<lparr>ip_DeviceID := []\<rparr> else a) (m_addrs m1),
               m_hostMembers := tdrop (\<lambda>h. hm_TenantID h = tenantID \<and> hm_DeviceID h = i) (m_hostMembers m1),
               m_devices := tdel i (m_devices m1)\<rparr>))))"

text \<open>The row a scan's observation leaves on an existing device.\<close>

definition scan_merge :: "env \<Rightarrow> string \<Rightarrow> Device \<Rightarrow> Device \<Rightarrow> Device" where
  "scan_merge e i ex d =
     (let merged = (if dv_Source ex = SrcHostReport then FillEmptyDevice ex d else mergeDevice ex d) in
      (keepDeviceServerFields (merged\<lparr>dv_ID := i, dv_TenantID := dv_TenantID ex\<rparr>) ex)\<lparr>
        dv_CreatedAt := dv_CreatedAt ex, dv_UpdatedAt := env_mnow e\<rparr>)"

definition UpsertDeviceByName :: "env \<Rightarrow> Device \<Rightarrow> (Mem, Device) op" where
  "UpsertDeviceByName e d = guarded ''UpsertDeviceByName'' (\<lambda>m.
     case tfind (\<lambda>ex. dv_TenantID ex = dv_TenantID d \<and> dv_Name ex = dv_Name d) (m_devices m) of
       Some (i, ex) \<Rightarrow>
        (let merged = scan_merge e i ex d;
             m' = m\<lparr>m_devices := tput i merged (m_devices m)\<rparr> in
         (Inr (fillDevice m' merged), m'))
     | None \<Rightarrow>
        (let d' = (default_device e SrcScan d)\<lparr>dv_CreatedAt := env_mnow e, dv_UpdatedAt := env_mnow e\<rparr>;
             m' = m\<lparr>m_devices := tput (dv_ID d') d' (m_devices m)\<rparr> in
         (Inr (fillDevice m' d'), m')))"

definition GetDeviceHardware :: "string \<Rightarrow> string \<Rightarrow> (Mem, DeviceHardware) op" where
  "GetDeviceHardware tenantID deviceID = guarded ''GetDeviceHardware'' (\<lambda>m.
     case tenant_row hw_TenantID tenantID deviceID (m_hardware m) of
       None \<Rightarrow> (Inl RepoNotFound, m)
     | Some h \<Rightarrow> (Inr h, m))"

definition SetDeviceBMCRef :: "env \<Rightarrow> string \<Rightarrow> string \<Rightarrow> string \<Rightarrow> AuditRow \<Rightarrow> (Mem, string) op" where
  "SetDeviceBMCRef e tenantID deviceID ref audit = guarded ''SetDeviceBMCRef'' (\<lambda>m.
     case tenant_row dv_TenantID tenantID deviceID (m_devices m) of
       None \<Rightarrow> (Inl RepoNotFound, m)
     | Some d \<Rightarrow> (Inr (dv_IPMISecretRef d),
         appendAuditLocked e (audit\<lparr>au_TenantID := tenantID\<rparr>)
           (m\<lparr>m_devices := tput deviceID (d\<lparr>dv_IPMISecretRef := ref, dv_UpdatedAt := env_mnow e\<rparr>)
             (m_devices m)\<rparr>)))"

section \<open>Interfaces and links\<close>

definition CreateInterface :: "env \<Rightarrow> DeviceInterface \<Rightarrow> (Mem, unit) op" where
  "CreateInterface e i = guarded ''CreateInterface'' (\<lambda>m.
     if list_ex (\<lambda>ex. if_DeviceID ex = if_DeviceID i \<and> if_Name ex = if_Name i) (tvals (m_ifaces m))
     then (Inl RepoConflict, m)
     else
       (let i' = i\<lparr>if_ID := (if if_ID i = [] then env_ids e 0 else if_ID i), if_ReportState := [],
                   if_CreatedAt := (if if_CreatedAt i = 0 then env_mnow e else if_CreatedAt i),
                   if_UpdatedAt := env_mnow e\<rparr> in
        (Inr (), m\<lparr>m_ifaces := tput (if_ID i') i' (m_ifaces m)\<rparr>)))"

definition GetInterface :: "string \<Rightarrow> string \<Rightarrow> (Mem, DeviceInterface) op" where
  "GetInterface tenantID i m = (case tenant_row if_TenantID tenantID i (m_ifaces m) of
       None \<Rightarrow> (Inl RepoNotFound, m)
     | Some x \<Rightarrow> (Inr x, m))"

text \<open>The interfaces whose flat or per-switch link names the given port; the last one found is the
  one reported as behind it.\<close>

definition ifaces_behind :: "Mem \<Rightarrow> string \<Rightarrow> DeviceInterface \<Rightarrow> DeviceInterface list" where
  "ifaces_behind m tenantID i = filter (\<lambda>h. if_TenantID h = tenantID \<and>
       (if_RemoteInterfaceID h = if_ID i \<or> linkedToLocked m tenantID HostKindInterface (if_ID h) (if_ID i)))
     (tvals (m_ifaces m))"

definition decorate_iface :: "Mem \<Rightarrow> string \<Rightarrow> DeviceInterface \<Rightarrow> DeviceInterface" where
  "decorate_iface m tenantID i =
     (let i1 = (case tenant_row dv_TenantID tenantID (if_RemoteDeviceID i) (m_devices m) of
            None \<Rightarrow> i
          | Some d \<Rightarrow> i\<lparr>if_RemoteDeviceName := dv_Name d\<rparr>);
          hs = ifaces_behind m tenantID i;
          i2 = (if hs = [] then i1
            else i1\<lparr>if_BehindDeviceID := if_DeviceID (last hs),
                    if_BehindDeviceName := device_name m (if_DeviceID (last hs))\<rparr>) in
      i2\<lparr>if_BehindAddresses := behindAddressesLocked m tenantID (if_ID i),
         if_Links := hostLinksLocked m tenantID HostKindInterface (if_ID i) (if_RemoteInterfaceID i)\<rparr>)"

definition ListInterfaces :: "string \<Rightarrow> string \<Rightarrow> (Mem, DeviceInterface list) op" where
  "ListInterfaces tenantID deviceID m =
     (Inr (paginate if_ID [] 0 (map (decorate_iface m tenantID)
        (filter (\<lambda>i. if_TenantID i = tenantID \<and> if_DeviceID i = deviceID) (tvals (m_ifaces m))))), m)"

definition UpsertInterfaceByName :: "env \<Rightarrow> DeviceInterface \<Rightarrow> (Mem, DeviceInterface) op" where
  "UpsertInterfaceByName e i = guarded ''UpsertInterfaceByName'' (\<lambda>m.
     case tfind (\<lambda>ex. if_DeviceID ex = if_DeviceID i \<and> if_Name ex = if_Name i) (m_ifaces m) of
       Some (k, ex) \<Rightarrow>
        (let i' = i\<lparr>if_ID := k, if_CreatedAt := if_CreatedAt ex, if_ReportState := if_ReportState ex,
                    if_UpdatedAt := env_mnow e\<rparr> in
         (Inr i', m\<lparr>m_ifaces := tput k i' (m_ifaces m)\<rparr>))
     | None \<Rightarrow>
        (let i' = i\<lparr>if_ID := (if if_ID i = [] then env_ids e 0 else if_ID i),
                    if_CreatedAt := env_mnow e, if_UpdatedAt := env_mnow e\<rparr> in
         (Inr i', m\<lparr>m_ifaces := tput (if_ID i') i' (m_ifaces m)\<rparr>)))"

definition DeleteInterface :: "string \<Rightarrow> string \<Rightarrow> (Mem, unit) op" where
  "DeleteInterface tenantID i = guarded ''DeleteInterface'' (\<lambda>m.
     case tenant_row if_TenantID tenantID i (m_ifaces m) of
       None \<Rightarrow> (Inl RepoNotFound, m)
     | Some x \<Rightarrow> (Inr (), m\<lparr>m_ifaces := tdel i (m_ifaces m), m_links := tdel i (m_links m),
         m_hostLinks := tdel (tenantID, HostKindInterface, i) (m_hostLinks m)\<rparr>))"

text \<open>The copy loop of the link replacement: a repeated (source, device, port) is a conflict.\<close>

fun copy_links :: "env \<Rightarrow> string \<Rightarrow> string \<Rightarrow> (string \<times> string \<times> string) list \<Rightarrow>
    DeviceInterfaceLink list \<Rightarrow> DeviceInterfaceLink list option" where
  "copy_links e tenantID interfaceID uniq [] = Some []"
| "copy_links e tenantID interfaceID uniq (l # ls) =
     (let k = (il_LinkSource l, il_RemoteDeviceID l, il_RemotePortName l) in
      if k \<in> set uniq then None
      else map_option ((#) (l\<lparr>il_ID := (if il_ID l = [] then env_ids e 0 else il_ID l),
                              il_TenantID := tenantID, il_InterfaceID := interfaceID\<rparr>))
        (copy_links (if il_ID l = [] then env_skip 1 e else e) tenantID interfaceID (k # uniq) ls))"

definition ReplaceInterfaceLinks :: "env \<Rightarrow> string \<Rightarrow> string \<Rightarrow> DeviceInterfaceLink list \<Rightarrow> (Mem, unit) op" where
  "ReplaceInterfaceLinks e tenantID interfaceID links = guarded ''ReplaceInterfaceLinks'' (\<lambda>m.
     case tenant_row if_TenantID tenantID interfaceID (m_ifaces m) of
       None \<Rightarrow> (Inl RepoNotFound, m)
     | Some i \<Rightarrow> (case copy_links e tenantID interfaceID [] links of
         None \<Rightarrow> (Inl RepoConflict, m)
       | Some cp \<Rightarrow> (Inr (), m\<lparr>m_links := tput interfaceID cp (m_links m)\<rparr>)))"

definition links_of :: "Mem \<Rightarrow> string \<Rightarrow> DeviceInterfaceLink list" where
  "links_of m interfaceID = (case tget (m_links m) interfaceID of None \<Rightarrow> [] | Some ls \<Rightarrow> ls)"

definition ListInterfaceLinks :: "string \<Rightarrow> string \<Rightarrow> (Mem, DeviceInterfaceLink list) op" where
  "ListInterfaceLinks tenantID interfaceID m =
     (Inr (sort_by (\<lambda>x y. il_ID x < il_ID y)
        (filter (\<lambda>l. il_TenantID l = tenantID) (links_of m interfaceID))), m)"

section \<open>Packages\<close>

fun copy_packages :: "env \<Rightarrow> string \<Rightarrow> string \<Rightarrow> string list \<Rightarrow> DevicePackage list \<Rightarrow> DevicePackage list option" where
  "copy_packages e tenantID deviceID seen [] = Some []"
| "copy_packages e tenantID deviceID seen (p # ps) =
     (if pk_Name p \<in> set seen then None
      else map_option ((#) (p\<lparr>pk_ID := (if pk_ID p = [] then env_ids e 0 else pk_ID p),
             pk_TenantID := tenantID, pk_DeviceID := deviceID,
             pk_CreatedAt := (if pk_CreatedAt p = 0 then env_mnow e else pk_CreatedAt p),
             pk_UpdatedAt := env_mnow e\<rparr>))
        (copy_packages (if pk_ID p = [] then env_skip 1 e else e) tenantID deviceID (pk_Name p # seen) ps))"

definition ReplaceDevicePackages :: "env \<Rightarrow> string \<Rightarrow> string \<Rightarrow> DevicePackage list \<Rightarrow> (Mem, unit) op" where
  "ReplaceDevicePackages e tenantID deviceID pkgs = guarded ''ReplaceDevicePackages'' (\<lambda>m.
     case copy_packages e tenantID deviceID [] pkgs of
       None \<Rightarrow> (Inl RepoConflict, m)
     | Some cp \<Rightarrow> (Inr (), m\<lparr>m_pkgs := tput deviceID cp (m_pkgs m)\<rparr>))"

definition ListDevicePackages :: "string \<Rightarrow> string \<Rightarrow> bool option \<Rightarrow> bool option \<Rightarrow> string \<Rightarrow> (Mem, DevicePackage list) op" where
  "ListDevicePackages tenantID deviceID needsUpdate securityOnly manager m =
     (Inr (sort_by (\<lambda>x y. pk_Name x < pk_Name y)
        (filter (\<lambda>p. pk_TenantID p = tenantID \<and>
             (case needsUpdate of None \<Rightarrow> True | Some b \<Rightarrow> pk_NeedsUpdate p = b) \<and>
             (case securityOnly of None \<Rightarrow> True | Some b \<Rightarrow> pk_IsSecurityUpdate p = b) \<and>
             (manager \<noteq> [] \<longrightarrow> pk_PackageManager p = manager)) (pkgs_of m deviceID))), m)"

definition DeleteDevicePackages :: "string \<Rightarrow> string \<Rightarrow> (Mem, unit) op" where
  "DeleteDevicePackages tenantID deviceID = guarded ''DeleteDevicePackages'' (\<lambda>m.
     (Inr (), m\<lparr>m_pkgs := tdel deviceID (m_pkgs m)\<rparr>))"

section \<open>Switch-port correlation\<close>

definition PortLinkData :: "string \<Rightarrow> (Mem, PortLinkData) op" where
  "PortLinkData tenantID = guarded ''PortLinkData'' (\<lambda>m.
     (let switches = filter (\<lambda>d. dv_TenantID d = tenantID \<and> dv_DeviceType d = DevSwitch) (tvals (m_devices m));
          hosts = filter (\<lambda>d. dv_TenantID d = tenantID \<and> dv_Source d = SrcHostReport) (tvals (m_devices m));
          swi = filter (\<lambda>i. if_TenantID i = tenantID \<and> if_DeviceID i \<in> set (map dv_ID switches))
            (tvals (m_ifaces m)) in
      (Inr \<lparr>pd_Switches = sort_by (\<lambda>x y. dv_ID x < dv_ID y) switches,
            pd_SwitchIfaces = sort_by (\<lambda>x y. if_ID x < if_ID y) swi,
            pd_Links = sort_by (\<lambda>x y. il_ID x < il_ID y) (filter (\<lambda>l. il_TenantID l = tenantID \<and>
                (il_LinkSource l = LinkSNMPFDB \<or> il_LinkSource l = LinkLLDP))
              (concat (map (\<lambda>i. links_of m (if_ID i)) swi))),
            pd_Hosts = sort_by (\<lambda>x y. dv_ID x < dv_ID y) hosts,
            pd_HostIfaces = sort_by (\<lambda>x y. if_ID x < if_ID y)
              (map (\<lambda>i. i\<lparr>if_Links := hostLinksLocked m tenantID HostKindInterface (if_ID i) (if_RemoteInterfaceID i)\<rparr>)
                (filter (\<lambda>i. if_TenantID i = tenantID \<and> if_DeviceID i \<in> set (map dv_ID hosts) \<and>
                    if_ReportState i = RepReported \<and> if_MACAddress i \<noteq> []) (tvals (m_ifaces m)))),
            pd_Addresses = sort_by (\<lambda>x y. ip_ID x < ip_ID y) (map (decorateAddrLocked m)
              (filter (\<lambda>a. ip_TenantID a = tenantID \<and> (ip_MACAddress a \<noteq> [] \<or> ip_Link a \<noteq> None))
                (tvals (m_addrs m)))),
            pd_NetworkMACs = networkMACsLocked m tenantID,
            pd_Guests = sort_by (\<lambda>x y. gu_ID x < gu_ID y)
              (filter (\<lambda>g. gu_TenantID g = tenantID) (tvals (m_guests m)))\<rparr>, m)))"

definition set_iface_link :: "env \<Rightarrow> string \<Rightarrow> DeviceInterface \<Rightarrow> Mem \<Rightarrow> Mem" where
  "set_iface_link e tenantID i m =
     (let m1 = setHostLinksLocked e tenantID HostKindInterface (if_ID i) (if_Links i) m in
      case tget (m_ifaces m1) (if_ID i) of
        None \<Rightarrow> m1
      | Some cur \<Rightarrow> m1\<lparr>m_ifaces := tput (if_ID i)
          (cur\<lparr>if_RemoteDeviceID := if_RemoteDeviceID i, if_RemoteInterfaceID := if_RemoteInterfaceID i,
               if_RemotePortName := if_RemotePortName i, if_LinkSource := if_LinkSource i,
               if_LinkVlan := if_LinkVlan i, if_LinkLastSeen := if_LinkLastSeen i,
               if_UpdatedAt := env_mnow e\<rparr>) (m_ifaces m1)\<rparr>)"

definition SetInterfaceLinks :: "env \<Rightarrow> string \<Rightarrow> DeviceInterface list \<Rightarrow> AuditRow list \<Rightarrow> (Mem, unit) op" where
  "SetInterfaceLinks e tenantID ifaces audit = guarded ''SetInterfaceLinks'' (\<lambda>m.
     if list_ex (\<lambda>i. tenant_row if_TenantID tenantID (if_ID i) (m_ifaces m) = None) ifaces
     then (Inl RepoNotFound, m)
     else (Inr (), appendAudits e tenantID audit (fold (set_iface_link e tenantID) ifaces m)))"

end
