(* ===== verification/Exclude.thy ===== *)
theory Exclude
  imports Prelude
begin

text \<open>
  \<open>internal/hostreport/exclude.go\<close>: the interface name patterns a tenant excludes from host
  reports, and the \<open>path.Match\<close> of the standard library they are matched with.
\<close>

definition MaxPatterns :: nat where
  "MaxPatterns = 64"

definition MaxPatternLen :: nat where
  "MaxPatternLen = 64"

definition DefaultExclusions :: "string list" where
  "DefaultExclusions =
     [''docker*'', ''br-*'', ''veth*'', ''virbr*'', ''cni*'', ''flannel*'', ''cali*'', ''weave*'', ''vxlan*'',
      ''kube-*'', ''cilium*'', ''podman*'', ''fwbr*'', ''fwpr*'', ''fwln*'', ''tap*'', ''vnet*'']"

end
