(* ===== verification/Memstore_Host.thy ===== *)
theory Memstore_Host
  imports Memstore_Dev Exclude
begin

text \<open>
  Host synchronisation in the in-memory store (\<open>hostsync.go\<close>): the settings of a tenant, the
  reads the administration uses, and the transaction one host report is applied in. The callback of
  \<open>ApplyHostReport\<close> is an operation on the locked state, composed of the \<open>tx_\<close>
  operations, which are the methods of \<open>memTx\<close>.
\<close>

section \<open>Settings\<close>

definition defaultSettings :: "env \<Rightarrow> string \<Rightarrow> HostSyncSettings" where
  "defaultSettings e tenantID = HostSyncSettings0\<lparr>ss_TenantID := tenantID, ss_Enabled := True,
     ss_FullIntervalMinutes := 60, ss_ExcludedInterfaces := DefaultExclusions, ss_Status := HostSyncOK,
     ss_UpdatedAt := env_mnow e\<rparr>"

definition ensureSettingsLocked :: "env \<Rightarrow> string \<Rightarrow> Mem \<Rightarrow> HostSyncSettings \<times> Mem" where
  "ensureSettingsLocked e tenantID m = (case tget (m_hsSettings m) tenantID of
       Some s \<Rightarrow> (s, m)
     | None \<Rightarrow> (defaultSettings e tenantID,
         m\<lparr>m_hsSettings := tput tenantID (defaultSettings e tenantID) (m_hsSettings m)\<rparr>))"

definition EnsureHostSyncSettings :: "env \<Rightarrow> string \<Rightarrow> (Mem, HostSyncSettings) op" where
  "EnsureHostSyncSettings e tenantID = guarded ''EnsureHostSyncSettings'' (\<lambda>m.
     case ensureSettingsLocked e tenantID m of (s, m') \<Rightarrow> (Inr s, m'))"

definition GetHostSyncSettings :: "string \<Rightarrow> (Mem, HostSyncSettings) op" where
  "GetHostSyncSettings tenantID = guarded ''GetHostSyncSettings'' (\<lambda>m.
     case tget (m_hsSettings m) tenantID of
       None \<Rightarrow> (Inl RepoNotFound, m)
     | Some s \<Rightarrow> (Inr s, m))"

definition edit_settings :: "env \<Rightarrow> HostSyncSettings \<Rightarrow> HostSyncSettings \<Rightarrow> HostSyncSettings" where
  "edit_settings e inp cur = cur\<lparr>
     ss_ReconcileRequested := (if ss_Enabled inp \<and> \<not> ss_Enabled cur then True else ss_ReconcileRequested cur),
     ss_Enabled := ss_Enabled inp, ss_FullIntervalMinutes := ss_FullIntervalMinutes inp,
     ss_ExcludedInterfaces := ss_ExcludedInterfaces inp,
     ss_UpdatedBy := ss_UpdatedBy inp, ss_UpdatedAt := env_mnow e,
     ss_Status := (if \<not> ss_Enabled inp then HostSyncDisabled
       else if ss_Status cur = HostSyncDisabled then HostSyncOK else ss_Status cur)\<rparr>"

definition UpdateHostSyncSettings :: "env \<Rightarrow> HostSyncSettings \<Rightarrow> AuditRow \<Rightarrow> (Mem, unit) op" where
  "UpdateHostSyncSettings e inp audit = guarded ''UpdateHostSyncSettings'' (\<lambda>m.
     case ensureSettingsLocked e (ss_TenantID inp) m of (cur, m') \<Rightarrow>
       (Inr (), appendAuditLocked e audit
         (m'\<lparr>m_hsSettings := tput (ss_TenantID inp) (edit_settings e inp cur) (m_hsSettings m')\<rparr>)))"

definition RequestReconcile :: "env \<Rightarrow> string \<Rightarrow> AuditRow \<Rightarrow> (Mem, unit) op" where
  "RequestReconcile e tenantID audit = guarded ''RequestReconcile'' (\<lambda>m.
     case ensureSettingsLocked e tenantID m of (cur, m') \<Rightarrow>
       (Inr (), appendAuditLocked e audit
         (m'\<lparr>m_hsSettings := tput tenantID (cur\<lparr>ss_ReconcileRequested := True\<rparr>) (m_hsSettings m')\<rparr>)))"

definition ListHostSyncSettings :: "(Mem, HostSyncSettings list) op" where
  "ListHostSyncSettings = guarded ''ListHostSyncSettings'' (\<lambda>m.
     (Inr (sort_by (\<lambda>x y. ss_TenantID x < ss_TenantID y) (tvals (m_hsSettings m))), m))"

definition save_status :: "HostSyncStatus \<Rightarrow> HostSyncSettings \<Rightarrow> HostSyncSettings" where
  "save_status st cur = cur\<lparr>ss_Status := st_Status st, ss_LastError := st_LastError st,
     ss_ChangedSince := (case st_ChangedSince st of None \<Rightarrow> ss_ChangedSince cur | Some t \<Rightarrow> Some t),
     ss_LastPollAt := (case st_LastPollAt st of None \<Rightarrow> ss_LastPollAt cur | Some t \<Rightarrow> Some t),
     ss_LastReconcileAt := (case st_LastReconcileAt st of None \<Rightarrow> ss_LastReconcileAt cur | Some t \<Rightarrow> Some t),
     ss_ReconcileRequested := (if st_ClearReconcile st then False else ss_ReconcileRequested cur),
     ss_HostsReported := st_HostsReported st, ss_HostsFailed := st_HostsFailed st\<rparr>"

definition SaveHostSyncState :: "env \<Rightarrow> string \<Rightarrow> HostSyncStatus \<Rightarrow> (Mem, unit) op" where
  "SaveHostSyncState e tenantID st = guarded ''SaveHostSyncState'' (\<lambda>m.
     case ensureSettingsLocked e tenantID m of (cur, m') \<Rightarrow>
       (Inr (), m'\<lparr>m_hsSettings := tput tenantID (save_status st cur) (m_hsSettings m')\<rparr>))"

section \<open>Reads of the administration\<close>

definition HostDevices :: "string \<Rightarrow> (Mem, Device list) op" where
  "HostDevices tenantID = guarded ''HostDevices'' (\<lambda>m.
     (Inr (sort_by (\<lambda>x y. dv_ID x < dv_ID y)
        (filter (\<lambda>d. dv_TenantID d = tenantID \<and> dv_InventoryHostID d \<noteq> []) (tvals (m_devices m)))), m))"

definition GetHostSyncDeviceState :: "string \<Rightarrow> string \<Rightarrow> (Mem, HostSyncDeviceState) op" where
  "GetHostSyncDeviceState tenantID deviceID m =
     (case tenant_row ds_TenantID tenantID deviceID (m_devState m) of
       None \<Rightarrow> (Inl RepoNotFound, m)
     | Some st \<Rightarrow> (Inr st, m))"

definition HostSyncCounts :: "string \<Rightarrow> (Mem, int \<times> int) op" where
  "HostSyncCounts tenantID = guarded ''HostSyncCounts'' (\<lambda>m.
     (Inr (tcount (\<lambda>d. dv_TenantID d = tenantID \<and> dv_ReportState d = RepNotReported) (m_devices m),
           tcount (\<lambda>a. ip_TenantID a = tenantID \<and> ip_Conflict a) (m_addrs m)), m))"

definition guestsOfLocked :: "Mem \<Rightarrow> string \<Rightarrow> string \<Rightarrow> HypervisorGuest list" where
  "guestsOfLocked m tenantID hostDeviceID = sort_by (\<lambda>x y. gu_GuestRef x < gu_GuestRef y)
     (filter (\<lambda>g. gu_TenantID g = tenantID \<and> gu_HostDeviceID g = hostDeviceID) (tvals (m_guests m)))"

definition ListGuests :: "string \<Rightarrow> string \<Rightarrow> (Mem, HypervisorGuest list) op" where
  "ListGuests tenantID hostDeviceID = guarded ''ListGuests'' (\<lambda>m.
     (Inr (map (\<lambda>g. case tenant_row dv_TenantID tenantID (gu_GuestDeviceID g) (m_devices m) of
           None \<Rightarrow> g
         | Some d \<Rightarrow> g\<lparr>gu_GuestDeviceName := dv_Name d\<rparr>) (guestsOfLocked m tenantID hostDeviceID)), m))"

definition ClearAddressConflict :: "env \<Rightarrow> string \<Rightarrow> string \<Rightarrow> AuditRow \<Rightarrow> (Mem, IPAddress) op" where
  "ClearAddressConflict e tenantID addressID audit = guarded ''ClearAddressConflict'' (\<lambda>m.
     case tenant_row ip_TenantID tenantID addressID (m_addrs m) of
       None \<Rightarrow> (Inl RepoNotFound, m)
     | Some a \<Rightarrow>
        (let a' = a\<lparr>ip_Conflict := False, ip_MoveCount := 0, ip_MoveWindowStart := None,
                    ip_UpdatedAt := env_mnow e\<rparr> in
         (Inr a', appendAuditLocked e audit (m\<lparr>m_addrs := tput addressID a' (m_addrs m)\<rparr>))))"

section \<open>The transaction of one host report\<close>

record memSnapshot =
  snap_devices :: "Device tbl"
  snap_ifaces :: "DeviceInterface tbl"
  snap_addrs :: "IPAddress tbl"
  snap_subnets :: "Subnet tbl"
  snap_pkgs :: "DevicePackage list tbl"
  snap_guests :: "HypervisorGuest tbl"
  snap_devState :: "HostSyncDeviceState tbl"
  snap_hardware :: "DeviceHardware tbl"
  snap_audit :: nat

definition snapshotLocked :: "Mem \<Rightarrow> memSnapshot" where
  "snapshotLocked m = \<lparr>snap_devices = m_devices m, snap_ifaces = m_ifaces m, snap_addrs = m_addrs m,
     snap_subnets = m_subnets m, snap_pkgs = m_pkgs m, snap_guests = m_guests m,
     snap_devState = m_devState m, snap_hardware = m_hardware m, snap_audit = length (m_audit m)\<rparr>"

definition restoreLocked :: "memSnapshot \<Rightarrow> Mem \<Rightarrow> Mem" where
  "restoreLocked s m = m\<lparr>m_devices := snap_devices s, m_ifaces := snap_ifaces s, m_addrs := snap_addrs s,
     m_subnets := snap_subnets s, m_pkgs := snap_pkgs s, m_guests := snap_guests s,
     m_devState := snap_devState s, m_audit := take (snap_audit s) (m_audit m),
     m_hardware := snap_hardware s\<rparr>"

definition ApplyHostReport :: "env \<Rightarrow> string \<Rightarrow> (Mem, unit) op \<Rightarrow> (Mem, unit) op" where
  "ApplyHostReport e tenantID fn = guarded ''ApplyHostReport'' (\<lambda>m.
     case ensureSettingsLocked e tenantID m of (s, m1) \<Rightarrow>
       if \<not> ss_Enabled s then (Inl RepoSyncDisabled, m1)
       else case fn m1 of
         (Inl err, m2) \<Rightarrow> (Inl err, restoreLocked (snapshotLocked m1) m2)
       | (Inr u, m2) \<Rightarrow> (Inr u, m2))"

subsection \<open>Reads\<close>

definition tx_DeviceByInventoryHost :: "string \<Rightarrow> string \<Rightarrow> (Mem, Device option) op" where
  "tx_DeviceByInventoryHost tid hostID = guarded ''tx.DeviceByInventoryHost'' (\<lambda>m.
     (Inr (map_option snd (tfind (\<lambda>d. dv_TenantID d = tid \<and> dv_InventoryHostID d \<noteq> [] \<and>
        equal_fold (dv_InventoryHostID d) hostID) (m_devices m))), m))"

definition devicesWhere :: "string \<Rightarrow> (Device \<Rightarrow> bool) \<Rightarrow> Mem \<Rightarrow> Device list" where
  "devicesWhere tid pr m = sort_by (\<lambda>x y. dv_ID x < dv_ID y)
     (filter (\<lambda>d. dv_TenantID d = tid \<and> pr d) (tvals (m_devices m)))"

definition tx_DevicesBySerial :: "string \<Rightarrow> string \<Rightarrow> (Mem, Device list) op" where
  "tx_DevicesBySerial tid serial m =
     (Inr (devicesWhere tid (\<lambda>d. trim_space serial \<noteq> [] \<and>
        equal_fold (trim_space (dv_SerialNumber d)) (trim_space serial)) m), m)"

definition tx_DevicesByNames :: "string \<Rightarrow> string list \<Rightarrow> (Mem, Device list) op" where
  "tx_DevicesByNames tid names m =
     (Inr (devicesWhere tid (\<lambda>d. list_ex (equal_fold (dv_Name d)) names) m), m)"

definition tx_Interfaces :: "string \<Rightarrow> string \<Rightarrow> (Mem, DeviceInterface list) op" where
  "tx_Interfaces tid deviceID m =
     (Inr (sort_by (\<lambda>x y. if_Name x < if_Name y)
        (filter (\<lambda>i. if_TenantID i = tid \<and> if_DeviceID i = deviceID) (tvals (m_ifaces m)))), m)"

definition addrsWhere :: "string \<Rightarrow> (IPAddress \<Rightarrow> bool) \<Rightarrow> Mem \<Rightarrow> IPAddress list" where
  "addrsWhere tid pr m = sort_by (\<lambda>x y. ip_Address x < ip_Address y)
     (filter (\<lambda>a. ip_TenantID a = tid \<and> pr a) (tvals (m_addrs m)))"

definition tx_AddressesByValue :: "string \<Rightarrow> string list \<Rightarrow> (Mem, IPAddress list) op" where
  "tx_AddressesByValue tid addrs m = (Inr (addrsWhere tid (\<lambda>a. ip_Address a \<in> set addrs) m), m)"

definition tx_AddressesOfDevice :: "string \<Rightarrow> string \<Rightarrow> (Mem, IPAddress list) op" where
  "tx_AddressesOfDevice tid deviceID m = (Inr (addrsWhere tid (\<lambda>a. ip_DeviceID a = deviceID) m), m)"

definition tx_Subnets :: "string \<Rightarrow> (Mem, Subnet list) op" where
  "tx_Subnets tid m = (Inr (sort_by (\<lambda>x y. sn_ID x < sn_ID y)
     (filter (\<lambda>s. sn_TenantID s = tid) (tvals (m_subnets m)))), m)"

definition tx_Packages :: "string \<Rightarrow> string \<Rightarrow> (Mem, DevicePackage list) op" where
  "tx_Packages tid deviceID m = (Inr (filter (\<lambda>p. pk_TenantID p = tid) (pkgs_of m deviceID)), m)"

definition tx_Guests :: "string \<Rightarrow> string \<Rightarrow> (Mem, HypervisorGuest list) op" where
  "tx_Guests tid hostDeviceID m = (Inr (guestsOfLocked m tid hostDeviceID), m)"

definition mac_owner_less :: "MACOwner \<Rightarrow> MACOwner \<Rightarrow> bool" where
  "mac_owner_less x y = (if mo_MAC x \<noteq> mo_MAC y then mo_MAC x < mo_MAC y else mo_DeviceID x < mo_DeviceID y)"

definition tx_DevicesByMAC :: "string \<Rightarrow> string list \<Rightarrow> (Mem, MACOwner list) op" where
  "tx_DevicesByMAC tid macs m =
     (Inr (sort_by mac_owner_less (map (\<lambda>i.
        (let d = (case tget (m_devices m) (if_DeviceID i) of None \<Rightarrow> Device0 | Some d \<Rightarrow> d) in
         \<lparr>mo_MAC = to_lower (if_MACAddress i), mo_DeviceID = dv_ID d,
          mo_HypervisorDeviceID = dv_HypervisorDeviceID d\<rparr>))
        (filter (\<lambda>i. if_TenantID i = tid \<and> if_MACAddress i \<noteq> [] \<and> to_lower (if_MACAddress i) \<in> set macs)
          (tvals (m_ifaces m))))), m)"

definition tx_GuestRowsByMAC :: "string \<Rightarrow> string list \<Rightarrow> (Mem, HypervisorGuest list) op" where
  "tx_GuestRowsByMAC tid macs m =
     (Inr (sort_by (\<lambda>x y. gu_ID x < gu_ID y)
        (filter (\<lambda>g. gu_TenantID g = tid \<and> list_ex (\<lambda>mac. mac \<in> set macs) (gu_MACs g)) (tvals (m_guests m)))), m)"

definition tx_GuestDevicesOf :: "string \<Rightarrow> string \<Rightarrow> (Mem, Device list) op" where
  "tx_GuestDevicesOf tid hostDeviceID m =
     (Inr (devicesWhere tid (\<lambda>d. dv_HypervisorDeviceID d = hostDeviceID) m), m)"

definition tx_GetHardware :: "string \<Rightarrow> string \<Rightarrow> (Mem, DeviceHardware option) op" where
  "tx_GetHardware tid deviceID = guarded ''tx.GetHardware'' (\<lambda>m.
     (Inr (tenant_row hw_TenantID tid deviceID (m_hardware m)), m))"

subsection \<open>Writes\<close>

definition nameTaken :: "string \<Rightarrow> string \<Rightarrow> string \<Rightarrow> Mem \<Rightarrow> bool" where
  "nameTaken tid i name m =
     list_ex (\<lambda>d. dv_TenantID d = tid \<and> dv_ID d \<noteq> i \<and> dv_Name d = name) (tvals (m_devices m))"

definition tx_InsertDevice :: "env \<Rightarrow> string \<Rightarrow> Device \<Rightarrow> (Mem, unit) op" where
  "tx_InsertDevice e tid d = guarded ''tx.InsertDevice'' (\<lambda>m.
     if nameTaken tid (dv_ID d) (dv_Name d) m then (Inl RepoConflict, m)
     else if list_ex (\<lambda>x. dv_TenantID x = tid \<and> dv_InventoryHostID d \<noteq> [] \<and>
         dv_InventoryHostID x = dv_InventoryHostID d) (tvals (m_devices m)) then (Inl RepoConflict, m)
     else (Inr (), m\<lparr>m_devices := tput (dv_ID d)
       (d\<lparr>dv_TenantID := tid, dv_CreatedAt := env_mnow e, dv_UpdatedAt := env_mnow e\<rparr>) (m_devices m)\<rparr>))"

definition reported_device :: "env \<Rightarrow> Device \<Rightarrow> Device \<Rightarrow> Device" where
  "reported_device e d cur = cur\<lparr>
     dv_Name := dv_Name d, dv_DeviceType := dv_DeviceType d, dv_VirtualizationKind := dv_VirtualizationKind d,
     dv_OSType := dv_OSType d, dv_OSVersion := dv_OSVersion d, dv_Manufacturer := dv_Manufacturer d,
     dv_Model := dv_Model d, dv_SerialNumber := dv_SerialNumber d,
     dv_PrimaryIP := dv_PrimaryIP d, dv_PrimaryIPv6 := dv_PrimaryIPv6 d, dv_ManagementIP := dv_ManagementIP d,
     dv_RebootRequired := dv_RebootRequired d, dv_UnattendedUpgrades := dv_UnattendedUpgrades d,
     dv_UpdateStatus := dv_UpdateStatus d, dv_LastSeen := dv_LastSeen d, dv_Source := dv_Source d,
     dv_InventoryHostID := dv_InventoryHostID d, dv_ReportState := dv_ReportState d,
     dv_LastReportAt := dv_LastReportAt d, dv_ReportDigest := dv_ReportDigest d,
     dv_UpdatedAt := env_mnow e\<rparr>"

definition tx_UpdateDeviceReported :: "env \<Rightarrow> string \<Rightarrow> Device \<Rightarrow> (Mem, unit) op" where
  "tx_UpdateDeviceReported e tid d = guarded ''tx.UpdateDeviceReported'' (\<lambda>m.
     case tenant_row dv_TenantID tid (dv_ID d) (m_devices m) of
       None \<Rightarrow> (Inl RepoNotFound, m)
     | Some cur \<Rightarrow>
        if nameTaken tid (dv_ID d) (dv_Name d) m then (Inl RepoConflict, m)
        else (Inr (), m\<lparr>m_devices := tput (dv_ID d) (reported_device e d cur) (m_devices m)\<rparr>))"

definition tx_UpsertInterfaceReported :: "env \<Rightarrow> string \<Rightarrow> DeviceInterface \<Rightarrow> bool \<Rightarrow> (Mem, unit) op" where
  "tx_UpsertInterfaceReported e tid i create = guarded ''tx.UpsertInterfaceReported'' (\<lambda>m.
     if create then
       (if list_ex (\<lambda>ex. if_DeviceID ex = if_DeviceID i \<and> if_Name ex = if_Name i) (tvals (m_ifaces m))
        then (Inl RepoConflict, m)
        else (Inr (), m\<lparr>m_ifaces := tput (if_ID i)
          (i\<lparr>if_TenantID := tid, if_CreatedAt := env_mnow e, if_UpdatedAt := env_mnow e\<rparr>) (m_ifaces m)\<rparr>))
     else case tenant_row if_TenantID tid (if_ID i) (m_ifaces m) of
       None \<Rightarrow> (Inl RepoNotFound, m)
     | Some cur \<Rightarrow> (Inr (), m\<lparr>m_ifaces := tput (if_ID i)
         (cur\<lparr>if_MACAddress := if_MACAddress i, if_InterfaceType := if_InterfaceType i,
              if_SpeedMbps := if_SpeedMbps i, if_Enabled := if_Enabled i, if_ReportState := if_ReportState i,
              if_UpdatedAt := env_mnow e\<rparr>) (m_ifaces m)\<rparr>))"

definition tx_CreateSubnetAuto :: "env \<Rightarrow> string \<Rightarrow> Subnet \<Rightarrow> (Mem, unit) op" where
  "tx_CreateSubnetAuto e tid s = guarded ''tx.CreateSubnetAuto'' (\<lambda>m.
     if list_ex (\<lambda>ex. sn_TenantID ex = tid \<and> sn_Name ex = sn_Name s) (tvals (m_subnets m))
     then (Inl RepoConflict, m)
     else (Inr (), m\<lparr>m_subnets := tput (sn_ID s)
       (s\<lparr>sn_TenantID := tid, sn_CreatedAt := env_mnow e, sn_UpdatedAt := env_mnow e\<rparr>) (m_subnets m)\<rparr>))"

definition inserted_addr :: "env \<Rightarrow> string \<Rightarrow> IPAddress \<Rightarrow> IPAddress" where
  "inserted_addr e tid a = a\<lparr>ip_TenantID := tid, ip_CreatedAt := env_mnow e, ip_UpdatedAt := env_mnow e,
     ip_MACSource := (if ip_MACAddress a \<noteq> [] then MACSourceAgent else []), ip_MACSourceDeviceID := [],
     ip_MACSeenAt := (if ip_MACAddress a \<noteq> [] then Some (env_mnow e) else None), ip_MACConflict := [],
     ip_Origin := [], ip_Link := None\<rparr>"

definition tx_InsertAddressReported :: "env \<Rightarrow> string \<Rightarrow> IPAddress \<Rightarrow> (Mem, unit) op" where
  "tx_InsertAddressReported e tid a = guarded ''tx.InsertAddressReported'' (\<lambda>m.
     if findAddrLocked tid (ip_Address a) m \<noteq> None then (Inl RepoConflict, m)
     else (Inr (), m\<lparr>m_addrs := tput (ip_ID a) (inserted_addr e tid a) (m_addrs m)\<rparr>))"

definition reported_addr :: "env \<Rightarrow> IPAddress \<Rightarrow> IPAddress \<Rightarrow> IPAddress" where
  "reported_addr e a cur =
     (let c = cur\<lparr>ip_DeviceID := ip_DeviceID a, ip_InterfaceName := ip_InterfaceName a,
            ip_MACAddress := ip_MACAddress a, ip_Hostname := ip_Hostname a, ip_IsPrimary := ip_IsPrimary a,
            ip_LastSeen := ip_LastSeen a, ip_ReportState := ip_ReportState a,
            ip_PreviousDeviceID := ip_PreviousDeviceID a, ip_MovedAt := ip_MovedAt a,
            ip_MoveCount := ip_MoveCount a, ip_MoveWindowStart := ip_MoveWindowStart a,
            ip_Conflict := ip_Conflict a, ip_UpdatedAt := env_mnow e\<rparr> in
      if ip_ReportState a = RepReported then
        c\<lparr>ip_MACSource := (if ip_MACAddress a \<noteq> [] then MACSourceAgent else []), ip_MACSourceDeviceID := [],
          ip_MACSeenAt := (if ip_MACAddress a \<noteq> [] then Some (env_mnow e) else None)\<rparr>
      else c)"

definition tx_UpdateAddressReported :: "env \<Rightarrow> string \<Rightarrow> IPAddress \<Rightarrow> (Mem, unit) op" where
  "tx_UpdateAddressReported e tid a = guarded ''tx.UpdateAddressReported'' (\<lambda>m.
     case tenant_row ip_TenantID tid (ip_ID a) (m_addrs m) of
       None \<Rightarrow> (Inl RepoNotFound, m)
     | Some cur \<Rightarrow> (Inr (), m\<lparr>m_addrs := tput (ip_ID a) (reported_addr e a cur) (m_addrs m)\<rparr>))"

fun pending_packages :: "env \<Rightarrow> string \<Rightarrow> string \<Rightarrow> DevicePackage list \<Rightarrow> DevicePackage list" where
  "pending_packages e tid deviceID [] = []"
| "pending_packages e tid deviceID (p # ps) =
     p\<lparr>pk_TenantID := tid, pk_DeviceID := deviceID, pk_CreatedAt := env_mnow e, pk_UpdatedAt := env_mnow e,
       pk_ID := (if pk_ID p = [] then env_ids e 0 else pk_ID p)\<rparr>
     # pending_packages (if pk_ID p = [] then env_skip 1 e else e) tid deviceID ps"

definition tx_ReplacePendingPackages :: "env \<Rightarrow> string \<Rightarrow> string \<Rightarrow> DevicePackage list \<Rightarrow> (Mem, unit) op" where
  "tx_ReplacePendingPackages e tid deviceID pkgs = guarded ''tx.ReplacePendingPackages'' (\<lambda>m.
     (Inr (), m\<lparr>m_pkgs := tput deviceID (pending_packages e tid deviceID pkgs) (m_pkgs m)\<rparr>))"

definition tx_ReplaceGuests :: "string \<Rightarrow> string \<Rightarrow> HypervisorGuest list \<Rightarrow> (Mem, unit) op" where
  "tx_ReplaceGuests tid hostDeviceID guests = guarded ''tx.ReplaceGuests'' (\<lambda>m.
     (Inr (), m\<lparr>m_guests := fold (\<lambda>g. tput (gu_ID g) (g\<lparr>gu_TenantID := tid, gu_HostDeviceID := hostDeviceID\<rparr>)) guests
        (tdrop (\<lambda>g. gu_TenantID g = tid \<and> gu_HostDeviceID g = hostDeviceID) (m_guests m))\<rparr>))"

definition tx_SetHypervisor :: "string \<Rightarrow> string \<Rightarrow> string \<Rightarrow> (Mem, unit) op" where
  "tx_SetHypervisor tid deviceID hypervisorID = guarded ''tx.SetHypervisor'' (\<lambda>m.
     case tenant_row dv_TenantID tid deviceID (m_devices m) of
       None \<Rightarrow> (Inl RepoNotFound, m)
     | Some d \<Rightarrow>
        if deviceID = hypervisorID then (Inl RepoNotFound, m)
        else (Inr (), m\<lparr>m_devices := tput deviceID (d\<lparr>dv_HypervisorDeviceID := hypervisorID\<rparr>) (m_devices m)\<rparr>))"

definition tx_SetGuestDevice :: "string \<Rightarrow> string \<Rightarrow> string \<Rightarrow> (Mem, unit) op" where
  "tx_SetGuestDevice tid guestRowID deviceID = guarded ''tx.SetGuestDevice'' (\<lambda>m.
     case tenant_row gu_TenantID tid guestRowID (m_guests m) of
       None \<Rightarrow> (Inl RepoNotFound, m)
     | Some g \<Rightarrow> (Inr (), m\<lparr>m_guests := tput guestRowID (g\<lparr>gu_GuestDeviceID := deviceID\<rparr>) (m_guests m)\<rparr>))"

definition tx_MarkDeviceNotReported :: "string \<Rightarrow> string \<Rightarrow> (Mem, unit) op" where
  "tx_MarkDeviceNotReported tid deviceID = guarded ''tx.MarkDeviceNotReported'' (\<lambda>m.
     case tenant_row dv_TenantID tid deviceID (m_devices m) of
       None \<Rightarrow> (Inl RepoNotFound, m)
     | Some d \<Rightarrow> (Inr (), m\<lparr>
         m_devices := tput deviceID (d\<lparr>dv_ReportState := RepNotReported\<rparr>) (m_devices m),
         m_ifaces := tmap (\<lambda>i. if if_DeviceID i = deviceID \<and> if_ReportState i = RepReported
           then i\<lparr>if_ReportState := RepNotReported\<rparr> else i) (m_ifaces m),
         m_addrs := tmap (\<lambda>a. if ip_TenantID a = tid \<and> ip_DeviceID a = deviceID \<and> ip_ReportState a = RepReported
           then a\<lparr>ip_ReportState := RepNotReported\<rparr> else a) (m_addrs m)\<rparr>))"

definition tx_SaveDeviceState :: "string \<Rightarrow> HostSyncDeviceState \<Rightarrow> (Mem, unit) op" where
  "tx_SaveDeviceState tid st = guarded ''tx.SaveDeviceState'' (\<lambda>m.
     (Inr (), m\<lparr>m_devState := tput (ds_DeviceID st) (st\<lparr>ds_TenantID := tid\<rparr>) (m_devState m)\<rparr>))"

definition tx_AppendAudit :: "env \<Rightarrow> string \<Rightarrow> AuditRow \<Rightarrow> (Mem, unit) op" where
  "tx_AppendAudit e tid row = guarded ''tx.AppendAudit'' (\<lambda>m.
     (Inr (), appendAuditLocked e (row\<lparr>au_TenantID := tid\<rparr>) m))"

definition tx_ReplaceHardware :: "env \<Rightarrow> string \<Rightarrow> DeviceHardware \<Rightarrow> (Mem, unit) op" where
  "tx_ReplaceHardware e tid h = guarded ''tx.ReplaceHardware'' (\<lambda>m.
     case tenant_row dv_TenantID tid (hw_DeviceID h) (m_devices m) of
       None \<Rightarrow> (Inl RepoNotFound, m)
     | Some _ \<Rightarrow> (Inr (), m\<lparr>m_hardware := tput (hw_DeviceID h)
         (h\<lparr>hw_TenantID := tid, hw_UpdatedAt := env_mnow e\<rparr>) (m_hardware m)\<rparr>))"

end
