(* ===== verification/Memstore_Org.thy ===== *)
theory Memstore_Org
  imports Memstore_Base Repo
begin

text \<open>
  VLANs, locations, IP and host groups, scan jobs, DNS settings and statistics of the in-memory
  store (\<open>memstore.go\<close>).
\<close>

section \<open>VLANs\<close>

definition fillVlan :: "Mem \<Rightarrow> Vlan \<Rightarrow> Vlan" where
  "fillVlan m v = v\<lparr>vl_SubnetCount :=
     tcount (\<lambda>s. sn_TenantID s = vl_TenantID v \<and> sn_VlanID s = vl_ID v) (m_subnets m)\<rparr>"

definition CreateVlan :: "env \<Rightarrow> Vlan \<Rightarrow> (Mem, unit) op" where
  "CreateVlan e v = guarded ''CreateVlan'' (\<lambda>m.
     if list_ex (\<lambda>ex. vl_TenantID ex = vl_TenantID v \<and> (vl_VlanID ex = vl_VlanID v \<or> vl_Name ex = vl_Name v))
          (tvals (m_vlans m))
     then (Inl RepoConflict, m)
     else
       (let v' = v\<lparr>vl_ID := (if vl_ID v = [] then env_ids e 0 else vl_ID v),
                   vl_Status := (if vl_Status v = [] then VlanActive else vl_Status v),
                   vl_CreatedAt := (if vl_CreatedAt v = 0 then env_mnow e else vl_CreatedAt v),
                   vl_UpdatedAt := env_mnow e\<rparr> in
        (Inr (), m\<lparr>m_vlans := tput (vl_ID v') v' (m_vlans m)\<rparr>)))"

definition GetVlan :: "string \<Rightarrow> string \<Rightarrow> (Mem, Vlan) op" where
  "GetVlan tenantID i m = (case tenant_row vl_TenantID tenantID i (m_vlans m) of
       None \<Rightarrow> (Inl RepoNotFound, m)
     | Some v \<Rightarrow> (Inr (fillVlan m v), m))"

definition vlan_matches :: "VlanFilter \<Rightarrow> Vlan \<Rightarrow> bool" where
  "vlan_matches f v =
     ((vf_LocationID f \<noteq> [] \<longrightarrow> vl_LocationID v = vf_LocationID f) \<and>
      (vf_Domain f \<noteq> [] \<longrightarrow> vl_Domain v = vf_Domain f) \<and>
      (vf_Status f \<noteq> [] \<longrightarrow> vl_Status v = vf_Status f) \<and>
      (vf_VlanIDMin f \<noteq> 0 \<longrightarrow> vf_VlanIDMin f \<le> vl_VlanID v) \<and>
      (vf_VlanIDMax f \<noteq> 0 \<longrightarrow> vl_VlanID v \<le> vf_VlanIDMax f))"

definition ListVlans :: "string \<Rightarrow> VlanFilter \<Rightarrow> (Mem, Vlan list) op" where
  "ListVlans tenantID f m =
     (Inr (map (fillVlan m) (paginate vl_ID (vf_CursorID f) (vf_Limit f)
        (filter (\<lambda>v. vl_TenantID v = tenantID \<and> vlan_matches f v) (tvals (m_vlans m))))), m)"

definition UpdateVlan :: "env \<Rightarrow> Vlan \<Rightarrow> (Mem, unit) op" where
  "UpdateVlan e v = guarded ''UpdateVlan'' (\<lambda>m.
     case tenant_row vl_TenantID (vl_TenantID v) (vl_ID v) (m_vlans m) of
       None \<Rightarrow> (Inl RepoNotFound, m)
     | Some ex \<Rightarrow>
        if list_ex (\<lambda>x. vl_ID x \<noteq> vl_ID v \<and> vl_TenantID x = vl_TenantID v \<and>
             (vl_VlanID x = vl_VlanID v \<or> vl_Name x = vl_Name v)) (tvals (m_vlans m))
        then (Inl RepoConflict, m)
        else (Inr (), m\<lparr>m_vlans := tput (vl_ID v)
               (v\<lparr>vl_CreatedAt := vl_CreatedAt ex, vl_UpdatedAt := env_mnow e\<rparr>) (m_vlans m)\<rparr>))"

definition DeleteVlan :: "string \<Rightarrow> string \<Rightarrow> bool \<Rightarrow> (Mem, unit) op" where
  "DeleteVlan tenantID i force = guarded ''DeleteVlan'' (\<lambda>m.
     case tenant_row vl_TenantID tenantID i (m_vlans m) of
       None \<Rightarrow> (Inl RepoNotFound, m)
     | Some v \<Rightarrow>
        if tcount (\<lambda>s. sn_TenantID s = tenantID \<and> sn_VlanID s = i) (m_subnets m) > 0 \<and> \<not> force
        then (Inl RepoNotEmpty, m)
        else (Inr (), m\<lparr>
          m_subnets := tmap (\<lambda>s. if sn_TenantID s = tenantID \<and> sn_VlanID s = i then s\<lparr>sn_VlanID := []\<rparr> else s)
            (m_subnets m),
          m_vlans := tdel i (m_vlans m)\<rparr>))"

section \<open>Locations\<close>

definition fillLocation :: "Mem \<Rightarrow> Location \<Rightarrow> Location" where
  "fillLocation m l = l\<lparr>
     lo_ChildCount := tcount (\<lambda>c. lo_TenantID c = lo_TenantID l \<and> lo_ParentID c = lo_ID l) (m_locs m),
     lo_DeviceCount := tcount (\<lambda>d. dv_TenantID d = lo_TenantID l \<and> dv_LocationID d = lo_ID l) (m_devices m),
     lo_SubnetCount := tcount (\<lambda>s. sn_TenantID s = lo_TenantID l \<and> sn_LocationID s = lo_ID l) (m_subnets m),
     lo_VlanCount := tcount (\<lambda>v. vl_TenantID v = lo_TenantID l \<and> vl_LocationID v = lo_ID l) (m_vlans m)\<rparr>"

definition location_clash :: "Location \<Rightarrow> Location \<Rightarrow> bool" where
  "location_clash l ex = (lo_TenantID ex = lo_TenantID l \<and>
     (lo_Name ex = lo_Name l \<or> lo_Code l \<noteq> [] \<and> lo_Code ex = lo_Code l))"

definition CreateLocation :: "env \<Rightarrow> Location \<Rightarrow> (Mem, unit) op" where
  "CreateLocation e l = guarded ''CreateLocation'' (\<lambda>m.
     if list_ex (location_clash l) (tvals (m_locs m)) then (Inl RepoConflict, m)
     else
       (let l' = l\<lparr>lo_ID := (if lo_ID l = [] then env_ids e 0 else lo_ID l),
                   lo_Status := (if lo_Status l = [] then LocStActive else lo_Status l),
                   lo_CreatedAt := (if lo_CreatedAt l = 0 then env_mnow e else lo_CreatedAt l),
                   lo_UpdatedAt := env_mnow e\<rparr> in
        (Inr (), m\<lparr>m_locs := tput (lo_ID l') l' (m_locs m)\<rparr>)))"

definition GetLocation :: "string \<Rightarrow> string \<Rightarrow> (Mem, Location) op" where
  "GetLocation tenantID i m = (case tenant_row lo_TenantID tenantID i (m_locs m) of
       None \<Rightarrow> (Inl RepoNotFound, m)
     | Some l \<Rightarrow> (Inr (fillLocation m l), m))"

definition location_matches :: "LocationFilter \<Rightarrow> Location \<Rightarrow> bool" where
  "location_matches f l =
     ((lf_ParentID f \<noteq> [] \<longrightarrow> lo_ParentID l = lf_ParentID f) \<and>
      (lf_LocationType f \<noteq> [] \<longrightarrow> lo_LocationType l = lf_LocationType f) \<and>
      (lf_Country f \<noteq> [] \<longrightarrow> lo_Country l = lf_Country f) \<and>
      (lf_Status f \<noteq> [] \<longrightarrow> lo_Status l = lf_Status f))"

definition ListLocations :: "string \<Rightarrow> LocationFilter \<Rightarrow> (Mem, Location list) op" where
  "ListLocations tenantID f m =
     (Inr (map (fillLocation m) (paginate lo_ID (lf_CursorID f) (lf_Limit f)
        (filter (\<lambda>l. lo_TenantID l = tenantID \<and> location_matches f l) (tvals (m_locs m))))), m)"

definition UpdateLocation :: "env \<Rightarrow> Location \<Rightarrow> (Mem, unit) op" where
  "UpdateLocation e l = guarded ''UpdateLocation'' (\<lambda>m.
     case tenant_row lo_TenantID (lo_TenantID l) (lo_ID l) (m_locs m) of
       None \<Rightarrow> (Inl RepoNotFound, m)
     | Some ex \<Rightarrow>
        if list_ex (\<lambda>x. lo_ID x \<noteq> lo_ID l \<and> location_clash l x) (tvals (m_locs m))
        then (Inl RepoConflict, m)
        else (Inr (), m\<lparr>m_locs := tput (lo_ID l)
               (l\<lparr>lo_CreatedAt := lo_CreatedAt ex, lo_UpdatedAt := env_mnow e\<rparr>) (m_locs m)\<rparr>))"

definition location_referenced :: "string \<Rightarrow> string \<Rightarrow> Mem \<Rightarrow> bool" where
  "location_referenced tenantID i m =
     (list_ex (\<lambda>c. lo_TenantID c = tenantID \<and> lo_ParentID c = i) (tvals (m_locs m)) \<or>
      list_ex (\<lambda>d. dv_TenantID d = tenantID \<and> dv_LocationID d = i) (tvals (m_devices m)) \<or>
      list_ex (\<lambda>s. sn_TenantID s = tenantID \<and> sn_LocationID s = i) (tvals (m_subnets m)) \<or>
      list_ex (\<lambda>v. vl_TenantID v = tenantID \<and> vl_LocationID v = i) (tvals (m_vlans m)))"

definition DeleteLocation :: "string \<Rightarrow> string \<Rightarrow> bool \<Rightarrow> (Mem, unit) op" where
  "DeleteLocation tenantID i force = guarded ''DeleteLocation'' (\<lambda>m.
     case tenant_row lo_TenantID tenantID i (m_locs m) of
       None \<Rightarrow> (Inl RepoNotFound, m)
     | Some l \<Rightarrow>
        if location_referenced tenantID i m \<and> \<not> force then (Inl RepoNotEmpty, m)
        else (Inr (), m\<lparr>
          m_locs := tdel i (tmap (\<lambda>c. if lo_TenantID c = tenantID \<and> lo_ParentID c = i
            then c\<lparr>lo_ParentID := []\<rparr> else c) (m_locs m)),
          m_devices := tmap (\<lambda>d. if dv_TenantID d = tenantID \<and> dv_LocationID d = i
            then d\<lparr>dv_LocationID := []\<rparr> else d) (m_devices m),
          m_subnets := tmap (\<lambda>s. if sn_TenantID s = tenantID \<and> sn_LocationID s = i
            then s\<lparr>sn_LocationID := []\<rparr> else s) (m_subnets m),
          m_vlans := tmap (\<lambda>v. if vl_TenantID v = tenantID \<and> vl_LocationID v = i
            then v\<lparr>vl_LocationID := []\<rparr> else v) (m_vlans m)\<rparr>))"

section \<open>IP groups\<close>

definition ipGroupMemberCount :: "Mem \<Rightarrow> string \<Rightarrow> string \<Rightarrow> int" where
  "ipGroupMemberCount m tenantID groupID =
     tcount (\<lambda>x. im_TenantID x = tenantID \<and> im_IPGroupID x = groupID) (m_ipMembers m)"

definition CreateIPGroup :: "env \<Rightarrow> IPGroup \<Rightarrow> (Mem, unit) op" where
  "CreateIPGroup e g = guarded ''CreateIPGroup'' (\<lambda>m.
     if list_ex (\<lambda>ex. ig_TenantID ex = ig_TenantID g \<and> ig_Name ex = ig_Name g) (tvals (m_ipGroups m))
     then (Inl RepoConflict, m)
     else
       (let g' = g\<lparr>ig_ID := (if ig_ID g = [] then env_ids e 0 else ig_ID g),
                   ig_Status := (if ig_Status g = [] then GroupActive else ig_Status g),
                   ig_CreatedAt := (if ig_CreatedAt g = 0 then env_mnow e else ig_CreatedAt g),
                   ig_UpdatedAt := env_mnow e\<rparr> in
        (Inr (), m\<lparr>m_ipGroups := tput (ig_ID g') g' (m_ipGroups m)\<rparr>)))"

definition GetIPGroup :: "string \<Rightarrow> string \<Rightarrow> (Mem, IPGroup) op" where
  "GetIPGroup tenantID i m = (case tenant_row ig_TenantID tenantID i (m_ipGroups m) of
       None \<Rightarrow> (Inl RepoNotFound, m)
     | Some g \<Rightarrow> (Inr (g\<lparr>ig_MemberCount := ipGroupMemberCount m tenantID i\<rparr>), m))"

definition ListIPGroups :: "string \<Rightarrow> int \<Rightarrow> string \<Rightarrow> (Mem, IPGroup list) op" where
  "ListIPGroups tenantID limit cursorID m =
     (Inr (map (\<lambda>g. g\<lparr>ig_MemberCount := ipGroupMemberCount m tenantID (ig_ID g)\<rparr>)
        (paginate ig_ID cursorID limit (filter (\<lambda>g. ig_TenantID g = tenantID) (tvals (m_ipGroups m))))), m)"

definition UpdateIPGroup :: "env \<Rightarrow> IPGroup \<Rightarrow> (Mem, unit) op" where
  "UpdateIPGroup e g = guarded ''UpdateIPGroup'' (\<lambda>m.
     case tenant_row ig_TenantID (ig_TenantID g) (ig_ID g) (m_ipGroups m) of
       None \<Rightarrow> (Inl RepoNotFound, m)
     | Some ex \<Rightarrow>
        if list_ex (\<lambda>x. ig_ID x \<noteq> ig_ID g \<and> ig_TenantID x = ig_TenantID g \<and> ig_Name x = ig_Name g)
             (tvals (m_ipGroups m))
        then (Inl RepoConflict, m)
        else (Inr (), m\<lparr>m_ipGroups := tput (ig_ID g)
               (g\<lparr>ig_CreatedAt := ig_CreatedAt ex, ig_UpdatedAt := env_mnow e\<rparr>) (m_ipGroups m)\<rparr>))"

definition DeleteIPGroup :: "string \<Rightarrow> string \<Rightarrow> (Mem, unit) op" where
  "DeleteIPGroup tenantID i = guarded ''DeleteIPGroup'' (\<lambda>m.
     case tenant_row ig_TenantID tenantID i (m_ipGroups m) of
       None \<Rightarrow> (Inl RepoNotFound, m)
     | Some g \<Rightarrow> (Inr (), m\<lparr>m_ipMembers := tdrop (\<lambda>x. im_IPGroupID x = i) (m_ipMembers m),
         m_ipGroups := tdel i (m_ipGroups m)\<rparr>))"

definition AddIPGroupMember :: "env \<Rightarrow> IPGroupMember \<Rightarrow> (Mem, unit) op" where
  "AddIPGroupMember e x = guarded ''AddIPGroupMember'' (\<lambda>m.
     case tenant_row ig_TenantID (im_TenantID x) (im_IPGroupID x) (m_ipGroups m) of
       None \<Rightarrow> (Inl RepoNotFound, m)
     | Some g \<Rightarrow>
        if list_ex (\<lambda>ex. im_IPGroupID ex = im_IPGroupID x \<and> im_Value ex = im_Value x) (tvals (m_ipMembers m))
        then (Inl RepoConflict, m)
        else
          (let x' = x\<lparr>im_ID := (if im_ID x = [] then env_ids e 0 else im_ID x),
                      im_MemberType := (if im_MemberType x = [] then MemberAddress else im_MemberType x)\<rparr> in
           (Inr (), m\<lparr>m_ipMembers := tput (im_ID x') x' (m_ipMembers m)\<rparr>)))"

definition RemoveIPGroupMember :: "string \<Rightarrow> string \<Rightarrow> (Mem, unit) op" where
  "RemoveIPGroupMember tenantID memberID = guarded ''RemoveIPGroupMember'' (\<lambda>m.
     case tenant_row im_TenantID tenantID memberID (m_ipMembers m) of
       None \<Rightarrow> (Inl RepoNotFound, m)
     | Some x \<Rightarrow> (Inr (), m\<lparr>m_ipMembers := tdel memberID (m_ipMembers m)\<rparr>))"

definition UpdateIPGroupMember :: "IPGroupMember \<Rightarrow> (Mem, unit) op" where
  "UpdateIPGroupMember x = guarded ''UpdateIPGroupMember'' (\<lambda>m.
     case tenant_row im_TenantID (im_TenantID x) (im_ID x) (m_ipMembers m) of
       None \<Rightarrow> (Inl RepoNotFound, m)
     | Some ex \<Rightarrow>
        if list_ex (\<lambda>y. im_ID y \<noteq> im_ID x \<and> im_IPGroupID y = im_IPGroupID ex \<and> im_Value y = im_Value x)
             (tvals (m_ipMembers m))
        then (Inl RepoConflict, m)
        else (Inr (), m\<lparr>m_ipMembers := tput (im_ID x) (x\<lparr>im_IPGroupID := im_IPGroupID ex\<rparr>) (m_ipMembers m)\<rparr>))"

definition ip_member_less :: "IPGroupMember \<Rightarrow> IPGroupMember \<Rightarrow> bool" where
  "ip_member_less x y = (if im_Sequence x \<noteq> im_Sequence y then im_Sequence x < im_Sequence y
     else im_ID x < im_ID y)"

definition ListIPGroupMembers :: "string \<Rightarrow> string \<Rightarrow> (Mem, IPGroupMember list) op" where
  "ListIPGroupMembers tenantID groupID m =
     (Inr (sort_by ip_member_less (filter (\<lambda>x. im_TenantID x = tenantID \<and> im_IPGroupID x = groupID)
        (tvals (m_ipMembers m)))), m)"

definition AllIPGroupsWithMembers :: "string \<Rightarrow> string list \<Rightarrow> (Mem, IPGroup list \<times> IPGroupMember list tbl) op" where
  "AllIPGroupsWithMembers tenantID groupIDs m =
     (let groups = map (\<lambda>g. g\<lparr>ig_MemberCount := ipGroupMemberCount m tenantID (ig_ID g)\<rparr>)
            (filter (\<lambda>g. ig_TenantID g = tenantID \<and> (groupIDs \<noteq> [] \<longrightarrow> ig_ID g \<in> set groupIDs))
              (tvals (m_ipGroups m)));
          mems = filter (\<lambda>x. im_TenantID x = tenantID \<and> (groupIDs \<noteq> [] \<longrightarrow> im_IPGroupID x \<in> set groupIDs))
              (tvals (m_ipMembers m)) in
      (Inr (paginate ig_ID [] 0 groups,
        map (\<lambda>k. (k, sort_by ip_member_less (filter (\<lambda>x. im_IPGroupID x = k) mems)))
          (remdups (map im_IPGroupID mems))), m))"

section \<open>Host groups\<close>

definition hostGroupMemberCount :: "Mem \<Rightarrow> string \<Rightarrow> string \<Rightarrow> int" where
  "hostGroupMemberCount m tenantID groupID =
     tcount (\<lambda>x. hm_TenantID x = tenantID \<and> hm_HostGroupID x = groupID) (m_hostMembers m)"

definition CreateHostGroup :: "env \<Rightarrow> HostGroup \<Rightarrow> (Mem, unit) op" where
  "CreateHostGroup e g = guarded ''CreateHostGroup'' (\<lambda>m.
     if list_ex (\<lambda>ex. hg_TenantID ex = hg_TenantID g \<and> hg_Name ex = hg_Name g) (tvals (m_hostGroups m))
     then (Inl RepoConflict, m)
     else
       (let g' = g\<lparr>hg_ID := (if hg_ID g = [] then env_ids e 0 else hg_ID g),
                   hg_Status := (if hg_Status g = [] then GroupActive else hg_Status g),
                   hg_CreatedAt := (if hg_CreatedAt g = 0 then env_mnow e else hg_CreatedAt g),
                   hg_UpdatedAt := env_mnow e\<rparr> in
        (Inr (), m\<lparr>m_hostGroups := tput (hg_ID g') g' (m_hostGroups m)\<rparr>)))"

definition GetHostGroup :: "string \<Rightarrow> string \<Rightarrow> (Mem, HostGroup) op" where
  "GetHostGroup tenantID i m = (case tenant_row hg_TenantID tenantID i (m_hostGroups m) of
       None \<Rightarrow> (Inl RepoNotFound, m)
     | Some g \<Rightarrow> (Inr (g\<lparr>hg_MemberCount := hostGroupMemberCount m tenantID i\<rparr>), m))"

definition ListHostGroups :: "string \<Rightarrow> int \<Rightarrow> string \<Rightarrow> (Mem, HostGroup list) op" where
  "ListHostGroups tenantID limit cursorID m =
     (Inr (map (\<lambda>g. g\<lparr>hg_MemberCount := hostGroupMemberCount m tenantID (hg_ID g)\<rparr>)
        (paginate hg_ID cursorID limit (filter (\<lambda>g. hg_TenantID g = tenantID) (tvals (m_hostGroups m))))), m)"

definition UpdateHostGroup :: "env \<Rightarrow> HostGroup \<Rightarrow> (Mem, unit) op" where
  "UpdateHostGroup e g = guarded ''UpdateHostGroup'' (\<lambda>m.
     case tenant_row hg_TenantID (hg_TenantID g) (hg_ID g) (m_hostGroups m) of
       None \<Rightarrow> (Inl RepoNotFound, m)
     | Some ex \<Rightarrow>
        if list_ex (\<lambda>x. hg_ID x \<noteq> hg_ID g \<and> hg_TenantID x = hg_TenantID g \<and> hg_Name x = hg_Name g)
             (tvals (m_hostGroups m))
        then (Inl RepoConflict, m)
        else (Inr (), m\<lparr>m_hostGroups := tput (hg_ID g)
               (g\<lparr>hg_CreatedAt := hg_CreatedAt ex, hg_UpdatedAt := env_mnow e\<rparr>) (m_hostGroups m)\<rparr>))"

definition DeleteHostGroup :: "string \<Rightarrow> string \<Rightarrow> (Mem, unit) op" where
  "DeleteHostGroup tenantID i = guarded ''DeleteHostGroup'' (\<lambda>m.
     case tenant_row hg_TenantID tenantID i (m_hostGroups m) of
       None \<Rightarrow> (Inl RepoNotFound, m)
     | Some g \<Rightarrow> (Inr (), m\<lparr>m_hostMembers := tdrop (\<lambda>x. hm_HostGroupID x = i) (m_hostMembers m),
         m_hostGroups := tdel i (m_hostGroups m)\<rparr>))"

definition AddHostGroupMember :: "env \<Rightarrow> HostGroupMember \<Rightarrow> (Mem, unit) op" where
  "AddHostGroupMember e x = guarded ''AddHostGroupMember'' (\<lambda>m.
     case tenant_row hg_TenantID (hm_TenantID x) (hm_HostGroupID x) (m_hostGroups m) of
       None \<Rightarrow> (Inl RepoNotFound, m)
     | Some g \<Rightarrow>
        if list_ex (\<lambda>ex. hm_HostGroupID ex = hm_HostGroupID x \<and> hm_DeviceID ex = hm_DeviceID x)
             (tvals (m_hostMembers m))
        then (Inl RepoConflict, m)
        else
          (let x' = x\<lparr>hm_ID := (if hm_ID x = [] then env_ids e 0 else hm_ID x)\<rparr> in
           (Inr (), m\<lparr>m_hostMembers := tput (hm_ID x') x' (m_hostMembers m)\<rparr>)))"

definition RemoveHostGroupMember :: "string \<Rightarrow> string \<Rightarrow> (Mem, unit) op" where
  "RemoveHostGroupMember tenantID memberID = guarded ''RemoveHostGroupMember'' (\<lambda>m.
     case tenant_row hm_TenantID tenantID memberID (m_hostMembers m) of
       None \<Rightarrow> (Inl RepoNotFound, m)
     | Some x \<Rightarrow> (Inr (), m\<lparr>m_hostMembers := tdel memberID (m_hostMembers m)\<rparr>))"

definition UpdateHostGroupMember :: "HostGroupMember \<Rightarrow> (Mem, unit) op" where
  "UpdateHostGroupMember x = guarded ''UpdateHostGroupMember'' (\<lambda>m.
     case tenant_row hm_TenantID (hm_TenantID x) (hm_ID x) (m_hostMembers m) of
       None \<Rightarrow> (Inl RepoNotFound, m)
     | Some ex \<Rightarrow>
        if list_ex (\<lambda>y. hm_ID y \<noteq> hm_ID x \<and> hm_HostGroupID y = hm_HostGroupID ex \<and> hm_DeviceID y = hm_DeviceID x)
             (tvals (m_hostMembers m))
        then (Inl RepoConflict, m)
        else (Inr (), m\<lparr>m_hostMembers := tput (hm_ID x) (x\<lparr>hm_HostGroupID := hm_HostGroupID ex\<rparr>)
               (m_hostMembers m)\<rparr>))"

definition enrichHostMember :: "Mem \<Rightarrow> HostGroupMember \<Rightarrow> HostGroupMember" where
  "enrichHostMember m x = (case tget (m_devices m) (hm_DeviceID x) of
       None \<Rightarrow> x
     | Some d \<Rightarrow> x\<lparr>hm_DeviceName := dv_Name d, hm_DeviceType := dv_DeviceType d,
         hm_DeviceStatus := dv_Status d, hm_DevicePrimaryIP := dv_PrimaryIP d\<rparr>)"

definition host_member_less :: "HostGroupMember \<Rightarrow> HostGroupMember \<Rightarrow> bool" where
  "host_member_less x y = (if hm_Sequence x \<noteq> hm_Sequence y then hm_Sequence x < hm_Sequence y
     else hm_ID x < hm_ID y)"

definition ListHostGroupMembers :: "string \<Rightarrow> string \<Rightarrow> (Mem, HostGroupMember list) op" where
  "ListHostGroupMembers tenantID groupID m =
     (Inr (sort_by host_member_less (map (enrichHostMember m)
        (filter (\<lambda>x. hm_TenantID x = tenantID \<and> hm_HostGroupID x = groupID) (tvals (m_hostMembers m))))), m)"

definition ListDeviceHostGroups :: "string \<Rightarrow> string \<Rightarrow> (Mem, HostGroup list) op" where
  "ListDeviceHostGroups tenantID deviceID m =
     (Inr (paginate hg_ID [] 0 (List.map_filter (\<lambda>i.
        map_option (\<lambda>g. g\<lparr>hg_MemberCount := hostGroupMemberCount m tenantID i\<rparr>)
          (tenant_row hg_TenantID tenantID i (m_hostGroups m)))
        (remdups (map hm_HostGroupID (filter (\<lambda>x. hm_TenantID x = tenantID \<and> hm_DeviceID x = deviceID)
          (tvals (m_hostMembers m))))))), m)"

section \<open>Scan jobs\<close>

definition CreateScanJob :: "env \<Rightarrow> IPScanJob \<Rightarrow> (Mem, unit) op" where
  "CreateScanJob e j = guarded ''CreateScanJob'' (\<lambda>m.
     (let j' = j\<lparr>sj_ID := (if sj_ID j = [] then env_ids e 0 else sj_ID j),
                 sj_Status := (if sj_Status j = [] then ScanPending else sj_Status j),
                 sj_TriggeredBy := (if sj_TriggeredBy j = [] then TriggerManual else sj_TriggeredBy j),
                 sj_MaxRetries := (if sj_MaxRetries j = 0 then 3 else sj_MaxRetries j),
                 sj_TimeoutMs := (if sj_TimeoutMs j = 0 then 1000 else sj_TimeoutMs j),
                 sj_Concurrency := (if sj_Concurrency j = 0 then 50 else sj_Concurrency j),
                 sj_CreatedAt := (if sj_CreatedAt j = 0 then env_mnow e else sj_CreatedAt j),
                 sj_UpdatedAt := env_mnow e\<rparr> in
      (Inr (), m\<lparr>m_scans := tput (sj_ID j') j' (m_scans m)\<rparr>)))"

definition GetScanJob :: "string \<Rightarrow> string \<Rightarrow> (Mem, IPScanJob) op" where
  "GetScanJob tenantID i m = (case tenant_row sj_TenantID tenantID i (m_scans m) of
       None \<Rightarrow> (Inl RepoNotFound, m)
     | Some j \<Rightarrow> (Inr j, m))"

definition scan_matches :: "ScanFilter \<Rightarrow> IPScanJob \<Rightarrow> bool" where
  "scan_matches f j =
     ((jf_SubnetID f \<noteq> [] \<longrightarrow> sj_SubnetID j = jf_SubnetID f) \<and>
      (jf_Status f \<noteq> [] \<longrightarrow> sj_Status j = jf_Status f))"

definition ListScanJobs :: "string \<Rightarrow> ScanFilter \<Rightarrow> (Mem, IPScanJob list) op" where
  "ListScanJobs tenantID f m =
     (Inr (paginate sj_ID (jf_CursorID f) (jf_Limit f)
        (filter (\<lambda>j. sj_TenantID j = tenantID \<and> scan_matches f j) (tvals (m_scans m)))), m)"

definition UpdateScanJob :: "env \<Rightarrow> IPScanJob \<Rightarrow> (Mem, unit) op" where
  "UpdateScanJob e j = guarded ''UpdateScanJob'' (\<lambda>m.
     case tenant_row sj_TenantID (sj_TenantID j) (sj_ID j) (m_scans m) of
       None \<Rightarrow> (Inl RepoNotFound, m)
     | Some ex \<Rightarrow> (Inr (), m\<lparr>m_scans := tput (sj_ID j)
         (j\<lparr>sj_CreatedAt := sj_CreatedAt ex, sj_UpdatedAt := env_mnow e\<rparr>) (m_scans m)\<rparr>))"

definition dueKey :: "IPScanJob \<Rightarrow> time" where
  "dueKey j = (case sj_NextRetryAt j of Some t \<Rightarrow> t | None \<Rightarrow> sj_CreatedAt j)"

definition scan_due :: "time \<Rightarrow> IPScanJob \<Rightarrow> bool" where
  "scan_due at j = (sj_Status j = ScanPending \<and>
     (case sj_NextRetryAt j of None \<Rightarrow> True | Some t \<Rightarrow> t \<le> at))"

definition due_less :: "IPScanJob \<Rightarrow> IPScanJob \<Rightarrow> bool" where
  "due_less x y = (if dueKey x \<noteq> dueKey y then dueKey x < dueKey y else sj_ID x < sj_ID y)"

definition claim_job :: "env \<Rightarrow> IPScanJob \<Rightarrow> IPScanJob" where
  "claim_job e j = j\<lparr>sj_Status := ScanScanning, sj_StartedAt := Some (env_mnow e), sj_UpdatedAt := env_mnow e\<rparr>"

definition ClaimDueScanJobs :: "env \<Rightarrow> time \<Rightarrow> int \<Rightarrow> (Mem, IPScanJob list) op" where
  "ClaimDueScanJobs e at limit = guarded ''ClaimDueScanJobs'' (\<lambda>m.
     (let due = sort_by due_less (filter (scan_due at) (tvals (m_scans m)));
          picked = (if limit > 0 \<and> int (length due) > limit then take (nat limit) due else due);
          out = map (claim_job e) picked in
      (Inr out, m\<lparr>m_scans := fold (\<lambda>j. tput (sj_ID j) j) out (m_scans m)\<rparr>)))"

definition ActiveScanForSubnet :: "string \<Rightarrow> string \<Rightarrow> (Mem, bool) op" where
  "ActiveScanForSubnet tenantID subnetID m =
     (Inr (list_ex (\<lambda>j. sj_TenantID j = tenantID \<and> sj_SubnetID j = subnetID \<and>
        (sj_Status j = ScanPending \<or> sj_Status j = ScanScanning)) (tvals (m_scans m))), m)"

section \<open>DNS settings\<close>

definition GetDNSConfig :: "string \<Rightarrow> (Mem, DNSConfig) op" where
  "GetDNSConfig tenantID m = (case tget (m_dns m) tenantID of
       None \<Rightarrow> (Inl RepoNotFound, m)
     | Some c \<Rightarrow> (Inr c, m))"

definition UpsertDNSConfig :: "env \<Rightarrow> DNSConfig \<Rightarrow> (Mem, unit) op" where
  "UpsertDNSConfig e c = guarded ''UpsertDNSConfig'' (\<lambda>m.
     (let c1 = (case tget (m_dns m) (dc_TenantID c) of
            Some ex \<Rightarrow> c\<lparr>dc_ID := dc_ID ex, dc_CreatedAt := dc_CreatedAt ex\<rparr>
          | None \<Rightarrow> c\<lparr>dc_ID := (if dc_ID c = [] then env_ids e 0 else dc_ID c), dc_CreatedAt := env_mnow e\<rparr>) in
      (Inr (), m\<lparr>m_dns := tput (dc_TenantID c)
         (c1\<lparr>dc_TimeoutMs := (if dc_TimeoutMs c = 0 then 5000 else dc_TimeoutMs c), dc_UpdatedAt := env_mnow e\<rparr>)
         (m_dns m)\<rparr>)))"

section \<open>Statistics\<close>

text \<open>The capacity and the usage are \<open>int64\<close> sums.\<close>

definition count_type :: "string \<Rightarrow> int tbl \<Rightarrow> int tbl" where
  "count_type k t = tput k ((case tget t k of None \<Rightarrow> 0 | Some n \<Rightarrow> n) + 1) t"

definition TenantStats :: "string \<Rightarrow> (Mem, Stats) op" where
  "TenantStats tenantID m =
     (let subs = filter (\<lambda>s. sn_TenantID s = tenantID) (tvals (m_subnets m));
          devs = filter (\<lambda>d. dv_TenantID d = tenantID) (tvals (m_devices m));
          totalCap = fold (\<lambda>s acc. wrap64 (acc + subnetTotal (sn_CIDR s))) subs 0;
          usedTotal = fold (\<lambda>s acc. wrap64 (acc +
             tcount (\<lambda>a. ip_TenantID a = tenantID \<and> ip_SubnetID a = sn_ID s) (m_addrs m))) subs 0 in
      (Inr \<lparr>rs_TotalSubnets = int (length subs), rs_TotalAddresses = totalCap, rs_UsedAddresses = usedTotal,
            rs_AvailableAddresses = (if totalCap > 0 then wrap64 (totalCap - usedTotal) else 0),
            rs_TotalVlans = tcount (\<lambda>v. vl_TenantID v = tenantID) (m_vlans m),
            rs_TotalDevices = int (length devs),
            rs_TotalLocations = tcount (\<lambda>l. lo_TenantID l = tenantID) (m_locs m),
            rs_DevicesByType = fold (\<lambda>d. count_type (dv_DeviceType d)) devs []\<rparr>, m))"

definition TenantIDs :: "(Mem, string list) op" where
  "TenantIDs m = (Inr (sort (remdups (map sn_TenantID (tvals (m_subnets m)) @ map dv_TenantID (tvals (m_devices m)) @
     map vl_TenantID (tvals (m_vlans m)) @ map lo_TenantID (tvals (m_locs m)) @
     map sj_TenantID (tvals (m_scans m))))), m)"

end
