(* ===== verification/Memstore_Inv.thy ===== *)
theory Memstore_Inv
  imports Memstore_Host Memstore_Org
begin

text \<open>
  The invariants of the in-memory store: well-formed tables, live references and an append-only
  audit log, for every state the operations of the storage contract reach, and the atomicity of the
  application of a host report.
\<close>

section \<open>The invariant\<close>

named_theorems clash_simps \<open>the unique columns of every table\<close>

definition sn_clash :: "Subnet \<Rightarrow> Subnet \<Rightarrow> bool" where
  [clash_simps]: "sn_clash x y = (sn_TenantID x = sn_TenantID y \<and> sn_Name x = sn_Name y)"

definition ip_clash :: "IPAddress \<Rightarrow> IPAddress \<Rightarrow> bool" where
  [clash_simps]: "ip_clash x y = (ip_TenantID x = ip_TenantID y \<and> ip_Address x = ip_Address y)"

definition dv_clash :: "Device \<Rightarrow> Device \<Rightarrow> bool" where
  [clash_simps]: "dv_clash x y = (dv_TenantID x = dv_TenantID y \<and> dv_Name x = dv_Name y)"

definition if_clash :: "DeviceInterface \<Rightarrow> DeviceInterface \<Rightarrow> bool" where
  [clash_simps]: "if_clash x y = (if_DeviceID x = if_DeviceID y \<and> if_Name x = if_Name y)"

definition vl_clash :: "Vlan \<Rightarrow> Vlan \<Rightarrow> bool" where
  [clash_simps]: "vl_clash x y = (vl_TenantID x = vl_TenantID y \<and> (vl_VlanID x = vl_VlanID y \<or> vl_Name x = vl_Name y))"

definition lo_clash :: "Location \<Rightarrow> Location \<Rightarrow> bool" where
  [clash_simps]: "lo_clash x y = (lo_TenantID x = lo_TenantID y \<and>
     (lo_Name x = lo_Name y \<or> lo_Code x \<noteq> [] \<and> lo_Code x = lo_Code y))"

definition ig_clash :: "IPGroup \<Rightarrow> IPGroup \<Rightarrow> bool" where
  [clash_simps]: "ig_clash x y = (ig_TenantID x = ig_TenantID y \<and> ig_Name x = ig_Name y)"

definition im_clash :: "IPGroupMember \<Rightarrow> IPGroupMember \<Rightarrow> bool" where
  [clash_simps]: "im_clash x y = (im_IPGroupID x = im_IPGroupID y \<and> im_Value x = im_Value y)"

definition hg_clash :: "HostGroup \<Rightarrow> HostGroup \<Rightarrow> bool" where
  [clash_simps]: "hg_clash x y = (hg_TenantID x = hg_TenantID y \<and> hg_Name x = hg_Name y)"

definition hm_clash :: "HostGroupMember \<Rightarrow> HostGroupMember \<Rightarrow> bool" where
  [clash_simps]: "hm_clash x y = (hm_HostGroupID x = hm_HostGroupID y \<and> hm_DeviceID x = hm_DeviceID y)"

definition tables_ok :: "Mem \<Rightarrow> bool" where
  "tables_ok m = (row_ok sn_ID sn_clash (m_subnets m) \<and> row_ok ip_ID ip_clash (m_addrs m) \<and>
     row_ok dv_ID dv_clash (m_devices m) \<and> row_ok if_ID if_clash (m_ifaces m) \<and>
     row_ok vl_ID vl_clash (m_vlans m) \<and> row_ok lo_ID lo_clash (m_locs m) \<and>
     row_ok ig_ID ig_clash (m_ipGroups m) \<and> row_ok im_ID im_clash (m_ipMembers m) \<and>
     row_ok hg_ID hg_clash (m_hostGroups m) \<and> row_ok hm_ID hm_clash (m_hostMembers m) \<and>
     row_ok sj_ID no_clash (m_scans m) \<and> row_ok gu_ID no_clash (m_guests m) \<and>
     row_ok dc_TenantID no_clash (m_dns m) \<and> row_ok ss_TenantID no_clash (m_hsSettings m) \<and>
     row_ok ds_DeviceID no_clash (m_devState m) \<and> row_ok hw_DeviceID no_clash (m_hardware m) \<and>
     row_ok sc_SubnetID no_clash (m_snmp m) \<and> row_ok as_TenantID no_clash (m_arp m))"

definition refs_ok :: "Mem \<Rightarrow> bool" where
  "refs_ok m = ((\<forall>k. tget (m_snmp m) k \<noteq> None \<longrightarrow> tget (m_subnets m) k \<noteq> None) \<and>
     (\<forall>k. tget (m_hardware m) k \<noteq> None \<longrightarrow> tget (m_devices m) k \<noteq> None) \<and>
     (\<forall>k x. tget (m_ipMembers m) k = Some x \<longrightarrow> tget (m_ipGroups m) (im_IPGroupID x) \<noteq> None) \<and>
     (\<forall>k x. tget (m_hostMembers m) k = Some x \<longrightarrow> tget (m_hostGroups m) (hm_HostGroupID x) \<noteq> None))"

definition mem_wf :: "Mem \<Rightarrow> bool" where
  "mem_wf m = (tables_ok m \<and> refs_ok m)"

lemma mem_wf_failNext [simp]: "mem_wf (m\<lparr>m_failNext := x\<rparr>) = mem_wf m"
  by (simp add: mem_wf_def tables_ok_def refs_ok_def)

lemma mem_wf_appendAuditLocked [simp]: "mem_wf (appendAuditLocked e r m) = mem_wf m"
  by (simp add: mem_wf_def tables_ok_def refs_ok_def)

lemma mem_wf_New: "mem_wf New"
  by (simp add: mem_wf_def tables_ok_def refs_ok_def New_def)

lemmas wf_defs = mem_wf_def tables_ok_def refs_ok_def


section \<open>Every operation preserves it\<close>

lemma CreateSubnet_wf: "mem_wf m \<Longrightarrow> mem_wf (snd (CreateSubnet e s m))"
  unfolding CreateSubnet_def
  by (rule guarded_inv) (auto simp: wf_defs Let_def clash_simps tenant_row_Some location_clash_def
      default_device_def keepDeviceServerFields_def intro!: row_ok_tput_checked split: option.splits)

lemma UpdateSubnet_wf: "mem_wf m \<Longrightarrow> mem_wf (snd (UpdateSubnet e s m))"
  unfolding UpdateSubnet_def
  by (rule guarded_inv) (auto simp: wf_defs Let_def clash_simps tenant_row_Some location_clash_def
      default_device_def keepDeviceServerFields_def intro!: row_ok_tput_checked split: option.splits)

lemma CreateDevice_wf: "mem_wf m \<Longrightarrow> mem_wf (snd (CreateDevice e d m))"
  unfolding CreateDevice_def
  by (rule guarded_inv) (auto simp: wf_defs Let_def clash_simps tenant_row_Some location_clash_def
      default_device_def keepDeviceServerFields_def intro!: row_ok_tput_checked split: option.splits)

lemma UpdateDevice_wf: "mem_wf m \<Longrightarrow> mem_wf (snd (UpdateDevice e d m))"
  unfolding UpdateDevice_def
  by (rule guarded_inv) (auto simp: wf_defs Let_def clash_simps tenant_row_Some location_clash_def
      default_device_def keepDeviceServerFields_def intro!: row_ok_tput_checked split: option.splits)

lemma CreateInterface_wf: "mem_wf m \<Longrightarrow> mem_wf (snd (CreateInterface e i m))"
  unfolding CreateInterface_def
  by (rule guarded_inv) (auto simp: wf_defs Let_def clash_simps tenant_row_Some location_clash_def
      default_device_def keepDeviceServerFields_def intro!: row_ok_tput_checked split: option.splits)

lemma CreateVlan_wf: "mem_wf m \<Longrightarrow> mem_wf (snd (CreateVlan e v m))"
  unfolding CreateVlan_def
  by (rule guarded_inv) (auto simp: wf_defs Let_def clash_simps tenant_row_Some location_clash_def
      default_device_def keepDeviceServerFields_def intro!: row_ok_tput_checked split: option.splits)

lemma UpdateVlan_wf: "mem_wf m \<Longrightarrow> mem_wf (snd (UpdateVlan e v m))"
  unfolding UpdateVlan_def
  by (rule guarded_inv) (auto simp: wf_defs Let_def clash_simps tenant_row_Some location_clash_def
      default_device_def keepDeviceServerFields_def intro!: row_ok_tput_checked split: option.splits)

lemma CreateLocation_wf: "mem_wf m \<Longrightarrow> mem_wf (snd (CreateLocation e l m))"
  unfolding CreateLocation_def
  by (rule guarded_inv) (auto simp: wf_defs Let_def clash_simps tenant_row_Some location_clash_def
      default_device_def keepDeviceServerFields_def intro!: row_ok_tput_checked split: option.splits)

lemma UpdateLocation_wf: "mem_wf m \<Longrightarrow> mem_wf (snd (UpdateLocation e l m))"
  unfolding UpdateLocation_def
  by (rule guarded_inv) (auto simp: wf_defs Let_def clash_simps tenant_row_Some location_clash_def
      default_device_def keepDeviceServerFields_def intro!: row_ok_tput_checked split: option.splits)

lemma CreateIPGroup_wf: "mem_wf m \<Longrightarrow> mem_wf (snd (CreateIPGroup e g m))"
  unfolding CreateIPGroup_def
  by (rule guarded_inv) (auto simp: wf_defs Let_def clash_simps tenant_row_Some location_clash_def
      default_device_def keepDeviceServerFields_def intro!: row_ok_tput_checked split: option.splits)

lemma UpdateIPGroup_wf: "mem_wf m \<Longrightarrow> mem_wf (snd (UpdateIPGroup e g m))"
  unfolding UpdateIPGroup_def
  by (rule guarded_inv) (auto simp: wf_defs Let_def clash_simps tenant_row_Some location_clash_def
      default_device_def keepDeviceServerFields_def intro!: row_ok_tput_checked split: option.splits)

lemma AddIPGroupMember_wf: "mem_wf m \<Longrightarrow> mem_wf (snd (AddIPGroupMember e x m))"
  unfolding AddIPGroupMember_def
  by (rule guarded_inv) (auto simp: wf_defs Let_def clash_simps tenant_row_Some location_clash_def
      default_device_def keepDeviceServerFields_def intro!: row_ok_tput_checked split: option.splits)

lemma UpdateIPGroupMember_wf: "mem_wf m \<Longrightarrow> mem_wf (snd (UpdateIPGroupMember x m))"
  unfolding UpdateIPGroupMember_def
  by (rule guarded_inv) (auto simp: wf_defs Let_def clash_simps tenant_row_Some location_clash_def
      default_device_def keepDeviceServerFields_def intro!: row_ok_tput_checked split: option.splits)

lemma CreateHostGroup_wf: "mem_wf m \<Longrightarrow> mem_wf (snd (CreateHostGroup e g m))"
  unfolding CreateHostGroup_def
  by (rule guarded_inv) (auto simp: wf_defs Let_def clash_simps tenant_row_Some location_clash_def
      default_device_def keepDeviceServerFields_def intro!: row_ok_tput_checked split: option.splits)

lemma UpdateHostGroup_wf: "mem_wf m \<Longrightarrow> mem_wf (snd (UpdateHostGroup e g m))"
  unfolding UpdateHostGroup_def
  by (rule guarded_inv) (auto simp: wf_defs Let_def clash_simps tenant_row_Some location_clash_def
      default_device_def keepDeviceServerFields_def intro!: row_ok_tput_checked split: option.splits)

lemma AddHostGroupMember_wf: "mem_wf m \<Longrightarrow> mem_wf (snd (AddHostGroupMember e x m))"
  unfolding AddHostGroupMember_def
  by (rule guarded_inv) (auto simp: wf_defs Let_def clash_simps tenant_row_Some location_clash_def
      default_device_def keepDeviceServerFields_def intro!: row_ok_tput_checked split: option.splits)

lemma UpdateHostGroupMember_wf: "mem_wf m \<Longrightarrow> mem_wf (snd (UpdateHostGroupMember x m))"
  unfolding UpdateHostGroupMember_def
  by (rule guarded_inv) (auto simp: wf_defs Let_def clash_simps tenant_row_Some location_clash_def
      default_device_def keepDeviceServerFields_def intro!: row_ok_tput_checked split: option.splits)

lemma tx_CreateSubnetAuto_wf: "mem_wf m \<Longrightarrow> mem_wf (snd (tx_CreateSubnetAuto e tid s m))"
  unfolding tx_CreateSubnetAuto_def
  by (rule guarded_inv) (auto simp: wf_defs Let_def clash_simps tenant_row_Some location_clash_def
      default_device_def keepDeviceServerFields_def intro!: row_ok_tput_checked split: option.splits)

lemma DeleteSubnet_wf: "mem_wf m \<Longrightarrow> mem_wf (snd (DeleteSubnet tid i force m))"
  unfolding DeleteSubnet_def
  by (rule guarded_inv) (auto simp: wf_defs Let_def clash_simps tenant_row_Some deleteDeviceHostSyncLocked_def
      tget_fold_tdel tget_tdrop [OF row_ok_twf] intro!: row_ok_tmap split: option.splits if_splits)

lemma DeleteAddress_wf: "mem_wf m \<Longrightarrow> mem_wf (snd (DeleteAddress tid i m))"
  unfolding DeleteAddress_def
  by (rule guarded_inv) (auto simp: wf_defs Let_def clash_simps tenant_row_Some deleteDeviceHostSyncLocked_def
      tget_fold_tdel tget_tdrop [OF row_ok_twf] intro!: row_ok_tmap split: option.splits if_splits)

lemma DeleteDevice_wf: "mem_wf m \<Longrightarrow> mem_wf (snd (DeleteDevice tid i force m))"
  unfolding DeleteDevice_def
  by (rule guarded_inv) (auto simp: wf_defs Let_def clash_simps tenant_row_Some deleteDeviceHostSyncLocked_def
      tget_fold_tdel tget_tdrop [OF row_ok_twf] intro!: row_ok_tmap split: option.splits if_splits)

lemma DeleteInterface_wf: "mem_wf m \<Longrightarrow> mem_wf (snd (DeleteInterface tid i m))"
  unfolding DeleteInterface_def
  by (rule guarded_inv) (auto simp: wf_defs Let_def clash_simps tenant_row_Some deleteDeviceHostSyncLocked_def
      tget_fold_tdel tget_tdrop [OF row_ok_twf] intro!: row_ok_tmap split: option.splits if_splits)

lemma DeleteVlan_wf: "mem_wf m \<Longrightarrow> mem_wf (snd (DeleteVlan tid i force m))"
  unfolding DeleteVlan_def
  by (rule guarded_inv) (auto simp: wf_defs Let_def clash_simps tenant_row_Some deleteDeviceHostSyncLocked_def
      tget_fold_tdel tget_tdrop [OF row_ok_twf] intro!: row_ok_tmap split: option.splits if_splits)

lemma DeleteLocation_wf: "mem_wf m \<Longrightarrow> mem_wf (snd (DeleteLocation tid i force m))"
  unfolding DeleteLocation_def
  by (rule guarded_inv) (auto simp: wf_defs Let_def clash_simps tenant_row_Some deleteDeviceHostSyncLocked_def
      tget_fold_tdel tget_tdrop [OF row_ok_twf] intro!: row_ok_tmap split: option.splits if_splits)

lemma DeleteIPGroup_wf: "mem_wf m \<Longrightarrow> mem_wf (snd (DeleteIPGroup tid i m))"
  unfolding DeleteIPGroup_def
  by (rule guarded_inv) (auto simp: wf_defs Let_def clash_simps tenant_row_Some deleteDeviceHostSyncLocked_def
      tget_fold_tdel tget_tdrop [OF row_ok_twf] intro!: row_ok_tmap split: option.splits if_splits)

lemma RemoveIPGroupMember_wf: "mem_wf m \<Longrightarrow> mem_wf (snd (RemoveIPGroupMember tid i m))"
  unfolding RemoveIPGroupMember_def
  by (rule guarded_inv) (auto simp: wf_defs Let_def clash_simps tenant_row_Some deleteDeviceHostSyncLocked_def
      tget_fold_tdel tget_tdrop [OF row_ok_twf] intro!: row_ok_tmap split: option.splits if_splits)

lemma DeleteHostGroup_wf: "mem_wf m \<Longrightarrow> mem_wf (snd (DeleteHostGroup tid i m))"
  unfolding DeleteHostGroup_def
  by (rule guarded_inv) (auto simp: wf_defs Let_def clash_simps tenant_row_Some deleteDeviceHostSyncLocked_def
      tget_fold_tdel tget_tdrop [OF row_ok_twf] intro!: row_ok_tmap split: option.splits if_splits)

lemma RemoveHostGroupMember_wf: "mem_wf m \<Longrightarrow> mem_wf (snd (RemoveHostGroupMember tid i m))"
  unfolding RemoveHostGroupMember_def
  by (rule guarded_inv) (auto simp: wf_defs Let_def clash_simps tenant_row_Some deleteDeviceHostSyncLocked_def
      tget_fold_tdel tget_tdrop [OF row_ok_twf] intro!: row_ok_tmap split: option.splits if_splits)

lemma DeleteSubnetSNMP_wf: "mem_wf m \<Longrightarrow> mem_wf (snd (DeleteSubnetSNMP e tid i r m))"
  unfolding DeleteSubnetSNMP_def
  by (rule guarded_inv) (auto simp: wf_defs Let_def clash_simps tenant_row_Some deleteDeviceHostSyncLocked_def
      tget_fold_tdel tget_tdrop [OF row_ok_twf] intro!: row_ok_tmap split: option.splits if_splits)

lemma DeleteDevicePackages_wf: "mem_wf m \<Longrightarrow> mem_wf (snd (DeleteDevicePackages tid i m))"
  unfolding DeleteDevicePackages_def
  by (rule guarded_inv) (auto simp: wf_defs Let_def clash_simps tenant_row_Some deleteDeviceHostSyncLocked_def
      tget_fold_tdel tget_tdrop [OF row_ok_twf] intro!: row_ok_tmap split: option.splits if_splits)

lemma ReplaceDevicePackages_wf: "mem_wf m \<Longrightarrow> mem_wf (snd (ReplaceDevicePackages e tid i ps m))"
  unfolding ReplaceDevicePackages_def
  by (rule guarded_inv) (auto simp: wf_defs Let_def clash_simps tenant_row_Some deleteDeviceHostSyncLocked_def
      tget_fold_tdel tget_tdrop [OF row_ok_twf] intro!: row_ok_tmap split: option.splits if_splits)

lemma ReplaceInterfaceLinks_wf: "mem_wf m \<Longrightarrow> mem_wf (snd (ReplaceInterfaceLinks e tid i ls m))"
  unfolding ReplaceInterfaceLinks_def
  by (rule guarded_inv) (auto simp: wf_defs Let_def clash_simps tenant_row_Some deleteDeviceHostSyncLocked_def
      tget_fold_tdel tget_tdrop [OF row_ok_twf] intro!: row_ok_tmap split: option.splits if_splits)

lemma tx_ReplacePendingPackages_wf: "mem_wf m \<Longrightarrow> mem_wf (snd (tx_ReplacePendingPackages e tid i ps m))"
  unfolding tx_ReplacePendingPackages_def
  by (rule guarded_inv) (auto simp: wf_defs Let_def clash_simps tenant_row_Some deleteDeviceHostSyncLocked_def
      tget_fold_tdel tget_tdrop [OF row_ok_twf] intro!: row_ok_tmap split: option.splits if_splits)

lemma tx_AppendAudit_wf: "mem_wf m \<Longrightarrow> mem_wf (snd (tx_AppendAudit e tid r m))"
  unfolding tx_AppendAudit_def
  by (rule guarded_inv) (auto simp: wf_defs Let_def clash_simps tenant_row_Some deleteDeviceHostSyncLocked_def
      tget_fold_tdel tget_tdrop [OF row_ok_twf] intro!: row_ok_tmap split: option.splits if_splits)

lemma AppendAudit_wf: "mem_wf m \<Longrightarrow> mem_wf (snd (AppendAudit e r m))"
  unfolding AppendAudit_def
  by (rule guarded_inv) (auto simp: wf_defs Let_def clash_simps tenant_row_Some deleteDeviceHostSyncLocked_def
      tget_fold_tdel tget_tdrop [OF row_ok_twf] intro!: row_ok_tmap split: option.splits if_splits)

subsection \<open>Addresses\<close>

lemma findAddr_None: "findAddrLocked tid a m = None \<Longrightarrow> tget (m_addrs m) k = Some v \<Longrightarrow>
    ip_TenantID v = tid \<Longrightarrow> ip_Address v \<noteq> a"
  using tget_Some_mem by (fastforce simp: findAddrLocked_def tfind_None)

lemma wf_addr_rows: "mem_wf m \<Longrightarrow> row_ok ip_ID ip_clash (m_addrs m)"
  by (simp add: wf_defs)

lemma findAddr_Some:
  assumes "findAddrLocked tid a m = Some (k, v)" and "mem_wf m"
  shows "tget (m_addrs m) k = Some v" "ip_TenantID v = tid" "ip_Address v = a" "ip_ID v = k"
proof -
  have r: "row_ok ip_ID ip_clash (m_addrs m)"
    by (rule wf_addr_rows [OF assms(2)])
  show "tget (m_addrs m) k = Some v" "ip_TenantID v = tid" "ip_Address v = a"
    using tfind_Some [OF assms(1) [unfolded findAddrLocked_def] row_ok_twf [OF r]] by simp_all
  then show "ip_ID v = k"
    using row_ok_id [OF r] by simp
qed

lemma mem_wf_addrs: "mem_wf m \<Longrightarrow> mem_wf (m\<lparr>m_addrs := t\<rparr>) = row_ok ip_ID ip_clash t"
  by (simp add: wf_defs)

text \<open>Storing one address row: its identifier is its key and no other row of the tenant has its
  address.\<close>

lemma put_addr_wf:
  assumes "mem_wf m" and "ip_ID a = k" and "findAddrLocked (ip_TenantID a) (ip_Address a) m = None"
  shows "mem_wf (m\<lparr>m_addrs := tput k a (m_addrs m)\<rparr>)"
  unfolding mem_wf_addrs [OF assms(1)]
proof (rule row_ok_tput [OF wf_addr_rows [OF assms(1)] assms(2)])
  fix k' v
  assume v: "tget (m_addrs m) k' = Some v"
  show "\<not> ip_clash a v \<and> \<not> ip_clash v a"
    using findAddr_None [OF assms(3) v] by (auto simp: ip_clash_def)
qed

lemma put_addr_same_wf:
  assumes "mem_wf m" and "tget (m_addrs m) k = Some a0" and "ip_ID a = ip_ID a0"
    and "ip_TenantID a = ip_TenantID a0" and "ip_Address a = ip_Address a0"
  shows "mem_wf (m\<lparr>m_addrs := tput k a (m_addrs m)\<rparr>)"
  unfolding mem_wf_addrs [OF assms(1)]
  by (rule row_ok_tput_same [OF wf_addr_rows [OF assms(1)] assms(2, 3)]) (use assms in \<open>auto simp: ip_clash_def\<close>)

lemma wf_addr_id: "mem_wf m \<Longrightarrow> tget (m_addrs m) k = Some a \<Longrightarrow> ip_ID a = k"
  using row_ok_id [OF wf_addr_rows] by blast

lemma CreateAddress_wf: "mem_wf m \<Longrightarrow> mem_wf (snd (CreateAddress e a m))"
  unfolding CreateAddress_def
  by (rule guarded_inv) (auto simp: Let_def default_addr_def clearAddrServerFields_def
      intro!: put_addr_wf simp del: not_None_eq split: option.splits)

lemma UpdateAddress_wf: "mem_wf m \<Longrightarrow> mem_wf (snd (UpdateAddress e a m))"
  unfolding UpdateAddress_def
  by (rule guarded_inv) (auto simp: keepAddrServerFields_def tenant_row_Some wf_addr_id
      intro: put_addr_wf put_addr_same_wf simp del: not_None_eq split: option.splits)

lemma UpsertAddressByAddress_wf: "mem_wf m \<Longrightarrow> mem_wf (snd (UpsertAddressByAddress e a m))"
  unfolding UpsertAddressByAddress_def
  by (rule guarded_inv) (auto simp: Let_def default_addr_def clearAddrServerFields_def observe_addr_def
      dest: findAddr_Some(1) intro: put_addr_wf put_addr_same_wf simp del: not_None_eq split: option.splits)

lemma tx_InsertAddressReported_wf: "mem_wf m \<Longrightarrow> mem_wf (snd (tx_InsertAddressReported e tid a m))"
  unfolding tx_InsertAddressReported_def
  by (rule guarded_inv) (auto simp: inserted_addr_def intro!: put_addr_wf simp del: not_None_eq)

lemma tx_UpdateAddressReported_wf: "mem_wf m \<Longrightarrow> mem_wf (snd (tx_UpdateAddressReported e tid a m))"
  unfolding tx_UpdateAddressReported_def
  by (rule guarded_inv) (auto simp: reported_addr_def Let_def tenant_row_Some wf_addr_id
      intro!: put_addr_same_wf simp del: not_None_eq split: option.splits)

lemma ClearAddressConflict_wf: "mem_wf m \<Longrightarrow> mem_wf (snd (ClearAddressConflict e tid i r m))"
  unfolding ClearAddressConflict_def
  by (rule guarded_inv) (auto simp: Let_def tenant_row_Some wf_addr_id intro!: put_addr_same_wf simp del: not_None_eq split: option.splits)

lemma arp_change_keys: "arp_change op a = Some a' \<Longrightarrow>
    ip_ID a' = ip_ID a \<and> ip_TenantID a' = ip_TenantID a \<and> ip_Address a' = ip_Address a"
  by (auto simp: arp_change_def split: if_splits)

lemma applyARPOpLocked_wf: 
  assumes wf: "mem_wf m"
  shows "mem_wf (snd (applyARPOpLocked e tid op m))"
proof (cases "ao_Kind op = ARPCreate")
  case True
  then show ?thesis
    using wf by (auto simp: applyARPOpLocked_def arp_created_def intro!: put_addr_wf simp del: not_None_eq)
next
  case False
  show ?thesis
  proof (cases "tenant_row ip_TenantID tid (ao_AddressID op) (m_addrs m)")
    case (Some a)
    then have "tget (m_addrs m) (ip_ID a) = Some a"
      using wf_addr_id [OF wf] by (auto simp: tenant_row_Some)
    then show ?thesis
      using False Some wf by (auto simp: applyARPOpLocked_def dest: arp_change_keys
          intro!: put_addr_same_wf [where k = "ip_ID a"] simp del: not_None_eq split: option.splits)
  qed (use False wf in \<open>simp add: applyARPOpLocked_def\<close>)
qed

lemma mem_wf_appendAudits [simp]: "mem_wf (appendAudits e t rs m) = mem_wf m"
  by (induction rs arbitrary: e m) simp_all

lemma applyARPOps_wf: "mem_wf m \<Longrightarrow> mem_wf (applyARPOps e tid ops m)"
proof (induction ops arbitrary: e m)
  case (Cons op ops)
  obtain b m' where "applyARPOpLocked e tid op m = (b, m')"
    by (cases "applyARPOpLocked e tid op m")
  then show ?case
    using Cons applyARPOpLocked_wf [OF Cons.prems, of e tid op] by (auto split: bool.splits)
qed simp

lemma ApplyARP_wf: "mem_wf m \<Longrightarrow> mem_wf (snd (ApplyARP e tid ops sm m))"
  unfolding ApplyARP_def by (rule guarded_inv) (auto intro: applyARPOps_wf)

subsection \<open>Devices, scan jobs and settings rows\<close>

lemma mem_wf_devices: "mem_wf m \<Longrightarrow> (\<And>k. tget (m_devices m) k \<noteq> None \<Longrightarrow> tget t k \<noteq> None) \<Longrightarrow>
    row_ok dv_ID dv_clash t \<Longrightarrow> mem_wf (m\<lparr>m_devices := t\<rparr>)"
  by (simp add: wf_defs) 

lemma put_device_same_wf:
  assumes "mem_wf m" and "tget (m_devices m) k = Some d0" and "dv_ID d = k"
    and "dv_TenantID d = dv_TenantID d0" and "dv_Name d = dv_Name d0"
  shows "mem_wf (m\<lparr>m_devices := tput k d (m_devices m)\<rparr>)"
proof (rule mem_wf_devices [OF assms(1)])
  have r: "row_ok dv_ID dv_clash (m_devices m)"
    using assms(1) by (simp add: wf_defs)
  show "row_ok dv_ID dv_clash (tput k d (m_devices m))"
    by (rule row_ok_tput_same [OF r assms(2)]) (use assms row_ok_id [OF r assms(2)] in \<open>auto simp: dv_clash_def\<close>)
qed simp

lemma device_found:
  assumes "mem_wf m" and "tfind P (m_devices m) = Some (k, d)"
  shows "tget (m_devices m) k = Some d" "P d" "dv_ID d = k"
proof -
  have r: "row_ok dv_ID dv_clash (m_devices m)"
    using assms(1) by (simp add: wf_defs)
  show "tget (m_devices m) k = Some d" "P d"
    using tfind_Some [OF assms(2) row_ok_twf [OF r]] by simp_all
  then show "dv_ID d = k"
    using row_ok_id [OF r] by simp
qed

lemma scan_merge_keys: "dv_Name ex = dv_Name d \<Longrightarrow> dv_ID (scan_merge e i ex d) = i \<and>
    dv_TenantID (scan_merge e i ex d) = dv_TenantID ex \<and> dv_Name (scan_merge e i ex d) = dv_Name ex"
  by (simp add: scan_merge_def mergeDevice_def overlay_def keepDeviceServerFields_def FillEmptyDevice_def Let_def)

lemma put_device_new_wf:
  assumes "mem_wf m" and "tfind (\<lambda>ex. dv_TenantID ex = dv_TenantID d \<and> dv_Name ex = dv_Name d) (m_devices m) = None"
    and "dv_ID d = k"
  shows "mem_wf (m\<lparr>m_devices := tput k d (m_devices m)\<rparr>)"
proof (rule mem_wf_devices [OF assms(1)])
  have r: "row_ok dv_ID dv_clash (m_devices m)"
    using assms(1) by (simp add: wf_defs)
  show "row_ok dv_ID dv_clash (tput k d (m_devices m))"
    by (rule row_ok_tput_checked [OF r assms(3), where P = "\<lambda>ex. dv_TenantID ex = dv_TenantID d \<and> dv_Name ex = dv_Name d"])
      (use assms(2) in \<open>auto simp: dv_clash_def tfind_None list_ex_iff\<close>)
qed simp

lemma UpsertDeviceByName_wf: "mem_wf m \<Longrightarrow> mem_wf (snd (UpsertDeviceByName e d m))"
  unfolding UpsertDeviceByName_def
proof (rule guarded_inv, simp)
  assume wf: "mem_wf m"
  let ?P = "\<lambda>ex. dv_TenantID ex = dv_TenantID d \<and> dv_Name ex = dv_Name d"
  show "mem_wf (snd (case tfind ?P (m_devices m) of
       Some (i, ex) \<Rightarrow>
        (let merged = scan_merge e i ex d;
             m' = m\<lparr>m_devices := tput i merged (m_devices m)\<rparr> in
         (Inr (fillDevice m' merged), m'))
     | None \<Rightarrow>
        (let d' = (default_device e SrcScan d)\<lparr>dv_CreatedAt := env_mnow e, dv_UpdatedAt := env_mnow e\<rparr>;
             m' = m\<lparr>m_devices := tput (dv_ID d') d' (m_devices m)\<rparr> in
         (Inr (fillDevice m' d'), m'))))"
  proof (cases "tfind ?P (m_devices m)")
    case None
    then show ?thesis
      using wf by (auto simp: Let_def default_device_def keepDeviceServerFields_def intro!: put_device_new_wf)
  next
    case (Some p)
    then obtain i ex where p: "tfind ?P (m_devices m) = Some (i, ex)"
      by (cases p) auto
    show ?thesis
      using device_found [OF wf p] scan_merge_keys [of ex d e i] wf
      by (auto simp: p Let_def intro!: put_device_same_wf)
  qed
qed

lemma SetDeviceBMCRef_wf: "mem_wf m \<Longrightarrow> mem_wf (snd (SetDeviceBMCRef e tid i ref r m))"
  unfolding SetDeviceBMCRef_def
  by (rule guarded_inv) (auto simp: tenant_row_Some wf_defs row_ok_id clash_simps intro!: row_ok_tput_same split: option.splits)

lemma tx_SetHypervisor_wf: "mem_wf m \<Longrightarrow> mem_wf (snd (tx_SetHypervisor tid i h m))"
  unfolding tx_SetHypervisor_def
  by (rule guarded_inv) (auto simp: tenant_row_Some wf_defs row_ok_id clash_simps intro!: row_ok_tput_same split: option.splits)

lemma tx_InsertDevice_wf: "mem_wf m \<Longrightarrow> mem_wf (snd (tx_InsertDevice e tid d m))"
  unfolding tx_InsertDevice_def nameTaken_def
  by (rule guarded_inv) (auto simp: wf_defs clash_simps intro!: row_ok_tput_checked
      [where P = "\<lambda>x. dv_TenantID x = tid \<and> dv_ID x \<noteq> dv_ID d \<and> dv_Name x = dv_Name d"])

lemma tx_UpdateDeviceReported_wf: "mem_wf m \<Longrightarrow> mem_wf (snd (tx_UpdateDeviceReported e tid d m))"
  unfolding tx_UpdateDeviceReported_def nameTaken_def
  by (rule guarded_inv) (auto simp: wf_defs clash_simps tenant_row_Some reported_device_def row_ok_id
      intro!: row_ok_tput_checked split: option.splits)

lemma tx_MarkDeviceNotReported_wf: "mem_wf m \<Longrightarrow> mem_wf (snd (tx_MarkDeviceNotReported tid i m))"
  unfolding tx_MarkDeviceNotReported_def
  by (rule guarded_inv) (auto simp: wf_defs clash_simps tenant_row_Some row_ok_id
      intro!: row_ok_tput_same row_ok_tmap split: option.splits if_splits)

lemma tx_ReplaceHardware_wf: "mem_wf m \<Longrightarrow> mem_wf (snd (tx_ReplaceHardware e tid h m))"
  unfolding tx_ReplaceHardware_def
  by (rule guarded_inv) (auto simp: wf_defs tenant_row_Some intro!: row_ok_tput split: option.splits)

lemma tx_SaveDeviceState_wf: "mem_wf m \<Longrightarrow> mem_wf (snd (tx_SaveDeviceState tid st m))"
  unfolding tx_SaveDeviceState_def
  by (rule guarded_inv) (auto simp: wf_defs intro!: row_ok_tput)

lemma PutSubnetSNMP_wf: "mem_wf m \<Longrightarrow> mem_wf (snd (PutSubnetSNMP e row r m))"
  unfolding PutSubnetSNMP_def
  by (rule guarded_inv) (auto simp: wf_defs tenant_row_Some intro!: row_ok_tput split: option.splits)

lemma PutARPSettings_wf: "mem_wf m \<Longrightarrow> mem_wf (snd (PutARPSettings e s r m))"
  unfolding PutARPSettings_def
  by (rule guarded_inv) (auto simp: wf_defs intro!: row_ok_tput)

lemma CreateScanJob_wf: "mem_wf m \<Longrightarrow> mem_wf (snd (CreateScanJob e j m))"
  unfolding CreateScanJob_def
  by (rule guarded_inv) (auto simp: wf_defs Let_def intro!: row_ok_tput)

lemma UpdateScanJob_wf: "mem_wf m \<Longrightarrow> mem_wf (snd (UpdateScanJob e j m))"
  unfolding UpdateScanJob_def
  by (rule guarded_inv) (auto simp: wf_defs intro!: row_ok_tput split: option.splits)

lemma row_ok_fold_tput:
  assumes "\<And>v. idf (f v) = idf v"
  shows "row_ok idf no_clash t \<Longrightarrow> row_ok idf no_clash (fold (\<lambda>v. tput (idf v) (f v)) vs t)"
proof (induction vs arbitrary: t)
  case (Cons v vs)
  have "row_ok idf no_clash (tput (idf v) (f v) t)"
    by (rule row_ok_tput [OF Cons.prems]) (simp_all add: assms)
  then show ?case
    by (simp add: Cons.IH)
qed simp

lemma ClaimDueScanJobs_wf: "mem_wf m \<Longrightarrow> mem_wf (snd (ClaimDueScanJobs e at limit m))"
  unfolding ClaimDueScanJobs_def
  by (rule guarded_inv) (auto simp: wf_defs Let_def intro!: row_ok_fold_tput [where f = "\<lambda>j. j"])

lemma UpsertDNSConfig_wf: "mem_wf m \<Longrightarrow> mem_wf (snd (UpsertDNSConfig e c m))"
  unfolding UpsertDNSConfig_def
  by (rule guarded_inv) (auto simp: wf_defs Let_def intro!: row_ok_tput split: option.splits)

lemma tx_SetGuestDevice_wf: "mem_wf m \<Longrightarrow> mem_wf (snd (tx_SetGuestDevice tid g i m))"
  unfolding tx_SetGuestDevice_def
  by (rule guarded_inv) (auto simp: wf_defs tenant_row_Some row_ok_id intro!: row_ok_tput split: option.splits)

lemma tx_ReplaceGuests_wf: "mem_wf m \<Longrightarrow> mem_wf (snd (tx_ReplaceGuests tid h gs m))"
  unfolding tx_ReplaceGuests_def
  by (rule guarded_inv) (auto simp: wf_defs intro!: row_ok_fold_tput row_ok_tdrop)

subsection \<open>Interfaces and host synchronisation\<close>

lemma iface_found:
  assumes "mem_wf m" and "tfind P (m_ifaces m) = Some (k, x)"
  shows "tget (m_ifaces m) k = Some x" "P x" "if_ID x = k"
proof -
  have r: "row_ok if_ID if_clash (m_ifaces m)"
    using assms(1) by (simp add: wf_defs)
  show "tget (m_ifaces m) k = Some x" "P x"
    using tfind_Some [OF assms(2) row_ok_twf [OF r]] by simp_all
  then show "if_ID x = k"
    using row_ok_id [OF r] by simp
qed

lemma mem_wf_ifaces: "mem_wf m \<Longrightarrow> mem_wf (m\<lparr>m_ifaces := t\<rparr>) = row_ok if_ID if_clash t"
  by (simp add: wf_defs)

lemma wf_iface_rows: "mem_wf m \<Longrightarrow> row_ok if_ID if_clash (m_ifaces m)"
  by (simp add: wf_defs)

lemma put_iface_same_wf:
  assumes "mem_wf m" and "tget (m_ifaces m) k = Some x0" and "if_ID x = if_ID x0"
    and "if_DeviceID x = if_DeviceID x0" and "if_Name x = if_Name x0"
  shows "mem_wf (m\<lparr>m_ifaces := tput k x (m_ifaces m)\<rparr>)"
  unfolding mem_wf_ifaces [OF assms(1)]
  by (rule row_ok_tput_same [OF wf_iface_rows [OF assms(1)] assms(2, 3)]) (use assms in \<open>auto simp: if_clash_def\<close>)

lemma put_iface_new_wf:
  assumes "mem_wf m" and "tfind (\<lambda>ex. if_DeviceID ex = if_DeviceID x \<and> if_Name ex = if_Name x) (m_ifaces m) = None"
    and "if_ID x = k"
  shows "mem_wf (m\<lparr>m_ifaces := tput k x (m_ifaces m)\<rparr>)"
  unfolding mem_wf_ifaces [OF assms(1)]
  by (rule row_ok_tput_checked [OF wf_iface_rows [OF assms(1)] assms(3),
        where P = "\<lambda>ex. if_DeviceID ex = if_DeviceID x \<and> if_Name ex = if_Name x"])
    (use assms(2) in \<open>auto simp: if_clash_def tfind_None list_ex_iff\<close>)

lemma UpsertInterfaceByName_wf: "mem_wf m \<Longrightarrow> mem_wf (snd (UpsertInterfaceByName e i m))"
  unfolding UpsertInterfaceByName_def
proof (rule guarded_inv, simp)
  assume wf: "mem_wf m"
  let ?P = "\<lambda>ex. if_DeviceID ex = if_DeviceID i \<and> if_Name ex = if_Name i"
  show "mem_wf (snd (case tfind ?P (m_ifaces m) of
       Some (k, ex) \<Rightarrow>
        (let i' = i\<lparr>if_ID := k, if_CreatedAt := if_CreatedAt ex, if_ReportState := if_ReportState ex,
                    if_UpdatedAt := env_mnow e\<rparr> in
         (Inr i', m\<lparr>m_ifaces := tput k i' (m_ifaces m)\<rparr>))
     | None \<Rightarrow>
        (let i' = i\<lparr>if_ID := (if if_ID i = [] then env_ids e 0 else if_ID i),
                    if_CreatedAt := env_mnow e, if_UpdatedAt := env_mnow e\<rparr> in
         (Inr i', m\<lparr>m_ifaces := tput (if_ID i') i' (m_ifaces m)\<rparr>))))"
  proof (cases "tfind ?P (m_ifaces m)")
    case None
    then show ?thesis
      using wf by (auto simp: Let_def intro!: put_iface_new_wf)
  next
    case (Some p)
    then obtain k ex where p: "tfind ?P (m_ifaces m) = Some (k, ex)"
      by (cases p) auto
    show ?thesis
      using iface_found [OF wf p] wf by (auto simp: p Let_def intro!: put_iface_same_wf)
  qed
qed

lemma tx_UpsertInterfaceReported_wf: "mem_wf m \<Longrightarrow> mem_wf (snd (tx_UpsertInterfaceReported e tid i create m))"
  unfolding tx_UpsertInterfaceReported_def
proof (rule guarded_inv, simp)
  assume wf: "mem_wf m"
  have new: "\<not> list_ex (\<lambda>ex. if_DeviceID ex = if_DeviceID i \<and> if_Name ex = if_Name i) (tvals (m_ifaces m)) \<Longrightarrow>
      mem_wf (m\<lparr>m_ifaces := tput (if_ID i) (i\<lparr>if_TenantID := tid, if_CreatedAt := env_mnow e,
        if_UpdatedAt := env_mnow e\<rparr>) (m_ifaces m)\<rparr>)"
    by (rule put_iface_new_wf [OF wf]) (auto simp: tfind_None list_ex_iff)
  show "mem_wf (snd (if create then
       (if list_ex (\<lambda>ex. if_DeviceID ex = if_DeviceID i \<and> if_Name ex = if_Name i) (tvals (m_ifaces m))
        then (Inl RepoConflict, m)
        else (Inr (), m\<lparr>m_ifaces := tput (if_ID i)
          (i\<lparr>if_TenantID := tid, if_CreatedAt := env_mnow e, if_UpdatedAt := env_mnow e\<rparr>) (m_ifaces m)\<rparr>))
     else case tenant_row if_TenantID tid (if_ID i) (m_ifaces m) of
       None \<Rightarrow> (Inl RepoNotFound, m)
     | Some cur \<Rightarrow> (Inr (), m\<lparr>m_ifaces := tput (if_ID i)
         (cur\<lparr>if_MACAddress := if_MACAddress i, if_InterfaceType := if_InterfaceType i,
              if_SpeedMbps := if_SpeedMbps i, if_Enabled := if_Enabled i, if_ReportState := if_ReportState i,
              if_UpdatedAt := env_mnow e\<rparr>) (m_ifaces m)\<rparr>)))"
    using wf new by (auto simp: tenant_row_Some intro!: put_iface_same_wf [OF wf] split: option.splits)
qed

lemma mem_wf_hostLinks [simp]: "mem_wf (m\<lparr>m_hostLinks := x\<rparr>) = mem_wf m"
  by (simp add: wf_defs)

lemma setHostLinksLocked_wf [simp]: "mem_wf (setHostLinksLocked e t k i ls m) = mem_wf m"
  by (simp add: setHostLinksLocked_def)

lemma setHostLinksLocked_tables [simp]:
  "m_ifaces (setHostLinksLocked e t k i ls m) = m_ifaces m" "m_addrs (setHostLinksLocked e t k i ls m) = m_addrs m"
  by (simp_all add: setHostLinksLocked_def)

lemma set_iface_link_wf:
  assumes "mem_wf m"
  shows "mem_wf (set_iface_link e tid i m)"
proof -
  have wf: "mem_wf (setHostLinksLocked e tid HostKindInterface (if_ID i) (if_Links i) m)"
    using assms by simp
  show ?thesis
    unfolding set_iface_link_def Let_def
    using put_iface_same_wf [OF wf] wf by (auto split: option.splits)
qed

lemma fold_inv: "(\<And>x m. I m \<Longrightarrow> I (f x m)) \<Longrightarrow> I m \<Longrightarrow> I (fold f xs m)"
  by (induction xs arbitrary: m) auto

lemma SetInterfaceLinks_wf: "mem_wf m \<Longrightarrow> mem_wf (snd (SetInterfaceLinks e tid is r m))"
  unfolding SetInterfaceLinks_def
  by (rule guarded_inv) (auto intro!: fold_inv [where I = mem_wf] set_iface_link_wf)

lemma mem_wf_hsSettings: "mem_wf m \<Longrightarrow> mem_wf (m\<lparr>m_hsSettings := t\<rparr>) = row_ok ss_TenantID no_clash t"
  by (simp add: wf_defs)

lemma wf_settings_rows: "mem_wf m \<Longrightarrow> row_ok ss_TenantID no_clash (m_hsSettings m)"
  by (simp add: wf_defs)

lemma put_settings_wf:
  assumes "mem_wf m" and "ss_TenantID s = tid"
  shows "mem_wf (m\<lparr>m_hsSettings := tput tid s (m_hsSettings m)\<rparr>)"
  unfolding mem_wf_hsSettings [OF assms(1)]
  by (rule row_ok_tput [OF wf_settings_rows [OF assms(1)] assms(2)]) simp

lemma ensureSettingsLocked_wf:
  assumes "mem_wf m" and "ensureSettingsLocked e tid m = (s, m')"
  shows "mem_wf m' \<and> ss_TenantID s = tid"
proof (cases "tget (m_hsSettings m) tid")
  case None
  moreover have "ss_TenantID (defaultSettings e tid) = tid"
    by (simp add: defaultSettings_def)
  ultimately show ?thesis
    using assms put_settings_wf [OF assms(1)] by (auto simp: ensureSettingsLocked_def)
next
  case (Some s')
  then show ?thesis
    using assms row_ok_id [OF wf_settings_rows [OF assms(1)] Some] by (simp add: ensureSettingsLocked_def)
qed

lemma EnsureHostSyncSettings_wf: "mem_wf m \<Longrightarrow> mem_wf (snd (EnsureHostSyncSettings e tid m))"
  unfolding EnsureHostSyncSettings_def
  by (rule guarded_inv) (auto dest: ensureSettingsLocked_wf split: prod.splits)

lemma UpdateHostSyncSettings_wf: "mem_wf m \<Longrightarrow> mem_wf (snd (UpdateHostSyncSettings e s r m))"
  unfolding UpdateHostSyncSettings_def
  by (rule guarded_inv) (auto simp: edit_settings_def dest: ensureSettingsLocked_wf intro!: put_settings_wf split: prod.splits)

lemma RequestReconcile_wf: "mem_wf m \<Longrightarrow> mem_wf (snd (RequestReconcile e tid r m))"
  unfolding RequestReconcile_def
  by (rule guarded_inv) (auto dest: ensureSettingsLocked_wf intro!: put_settings_wf split: prod.splits)

lemma SaveHostSyncState_wf: "mem_wf m \<Longrightarrow> mem_wf (snd (SaveHostSyncState e tid st m))"
  unfolding SaveHostSyncState_def
  by (rule guarded_inv) (auto simp: save_status_def dest: ensureSettingsLocked_wf intro!: put_settings_wf split: prod.splits)

lemma set_address_link_wf:
  assumes "mem_wf m"
  shows "mem_wf (set_address_link e tid a m)"
proof -
  have wf: "mem_wf (setHostLinksLocked e tid HostKindAddress (ip_ID a) (ip_Links a) m)"
    using assms by simp
  show ?thesis
    unfolding set_address_link_def Let_def
    using put_addr_same_wf [OF wf] wf by (auto split: option.splits)
qed

lemma SetAddressLinks_wf: "mem_wf m \<Longrightarrow> mem_wf (snd (SetAddressLinks e tid as r m))"
  unfolding SetAddressLinks_def
  by (rule guarded_inv) (auto intro!: fold_inv [where I = mem_wf] set_address_link_wf)

section \<open>Transactions\<close>

text \<open>One step of a host report's callback: a write of the transaction, or an injected failure
  consumed by one of its reads.\<close>

inductive tx_step :: "string \<Rightarrow> Mem \<Rightarrow> Mem \<Rightarrow> bool" for tid :: string where
  tx_inject: "tx_step tid m (m\<lparr>m_failNext := ms\<rparr>)"
| tx_InsertDevice: "tx_step tid m (snd (tx_InsertDevice e tid d m))"
| tx_UpdateDeviceReported: "tx_step tid m (snd (tx_UpdateDeviceReported e tid d m))"
| tx_UpsertInterfaceReported: "tx_step tid m (snd (tx_UpsertInterfaceReported e tid i create m))"
| tx_CreateSubnetAuto: "tx_step tid m (snd (tx_CreateSubnetAuto e tid s m))"
| tx_InsertAddressReported: "tx_step tid m (snd (tx_InsertAddressReported e tid a m))"
| tx_UpdateAddressReported: "tx_step tid m (snd (tx_UpdateAddressReported e tid a m))"
| tx_ReplacePendingPackages: "tx_step tid m (snd (tx_ReplacePendingPackages e tid k ps m))"
| tx_ReplaceGuests: "tx_step tid m (snd (tx_ReplaceGuests tid k gs m))"
| tx_SetHypervisor: "tx_step tid m (snd (tx_SetHypervisor tid k h m))"
| tx_SetGuestDevice: "tx_step tid m (snd (tx_SetGuestDevice tid g k m))"
| tx_MarkDeviceNotReported: "tx_step tid m (snd (tx_MarkDeviceNotReported tid k m))"
| tx_SaveDeviceState: "tx_step tid m (snd (tx_SaveDeviceState tid st m))"
| tx_AppendAudit: "tx_step tid m (snd (tx_AppendAudit e tid r m))"
| tx_ReplaceHardware: "tx_step tid m (snd (tx_ReplaceHardware e tid h m))"

text \<open>A callback that reaches the store only through the transaction.\<close>

definition tx_prog :: "string \<Rightarrow> (Mem, unit) op \<Rightarrow> bool" where
  "tx_prog tid fn = (\<forall>m. (tx_step tid)\<^sup>*\<^sup>* m (snd (fn m)))"

lemma tx_step_wf: "tx_step tid m m' \<Longrightarrow> mem_wf m \<Longrightarrow> mem_wf m'"
  by (induction rule: tx_step.induct)
    (simp_all add: tx_InsertDevice_wf tx_UpdateDeviceReported_wf tx_UpsertInterfaceReported_wf
      tx_CreateSubnetAuto_wf tx_InsertAddressReported_wf tx_UpdateAddressReported_wf
      tx_ReplacePendingPackages_wf tx_ReplaceGuests_wf tx_SetHypervisor_wf tx_SetGuestDevice_wf
      tx_MarkDeviceNotReported_wf tx_SaveDeviceState_wf tx_AppendAudit_wf tx_ReplaceHardware_wf)

lemma tx_steps_wf: "(tx_step tid)\<^sup>*\<^sup>* m m' \<Longrightarrow> mem_wf m \<Longrightarrow> mem_wf m'"
  by (induction rule: rtranclp_induct) (auto dest: tx_step_wf)

text \<open>What a transaction may change: the tables the snapshot saves, the armed failures and the end
  of the audit log.\<close>

definition tx_frame :: "Mem \<Rightarrow> Mem \<Rightarrow> bool" where
  "tx_frame m m' = (\<exists>rows. m' = m\<lparr>m_devices := m_devices m', m_ifaces := m_ifaces m', m_addrs := m_addrs m',
     m_subnets := m_subnets m', m_pkgs := m_pkgs m', m_guests := m_guests m', m_devState := m_devState m',
     m_hardware := m_hardware m', m_failNext := m_failNext m', m_audit := m_audit m @ rows\<rparr>)"

lemma tx_frame_refl: "tx_frame m m"
  unfolding tx_frame_def by (rule exI [of _ "[]"]) simp

lemma tx_frame_trans: "tx_frame m m' \<Longrightarrow> tx_frame m' m'' \<Longrightarrow> tx_frame m m''"
  unfolding tx_frame_def
  by (elim exE, rule_tac x = "rows @ rowsa" in exI) (cases m; cases m'; cases m''; simp)

lemma tx_frame_updates [simp]:
  "tx_frame m (m\<lparr>m_devices := x0\<rparr>)"
  "tx_frame m (m\<lparr>m_ifaces := x1\<rparr>)"
  "tx_frame m (m\<lparr>m_addrs := x2\<rparr>)"
  "tx_frame m (m\<lparr>m_subnets := x3\<rparr>)"
  "tx_frame m (m\<lparr>m_pkgs := x4\<rparr>)"
  "tx_frame m (m\<lparr>m_guests := x5\<rparr>)"
  "tx_frame m (m\<lparr>m_devState := x6\<rparr>)"
  "tx_frame m (m\<lparr>m_hardware := x7\<rparr>)"
  "tx_frame m (m\<lparr>m_failNext := x8\<rparr>)"
  "tx_frame m (m\<lparr>m_devices := y1, m_ifaces := y2, m_addrs := y3\<rparr>)"
  by (rule exI [of _ "[]", THEN tx_frame_def [THEN iffD2]], simp)+

lemma tx_frame_audit [simp]: "tx_frame m (appendAuditLocked e r m)"
  by (auto simp: tx_frame_def appendAuditLocked_def)

lemma tx_frame_guarded: "tx_frame m (snd (body m)) \<Longrightarrow> tx_frame m (snd (guarded mth body m))"
  by (rule guarded_inv) simp_all

lemma tx_step_frame: "tx_step tid m m' \<Longrightarrow> tx_frame m m'"
  by (erule tx_step.cases; hypsubst?)
    (unfold tx_InsertDevice_def tx_UpdateDeviceReported_def tx_UpsertInterfaceReported_def
      tx_CreateSubnetAuto_def tx_InsertAddressReported_def tx_UpdateAddressReported_def
      tx_ReplacePendingPackages_def tx_ReplaceGuests_def tx_SetHypervisor_def tx_SetGuestDevice_def
      tx_MarkDeviceNotReported_def tx_SaveDeviceState_def tx_ReplaceHardware_def tx_AppendAudit_def,
     (simp | (rule tx_frame_guarded, simp add: tx_frame_refl split: option.split))+)

lemma tx_steps_frame: "(tx_step tid)\<^sup>*\<^sup>* m m' \<Longrightarrow> tx_frame m m'"
  by (induction rule: rtranclp_induct) (auto intro: tx_frame_refl tx_frame_trans tx_step_frame)

lemma restore_frame: "tx_frame m m' \<Longrightarrow> restoreLocked (snapshotLocked m) m' = m\<lparr>m_failNext := m_failNext m'\<rparr>"
  unfolding tx_frame_def restoreLocked_def snapshotLocked_def
  by (elim exE) (cases m; cases m'; simp)

text \<open>What a failed or refused report leaves: the settings row it may have created and the armed
  failures.\<close>

lemma ApplyHostReport_cases:
  assumes "tx_prog tid fn"
  shows "(\<exists>ms. ApplyHostReport e tid fn m = (Inl (InjectedErr ''ApplyHostReport''), m\<lparr>m_failNext := ms\<rparr>)) \<or>
    (\<exists>s m1. ensureSettingsLocked e tid m = (s, m1) \<and>
      (if ss_Enabled s then (case fn m1 of
          (Inl err, m2) \<Rightarrow> ApplyHostReport e tid fn m = (Inl err, m1\<lparr>m_failNext := m_failNext m2\<rparr>)
        | (Inr u, m2) \<Rightarrow> ApplyHostReport e tid fn m = (Inr (), m2))
       else ApplyHostReport e tid fn m = (Inl RepoSyncDisabled, m1)))"
proof (cases "mfail ''ApplyHostReport'' m")
  case None
  obtain s m1 where s: "ensureSettingsLocked e tid m = (s, m1)"
    by fastforce
  obtain r m2 where f: "fn m1 = (r, m2)"
    by fastforce
  have "(tx_step tid)\<^sup>*\<^sup>* m1 (snd (fn m1))"
    using assms unfolding tx_prog_def by blast
  then have "restoreLocked (snapshotLocked m1) m2 = m1\<lparr>m_failNext := m_failNext m2\<rparr>"
    using restore_frame [OF tx_steps_frame] f by simp
  then show ?thesis
    using None s f by (cases r) (simp_all add: ApplyHostReport_def guarded_def)
next
  case (Some p)
  then show ?thesis
    by (auto simp: ApplyHostReport_def guarded_def mfail_def split: if_splits)
qed

section \<open>Reachable states\<close>

text \<open>One call of the storage contract; a call that only reads can still consume an armed
  failure.\<close>

inductive mem_step :: "Mem \<Rightarrow> Mem \<Rightarrow> bool" where
  step_inject: "mem_step m (m\<lparr>m_failNext := ms\<rparr>)"
| step_CreateSubnet: "mem_step m (snd (CreateSubnet e s m))"
| step_UpdateSubnet: "mem_step m (snd (UpdateSubnet e s m))"
| step_DeleteSubnet: "mem_step m (snd (DeleteSubnet t k force m))"
| step_PutSubnetSNMP: "mem_step m (snd (PutSubnetSNMP e row r m))"
| step_DeleteSubnetSNMP: "mem_step m (snd (DeleteSubnetSNMP e t k r m))"
| step_CreateAddress: "mem_step m (snd (CreateAddress e a m))"
| step_UpdateAddress: "mem_step m (snd (UpdateAddress e a m))"
| step_DeleteAddress: "mem_step m (snd (DeleteAddress t k m))"
| step_UpsertAddressByAddress: "mem_step m (snd (UpsertAddressByAddress e a m))"
| step_CreateDevice: "mem_step m (snd (CreateDevice e d m))"
| step_UpdateDevice: "mem_step m (snd (UpdateDevice e d m))"
| step_DeleteDevice: "mem_step m (snd (DeleteDevice t k force m))"
| step_UpsertDeviceByName: "mem_step m (snd (UpsertDeviceByName e d m))"
| step_SetDeviceBMCRef: "mem_step m (snd (SetDeviceBMCRef e t k ref r m))"
| step_CreateInterface: "mem_step m (snd (CreateInterface e i m))"
| step_UpsertInterfaceByName: "mem_step m (snd (UpsertInterfaceByName e i m))"
| step_DeleteInterface: "mem_step m (snd (DeleteInterface t k m))"
| step_ReplaceInterfaceLinks: "mem_step m (snd (ReplaceInterfaceLinks e t k ls m))"
| step_ReplaceDevicePackages: "mem_step m (snd (ReplaceDevicePackages e t k ps m))"
| step_DeleteDevicePackages: "mem_step m (snd (DeleteDevicePackages t k m))"
| step_CreateVlan: "mem_step m (snd (CreateVlan e v m))"
| step_UpdateVlan: "mem_step m (snd (UpdateVlan e v m))"
| step_DeleteVlan: "mem_step m (snd (DeleteVlan t k force m))"
| step_CreateLocation: "mem_step m (snd (CreateLocation e l m))"
| step_UpdateLocation: "mem_step m (snd (UpdateLocation e l m))"
| step_DeleteLocation: "mem_step m (snd (DeleteLocation t k force m))"
| step_CreateIPGroup: "mem_step m (snd (CreateIPGroup e g m))"
| step_UpdateIPGroup: "mem_step m (snd (UpdateIPGroup e g m))"
| step_DeleteIPGroup: "mem_step m (snd (DeleteIPGroup t k m))"
| step_AddIPGroupMember: "mem_step m (snd (AddIPGroupMember e x m))"
| step_RemoveIPGroupMember: "mem_step m (snd (RemoveIPGroupMember t k m))"
| step_UpdateIPGroupMember: "mem_step m (snd (UpdateIPGroupMember x m))"
| step_CreateHostGroup: "mem_step m (snd (CreateHostGroup e h m))"
| step_UpdateHostGroup: "mem_step m (snd (UpdateHostGroup e h m))"
| step_DeleteHostGroup: "mem_step m (snd (DeleteHostGroup t k m))"
| step_AddHostGroupMember: "mem_step m (snd (AddHostGroupMember e y m))"
| step_RemoveHostGroupMember: "mem_step m (snd (RemoveHostGroupMember t k m))"
| step_UpdateHostGroupMember: "mem_step m (snd (UpdateHostGroupMember y m))"
| step_CreateScanJob: "mem_step m (snd (CreateScanJob e j m))"
| step_UpdateScanJob: "mem_step m (snd (UpdateScanJob e j m))"
| step_ClaimDueScanJobs: "mem_step m (snd (ClaimDueScanJobs e at limit m))"
| step_UpsertDNSConfig: "mem_step m (snd (UpsertDNSConfig e c m))"
| step_AppendAudit: "mem_step m (snd (AppendAudit e r m))"
| step_EnsureHostSyncSettings: "mem_step m (snd (EnsureHostSyncSettings e t m))"
| step_UpdateHostSyncSettings: "mem_step m (snd (UpdateHostSyncSettings e ss r m))"
| step_RequestReconcile: "mem_step m (snd (RequestReconcile e t r m))"
| step_SaveHostSyncState: "mem_step m (snd (SaveHostSyncState e t st m))"
| step_ClearAddressConflict: "mem_step m (snd (ClearAddressConflict e t k r m))"
| step_SetInterfaceLinks: "mem_step m (snd (SetInterfaceLinks e t is rs m))"
| step_SetAddressLinks: "mem_step m (snd (SetAddressLinks e t as rs m))"
| step_PutARPSettings: "mem_step m (snd (PutARPSettings e ar r m))"
| step_ApplyARP: "mem_step m (snd (ApplyARP e t os rs m))"
| step_ApplyHostReport: "tx_prog t fn \<Longrightarrow> mem_step m (snd (ApplyHostReport e t fn m))"

definition reachable :: "Mem \<Rightarrow> bool" where
  "reachable m = mem_step\<^sup>*\<^sup>* New m"

lemma ApplyHostReport_wf:
  assumes "tx_prog tid fn" and "mem_wf m"
  shows "mem_wf (snd (ApplyHostReport e tid fn m))"
proof -
  obtain s m1 where s: "ensureSettingsLocked e tid m = (s, m1)"
    by fastforce
  then have "mem_wf m1"
    using ensureSettingsLocked_wf [OF assms(2)] by blast
  moreover have "(tx_step tid)\<^sup>*\<^sup>* m1 (snd (fn m1))"
    using assms(1) unfolding tx_prog_def by blast
  ultimately have "mem_wf (snd (fn m1))" "mem_wf m1"
    using tx_steps_wf by blast+
  then show ?thesis
    using ApplyHostReport_cases [OF assms(1), of e m] s assms(2)
    by (auto split: prod.splits sum.splits if_splits)
qed

lemmas op_wf = CreateSubnet_wf UpdateSubnet_wf DeleteSubnet_wf PutSubnetSNMP_wf DeleteSubnetSNMP_wf
      CreateAddress_wf UpdateAddress_wf DeleteAddress_wf UpsertAddressByAddress_wf CreateDevice_wf
      UpdateDevice_wf DeleteDevice_wf UpsertDeviceByName_wf SetDeviceBMCRef_wf CreateInterface_wf
      UpsertInterfaceByName_wf DeleteInterface_wf ReplaceInterfaceLinks_wf ReplaceDevicePackages_wf
      DeleteDevicePackages_wf CreateVlan_wf UpdateVlan_wf DeleteVlan_wf CreateLocation_wf
      UpdateLocation_wf DeleteLocation_wf CreateIPGroup_wf UpdateIPGroup_wf DeleteIPGroup_wf
      AddIPGroupMember_wf RemoveIPGroupMember_wf UpdateIPGroupMember_wf CreateHostGroup_wf
      UpdateHostGroup_wf DeleteHostGroup_wf AddHostGroupMember_wf RemoveHostGroupMember_wf
      UpdateHostGroupMember_wf CreateScanJob_wf UpdateScanJob_wf ClaimDueScanJobs_wf
      UpsertDNSConfig_wf AppendAudit_wf EnsureHostSyncSettings_wf UpdateHostSyncSettings_wf
      RequestReconcile_wf SaveHostSyncState_wf ClearAddressConflict_wf SetInterfaceLinks_wf
      SetAddressLinks_wf PutARPSettings_wf ApplyARP_wf

lemma mem_step_wf: "mem_step m m' \<Longrightarrow> mem_wf m \<Longrightarrow> mem_wf m'"
  by (induction rule: mem_step.induct) (simp_all add: op_wf ApplyHostReport_wf)

lemma reachable_inv: "reachable m \<Longrightarrow> mem_wf m"
proof -
  have "mem_step\<^sup>*\<^sup>* New m \<Longrightarrow> mem_wf m"
    by (induction rule: rtranclp_induct) (auto intro: mem_wf_New mem_step_wf)
  then show "reachable m \<Longrightarrow> mem_wf m"
    by (simp add: reachable_def)
qed

text \<open>C1. In every state the store reaches through the operations of its contract, whatever their
  arguments and injected failures, each table is keyed by the identifiers of its rows, no two rows of a
  tenant share a unique column (a subnet or device name, an address, a VLAN tag, ...), every sealed
  SNMP credential belongs to an existing subnet, every hardware row to an existing device and every
  group member to an existing group.\<close>

theorem reachable_wf: "reachable m \<Longrightarrow> mem_wf m"
  by (rule reachable_inv)

theorem reachable_wf_witness: "mem_wf (snd (CreateAddress env0 IPAddress0 New))"
  by (rule reachable_wf) (auto simp: reachable_def intro: r_into_rtranclp step_CreateAddress)

section \<open>The audit log\<close>

definition audit_ext :: "Mem \<Rightarrow> Mem \<Rightarrow> bool" where
  "audit_ext m m' = (\<exists>rows. m_audit m' = m_audit m @ rows)"

lemma audit_ext_same: "m_audit m' = m_audit m \<Longrightarrow> audit_ext m m'"
  by (simp add: audit_ext_def)

lemma audit_ext_trans: "audit_ext m m' \<Longrightarrow> audit_ext m' m'' \<Longrightarrow> audit_ext m m''"
  by (auto simp: audit_ext_def)

lemma audit_ext_guarded: "audit_ext m (snd (body m)) \<Longrightarrow> audit_ext m (snd (guarded mth body m))"
  by (rule guarded_inv) (simp_all add: audit_ext_def)

lemma audit_ext_append: "m_audit m' = m_audit m \<Longrightarrow> audit_ext m (appendAuditLocked e r m')"
  by (simp add: audit_ext_def appendAuditLocked_def)

lemma audit_ext_appends: "audit_ext m m' \<Longrightarrow> audit_ext m (appendAudits e t rs m')"
proof (induction rs arbitrary: e m')
  case (Cons r rs)
  then show ?case
    using audit_ext_trans [OF Cons.prems audit_ext_append] by simp
qed simp

lemma applyARPOps_audit: "audit_ext m (applyARPOps e t os m)"
proof (induction os arbitrary: e m)
  case (Cons op ops)
  obtain b m' where op: "applyARPOpLocked e t op m = (b, m')"
    by fastforce
  then have "m_audit m' = m_audit m"
    by (auto simp: applyARPOpLocked_def split: if_splits option.splits)
  then have "audit_ext m m'" "audit_ext m (appendAudits e t (ao_Audit op) m')"
    by (simp_all add: audit_ext_same audit_ext_appends)
  then show ?case
    using op audit_ext_trans [OF _ Cons.IH] by (cases b) simp_all
qed (simp add: audit_ext_same)

lemma fold_audit: "(\<And>x m. m_audit (f x m) = m_audit m) \<Longrightarrow> m_audit (fold f xs m) = m_audit m"
  by (induction xs arbitrary: m) simp_all

lemma set_link_audit: "m_audit (set_iface_link e t i m) = m_audit m" "m_audit (set_address_link e t a m) = m_audit m"
  by (simp_all add: set_iface_link_def set_address_link_def setHostLinksLocked_def Let_def split: option.split)

lemma ensure_audit: "ensureSettingsLocked e t m = (s, m') \<Longrightarrow> m_audit m' = m_audit m"
  by (auto simp: ensureSettingsLocked_def split: option.splits)

lemma tx_frame_audit_ext: "tx_frame m m' \<Longrightarrow> audit_ext m m'"
  unfolding tx_frame_def audit_ext_def by (elim exE, drule arg_cong [where f = m_audit]) auto

lemma ApplyHostReport_audit:
  assumes "tx_prog tid fn"
  shows "audit_ext m (snd (ApplyHostReport e tid fn m))"
proof -
  obtain s m1 where s: "ensureSettingsLocked e tid m = (s, m1)"
    by fastforce
  have "(tx_step tid)\<^sup>*\<^sup>* m1 (snd (fn m1))"
    using assms unfolding tx_prog_def by blast
  then have "audit_ext m1 (snd (fn m1))"
    by (rule tx_frame_audit_ext [OF tx_steps_frame])
  then show ?thesis
    using ApplyHostReport_cases [OF assms, of e m] s ensure_audit [OF s]
    by (auto simp: audit_ext_def split: prod.splits sum.splits if_splits)
qed
lemmas op_defs = CreateSubnet_def UpdateSubnet_def DeleteSubnet_def PutSubnetSNMP_def DeleteSubnetSNMP_def
      CreateAddress_def UpdateAddress_def DeleteAddress_def UpsertAddressByAddress_def
      CreateDevice_def UpdateDevice_def DeleteDevice_def UpsertDeviceByName_def SetDeviceBMCRef_def
      CreateInterface_def UpsertInterfaceByName_def DeleteInterface_def ReplaceInterfaceLinks_def
      ReplaceDevicePackages_def DeleteDevicePackages_def CreateVlan_def UpdateVlan_def DeleteVlan_def
      CreateLocation_def UpdateLocation_def DeleteLocation_def CreateIPGroup_def UpdateIPGroup_def
      DeleteIPGroup_def AddIPGroupMember_def RemoveIPGroupMember_def UpdateIPGroupMember_def
      CreateHostGroup_def UpdateHostGroup_def DeleteHostGroup_def AddHostGroupMember_def
      RemoveHostGroupMember_def UpdateHostGroupMember_def CreateScanJob_def UpdateScanJob_def
      ClaimDueScanJobs_def UpsertDNSConfig_def AppendAudit_def EnsureHostSyncSettings_def
      UpdateHostSyncSettings_def RequestReconcile_def SaveHostSyncState_def ClearAddressConflict_def
      PutARPSettings_def

lemma mem_step_audit: "mem_step m m' \<Longrightarrow> audit_ext m m'"
proof (induction rule: mem_step.induct)
  case (step_ApplyHostReport t fn m e)
  then show ?case
    by (rule ApplyHostReport_audit)
next
  case (step_ApplyARP m e t os rs)
  show ?case
    unfolding ApplyARP_def by (rule audit_ext_guarded) (simp add: audit_ext_appends applyARPOps_audit)
next
  case (step_SetInterfaceLinks m e t "is" rs)
  show ?case
    unfolding SetInterfaceLinks_def
    by (rule audit_ext_guarded) (simp add: audit_ext_appends audit_ext_same fold_audit set_link_audit)
next
  case (step_SetAddressLinks m e t as rs)
  show ?case
    unfolding SetAddressLinks_def
    by (rule audit_ext_guarded) (simp add: audit_ext_appends audit_ext_same fold_audit set_link_audit)
qed (unfold op_defs, ((rule audit_ext_guarded)?, (auto simp: Let_def audit_ext_same audit_ext_append
      deleteDeviceHostSyncLocked_def ensure_audit split: option.split prod.split) [1])+)

text \<open>C5. The audit log only grows: no sequence of calls of the storage contract, a rolled back host
  report included, changes or removes a row that was in the log before.\<close>

theorem audit_append_only: "mem_step\<^sup>*\<^sup>* m m' \<Longrightarrow> take (length (m_audit m)) (m_audit m') = m_audit m"
proof -
  have "mem_step\<^sup>*\<^sup>* m m' \<Longrightarrow> audit_ext m m'"
    by (induction rule: rtranclp_induct) (auto intro: audit_ext_same audit_ext_trans mem_step_audit)
  then show "mem_step\<^sup>*\<^sup>* m m' \<Longrightarrow> take (length (m_audit m)) (m_audit m') = m_audit m"
    by (auto simp: audit_ext_def)
qed

lemma tx_prog_bind:
  assumes "tx_prog tid f" and "\<And>u. tx_prog tid (g u)"
  shows "tx_prog tid (bind_op f g)"
  unfolding tx_prog_def
proof
  fix m
  obtain r m1 where f: "f m = (r, m1)"
    by fastforce
  have 1: "(tx_step tid)\<^sup>*\<^sup>* m m1"
    using assms(1) f unfolding tx_prog_def by (metis snd_conv)
  show "(tx_step tid)\<^sup>*\<^sup>* m (snd (bind_op f g m))"
  proof (cases r)
    case (Inr u)
    have "(tx_step tid)\<^sup>*\<^sup>* m1 (snd (g u m1))"
      using assms(2) [of u] unfolding tx_prog_def by blast
    then show ?thesis
      using 1 by (simp add: bind_op_def f Inr)
  qed (simp add: bind_op_def f 1)
qed

lemma tx_prog_step: "(\<And>m. tx_step tid m (snd (f m))) \<Longrightarrow> tx_prog tid f"
  by (simp add: tx_prog_def r_into_rtranclp)

text \<open>C2. A host report is applied entirely or not at all: when the application returns an error
  (the callback failed at any point, the synchronisation is disabled, a failure was injected), every
  table and the audit log are as before the call; only the tenant's settings row may have been created
  with the defaults.\<close>

theorem ApplyHostReport_atomic:
  assumes "tx_prog tid fn" and "ApplyHostReport e tid fn m = (Inl err, m')"
  shows "\<exists>ms. m' = m\<lparr>m_failNext := ms\<rparr> \<or>
    tget (m_hsSettings m) tid = None \<and>
    m' = m\<lparr>m_hsSettings := tput tid (defaultSettings e tid) (m_hsSettings m), m_failNext := ms\<rparr>"
proof -
  obtain s m1 where s: "ensureSettingsLocked e tid m = (s, m1)"
    by fastforce
  have "m' = m\<lparr>m_failNext := m_failNext m'\<rparr> \<or> m' = m1\<lparr>m_failNext := m_failNext m'\<rparr>"
    using ApplyHostReport_cases [OF assms(1), of e m] s assms(2)
    by (auto split: prod.splits sum.splits if_splits)
  moreover have "m1 = m \<or> tget (m_hsSettings m) tid = None \<and>
      m1 = m\<lparr>m_hsSettings := tput tid (defaultSettings e tid) (m_hsSettings m)\<rparr>"
    using s by (auto simp: ensureSettingsLocked_def split: option.splits)
  ultimately show ?thesis
    by (intro exI [of _ "m_failNext m'"]) auto
qed

theorem ApplyHostReport_atomic_witness:
  "\<exists>ms m'. ApplyHostReport env0 ''t'' (bind_op (tx_AppendAudit env0 ''t'' AuditRow0)
      (\<lambda>_. tx_SetHypervisor ''t'' ''d'' ''d'')) New = (Inl RepoNotFound, m') \<and>
    (m' = New\<lparr>m_failNext := ms\<rparr> \<or> tget (m_hsSettings New) ''t'' = None \<and>
     m' = New\<lparr>m_hsSettings := tput ''t'' (defaultSettings env0 ''t'') (m_hsSettings New), m_failNext := ms\<rparr>)"
proof -
  let ?fn = "bind_op (tx_AppendAudit env0 ''t'' AuditRow0) (\<lambda>_. tx_SetHypervisor ''t'' ''d'' ''d'')"
  have p: "tx_prog ''t'' ?fn"
    by (intro tx_prog_bind tx_prog_step tx_step.intros)
  obtain m' where r: "ApplyHostReport env0 ''t'' ?fn New = (Inl RepoNotFound, m')"
    by (simp add: ApplyHostReport_def guarded_def mfail_def New_def ensureSettingsLocked_def defaultSettings_def
        bind_op_def tx_AppendAudit_def tx_SetHypervisor_def appendAuditLocked_def tenant_row_def)
  show ?thesis
    using ApplyHostReport_atomic [OF p r] r by blast
qed

theorem audit_append_only_witness:
  "take (length (m_audit New)) (m_audit (snd (AppendAudit env0 AuditRow0 New))) = m_audit New \<and>
   length (m_audit (snd (AppendAudit env0 AuditRow0 New))) = 1"
  using audit_append_only [of New "snd (AppendAudit env0 AuditRow0 New)"]
  by (auto simp: AppendAudit_def guarded_def mfail_def New_def appendAuditLocked_def intro: r_into_rtranclp step_AppendAudit)

section \<open>ARP application\<close>

text \<open>What application of a batch keeps of a row it may not write.\<close>

definition arp_kept :: "string \<Rightarrow> IPAddress \<Rightarrow> IPAddress \<Rightarrow> bool" where
  "arp_kept tid a a' = (ip_MACAddress a' = ip_MACAddress a \<and> ip_MACSource a' = ip_MACSource a \<and>
     ip_TenantID a' = ip_TenantID a \<and> ip_Address a' = ip_Address a \<and> (ip_TenantID a \<noteq> tid \<longrightarrow> a' = a))"

lemma applyARPOpLocked_kept:
  assumes wf: "mem_wf m" and a: "tget (m_addrs m) k = Some a" "\<not> arpOwned a \<or> ip_TenantID a \<noteq> tid"
    and op: "applyARPOpLocked e tid op m = (b, m')"
  shows "\<exists>a'. tget (m_addrs m') k = Some a' \<and> arp_kept tid a a'"
proof (cases "ao_Kind op = ARPCreate")
  case True
  then show ?thesis
    using op a by (auto simp: applyARPOpLocked_def arp_kept_def split: if_splits)
next
  case False
  show ?thesis
  proof (cases "tenant_row ip_TenantID tid (ao_AddressID op) (m_addrs m)")
    case None
    then show ?thesis
      using op a False by (auto simp: applyARPOpLocked_def arp_kept_def)
  next
    case (Some x)
    then have x: "tget (m_addrs m) (ip_ID x) = Some x" "ip_TenantID x = tid"
      using wf_addr_id [OF wf] by (auto simp: tenant_row_Some)
    show ?thesis
    proof (cases "ip_ID x = k")
      case True
      then have "x = a"
        using x a by simp
      then show ?thesis
        using True op a False Some x
        by (auto simp: applyARPOpLocked_def arp_change_def arp_kept_def split: option.splits if_splits)
    next
      case n: False
      then show ?thesis
        using op a False Some by (auto simp: applyARPOpLocked_def arp_kept_def split: option.splits)
    qed
  qed
qed

lemma arp_kept_refl: "arp_kept tid a a"
  by (simp add: arp_kept_def)

lemma arp_kept_trans: "arp_kept tid a b \<Longrightarrow> arp_kept tid b c \<Longrightarrow> arp_kept tid a c"
  by (auto simp: arp_kept_def)

lemma arp_kept_owned: "arp_kept tid a b \<Longrightarrow> \<not> arpOwned a \<or> ip_TenantID a \<noteq> tid \<Longrightarrow> \<not> arpOwned b \<or> ip_TenantID b \<noteq> tid"
  by (auto simp: arp_kept_def arpOwned_def)

lemma applyARPOps_kept:
  assumes "mem_wf m" and "tget (m_addrs m) k = Some a" and "\<not> arpOwned a \<or> ip_TenantID a \<noteq> tid"
  shows "\<exists>a'. tget (m_addrs (applyARPOps e tid ops m)) k = Some a' \<and> arp_kept tid a a'"
  using assms
proof (induction ops arbitrary: e m a)
  case (Cons op ops)
  obtain b m' where op: "applyARPOpLocked e tid op m = (b, m')"
    by fastforce
  then have wf: "mem_wf m'"
    using applyARPOpLocked_wf [OF Cons.prems(1), of e tid op] by simp
  obtain a1 where a1: "tget (m_addrs m') k = Some a1" "arp_kept tid a a1"
    using applyARPOpLocked_kept [OF Cons.prems op] by blast
  define m2 e2 where "m2 = (if b then appendAudits e tid (ao_Audit op) m' else m')"
    and "e2 = (if b then env_skip (length (ao_Audit op)) e else e)"
  have "applyARPOps e tid (op # ops) m = applyARPOps e2 tid ops m2" "mem_wf m2" "tget (m_addrs m2) k = Some a1"
    using op wf a1 by (cases b; simp add: m2_def e2_def)+
  then show ?case
    using Cons.IH [OF _ _ arp_kept_owned [OF a1(2) Cons.prems(3)], of m2 e2] arp_kept_trans [OF a1(2)] by auto
qed (auto intro: arp_kept_refl)

text \<open>C3. Applying what the ARP tables of switches and routers say never overwrites a MAC address that
  an agent reported or a person entered, and never touches a row of another tenant.\<close>

theorem ApplyARP_respects_provenance:
  assumes "reachable m" and "tget (m_addrs m) k = Some a" and "\<not> arpOwned a \<or> ip_TenantID a \<noteq> tid"
  shows "\<exists>a'. tget (m_addrs (snd (ApplyARP e tid ops sm m))) k = Some a' \<and>
    ip_MACAddress a' = ip_MACAddress a \<and> ip_MACSource a' = ip_MACSource a \<and>
    (ip_TenantID a \<noteq> tid \<longrightarrow> a' = a)"
proof -
  have wf: "mem_wf m"
    by (rule reachable_inv [OF assms(1)])
  show ?thesis
    unfolding ApplyARP_def
  proof (rule guarded_inv)
    show "\<exists>a'. tget (m_addrs (m\<lparr>m_failNext := filter (\<lambda>x. x \<noteq> ''ApplyARP'') (m_failNext m)\<rparr>)) k = Some a' \<and>
      ip_MACAddress a' = ip_MACAddress a \<and> ip_MACSource a' = ip_MACSource a \<and> (ip_TenantID a \<noteq> tid \<longrightarrow> a' = a)"
      using assms(2) by simp
  qed (use applyARPOps_kept [OF wf assms(2, 3), of e ops] in \<open>auto simp: arp_kept_def\<close>)
qed

abbreviation arp_demo :: Mem where
  "arp_demo \<equiv> snd (CreateAddress env0
     (IPAddress0\<lparr>ip_ID := ''a'', ip_TenantID := ''t'', ip_Address := ''10.0.0.1'', ip_MACAddress := ''m''\<rparr>) New)"

theorem ApplyARP_respects_provenance_witness:
  "\<exists>a'. tget (m_addrs (snd (ApplyARP env0 ''t''
       [ARPOp0\<lparr>ao_Kind := ARPUpdate, ao_AddressID := ''a'', ao_MAC := ''x''\<rparr>] [] arp_demo))) ''a'' = Some a' \<and>
     ip_MACAddress a' = ''m''"
proof -
  have r: "reachable arp_demo"
    unfolding reachable_def by (rule r_into_rtranclp, rule step_CreateAddress)
  obtain a where a: "tget (m_addrs arp_demo) ''a'' = Some a" "ip_MACAddress a = ''m''" "ip_MACSource a = []"
    by (simp add: CreateAddress_def guarded_def mfail_def New_def findAddrLocked_def tfind_def default_addr_def
        clearAddrServerFields_def IPAddress0_def Let_def)
  then have "\<not> arpOwned a"
    by (simp add: arpOwned_def)
  then show ?thesis
    using ApplyARP_respects_provenance [OF r a(1), of "''t''" env0
        "[ARPOp0\<lparr>ao_Kind := ARPUpdate, ao_AddressID := ''a'', ao_MAC := ''x''\<rparr>]" "[]"] a(2) by auto
qed

section \<open>The scan queue\<close>

lemma tget_fold_put_other: "k \<notin> idf ` set vs \<Longrightarrow> tget (fold (\<lambda>v. tput (idf v) v) vs t) k = tget t k"
  by (induction vs arbitrary: t) auto

lemma tget_fold_put_mem: "distinct (map idf vs) \<Longrightarrow> v \<in> set vs \<Longrightarrow>
    tget (fold (\<lambda>v. tput (idf v) v) vs t) (idf v) = Some v"
proof (induction vs arbitrary: t)
  case (Cons w vs)
  then show ?case
    by (cases "v = w") (simp_all add: tget_fold_put_other)
qed simp

definition claimed_rows :: "time \<Rightarrow> int \<Rightarrow> Mem \<Rightarrow> IPScanJob list" where
  "claimed_rows at limit m = (let due = sort_by due_less (filter (scan_due at) (tvals (m_scans m))) in
     if limit > 0 \<and> int (length due) > limit then take (nat limit) due else due)"

lemma ClaimDueScanJobs_run:
  "mfail ''ClaimDueScanJobs'' m = None \<Longrightarrow> ClaimDueScanJobs e at limit m =
     (Inr (map (claim_job e) (claimed_rows at limit m)),
      m\<lparr>m_scans := fold (\<lambda>j. tput (sj_ID j) j) (map (claim_job e) (claimed_rows at limit m)) (m_scans m)\<rparr>)"
  by (simp add: ClaimDueScanJobs_def guarded_def claimed_rows_def Let_def)

lemma due_less_order: "\<not> due_less a b \<Longrightarrow> \<not> due_less b c \<Longrightarrow> \<not> due_less a c" "due_less a b \<Longrightarrow> \<not> due_less b a"
  by (auto simp: due_less_def split: if_splits)

lemma distinct_ids:
  assumes "row_ok idf cl t"
  shows "distinct (map idf (tvals t))"
proof -
  have "map idf (tvals t) = map fst t"
    using assms by (auto simp: row_ok_def tvals_def tget_def twf_def)
  then show ?thesis
    using assms by (simp add: row_ok_def twf_def)
qed

lemma due_rows:
  assumes "row_ok sj_ID no_clash (m_scans m)"
  shows "distinct (map sj_ID (sort_by due_less (filter (scan_due at) (tvals (m_scans m)))))"
    and "j \<in> set (sort_by due_less (filter (scan_due at) (tvals (m_scans m)))) \<longleftrightarrow>
      tget (m_scans m) (sj_ID j) = Some j \<and> scan_due at j"
proof -
  have "distinct (map sj_ID (tvals (m_scans m)))"
    by (rule distinct_ids [OF assms])
  then show "distinct (map sj_ID (sort_by due_less (filter (scan_due at) (tvals (m_scans m)))))"
    by (auto simp: distinct_map inj_on_def)
  show "j \<in> set (sort_by due_less (filter (scan_due at) (tvals (m_scans m)))) \<longleftrightarrow>
      tget (m_scans m) (sj_ID j) = Some j \<and> scan_due at j"
    using tvals_mem_iff [OF row_ok_twf [OF assms], of j] row_ok_id [OF assms] by auto
qed

lemma claimed_rows_prefix: "\<exists>rest. sort_by due_less (filter (scan_due at) (tvals (m_scans m))) = claimed_rows at limit m @ rest"
  unfolding claimed_rows_def Let_def
  by (intro exI [of _ "if limit > 0 \<and> int (length (sort_by due_less (filter (scan_due at) (tvals (m_scans m))))) > limit
      then drop (nat limit) (sort_by due_less (filter (scan_due at) (tvals (m_scans m)))) else []"]) simp

lemma claimed_rows_first:
  assumes "row_ok sj_ID no_clash (m_scans m)" and "j \<in> set (claimed_rows at limit m)"
    and "tget (m_scans m) k = Some j'" "scan_due at j'" "k \<notin> set (map sj_ID (claimed_rows at limit m))"
  shows "\<not> due_less j' j"
proof -
  obtain rest where r: "sort_by due_less (filter (scan_due at) (tvals (m_scans m))) = claimed_rows at limit m @ rest"
    using claimed_rows_prefix by blast
  have "sj_ID j' = k"
    using row_ok_id [OF assms(1, 3)] .
  then have "j' \<in> set (claimed_rows at limit m @ rest)"
    using due_rows(2) [OF assms(1), of j' at] assms(3, 4) r by simp
  then have "j' \<in> set rest"
    using assms(5) \<open>sj_ID j' = k\<close> by auto
  moreover have "sorted_wrt (\<lambda>a b. \<not> due_less b a) (claimed_rows at limit m @ rest)"
    unfolding r [symmetric] by (rule sorted_sort_by [of due_less, OF due_less_order])
  ultimately show ?thesis
    using assms(2) by (auto simp: sorted_wrt_append)
qed

lemma claimed_rows_stored:
  assumes "row_ok sj_ID no_clash (m_scans m)"
  shows "distinct (map sj_ID (claimed_rows at limit m))"
    and "j \<in> set (claimed_rows at limit m) \<Longrightarrow> tget (m_scans m) (sj_ID j) = Some j \<and> scan_due at j"
proof -
  obtain rest where r: "sort_by due_less (filter (scan_due at) (tvals (m_scans m))) = claimed_rows at limit m @ rest"
    using claimed_rows_prefix by blast
  show "distinct (map sj_ID (claimed_rows at limit m))"
    using due_rows(1) [OF assms, of at] unfolding r by simp
  show "j \<in> set (claimed_rows at limit m) \<Longrightarrow> tget (m_scans m) (sj_ID j) = Some j \<and> scan_due at j"
    using due_rows(2) [OF assms, of j at] unfolding r by simp
qed

lemma claim_job_simps [simp]: "sj_ID (claim_job e j) = sj_ID j" "sj_Status (claim_job e j) = ScanScanning"
  by (simp_all add: claim_job_def)

text \<open>C4. Claiming hands out exactly the due jobs, earliest first and at most the limit, marks each as
  scanning, and no later claim, at whatever time, hands out one of them again.\<close>

theorem ClaimDueScanJobs_exclusive:
  assumes "reachable m" and "ClaimDueScanJobs e at limit m = (Inr js, m')"
  shows "distinct (map sj_ID js) \<and>
    length js = (let n = length (filter (scan_due at) (tvals (m_scans m))) in if limit > 0 then min (nat limit) n else n) \<and>
    (\<forall>j \<in> set js. tget (m_scans m') (sj_ID j) = Some j \<and> sj_Status j = ScanScanning \<and>
      (\<exists>j0. tget (m_scans m) (sj_ID j) = Some j0 \<and> scan_due at j0 \<and> j = claim_job e j0 \<and>
        (\<forall>k j'. tget (m_scans m) k = Some j' \<longrightarrow> scan_due at j' \<longrightarrow> k \<notin> set (map sj_ID js) \<longrightarrow> \<not> due_less j' j0))) \<and>
    (\<forall>e2 at2 limit2 js2 m2. ClaimDueScanJobs e2 at2 limit2 m' = (Inr js2, m2) \<longrightarrow>
      set (map sj_ID js) \<inter> set (map sj_ID js2) = {})"
proof -
  have wf: "mem_wf m"
    by (rule reachable_inv [OF assms(1)])
  then have r: "row_ok sj_ID no_clash (m_scans m)"
    by (simp add: wf_defs)
  define cs where "cs = claimed_rows at limit m"
  have no: "mfail ''ClaimDueScanJobs'' m = None"
    using assms(2) by (auto simp: ClaimDueScanJobs_def guarded_def split: option.splits)
  have js: "js = map (claim_job e) cs"
    and m': "m_scans m' = fold (\<lambda>j. tput (sj_ID j) j) js (m_scans m)"
    using assms(2) unfolding ClaimDueScanJobs_run [OF no] by (simp_all add: cs_def) auto
  have ids: "map sj_ID js = map sj_ID cs"
    by (simp add: js)
  have d: "distinct (map sj_ID js)"
    using claimed_rows_stored(1) [OF r] ids by (simp add: cs_def)
  have len: "length js = (let n = length (filter (scan_due at) (tvals (m_scans m))) in if limit > 0 then min (nat limit) n else n)"
    by (auto simp: js cs_def claimed_rows_def Let_def)
  have new: "tget (m_scans m') (sj_ID j) = Some j" if "j \<in> set js" for j
    unfolding m' by (rule tget_fold_put_mem [OF d that])
  have "mem_wf m'"
    using ClaimDueScanJobs_wf [OF wf, of e at limit] assms(2) by simp
  then have r': "row_ok sj_ID no_clash (m_scans m')"
    by (simp add: wf_defs)
  have later: "set (map sj_ID js) \<inter> set (map sj_ID js2) = {}"
    if c2: "ClaimDueScanJobs e2 at2 limit2 m' = (Inr js2, m2)" for e2 at2 limit2 js2 m2
  proof -
    have no2: "mfail ''ClaimDueScanJobs'' m' = None"
      using c2 by (auto simp: ClaimDueScanJobs_def guarded_def split: option.splits)
    have ids2: "map sj_ID js2 = map sj_ID (claimed_rows at2 limit2 m')"
      using c2 unfolding ClaimDueScanJobs_run [OF no2] by auto
    have ne: "sj_ID x \<noteq> sj_ID j" if x: "x \<in> set (claimed_rows at2 limit2 m')" and j: "j \<in> set js" for x j
    proof
      assume "sj_ID x = sj_ID j"
      then have "x = j"
        using claimed_rows_stored(2) [OF r' x] new [OF j] by (metis option.inject)
      then show False
        using claimed_rows_stored(2) [OF r' x] j by (auto simp: js scan_due_def)
    qed
    show ?thesis
      unfolding ids2 using ne by (simp add: disjoint_iff) blast
  qed
  have src: "\<exists>j0. tget (m_scans m) (sj_ID j) = Some j0 \<and> scan_due at j0 \<and> j = claim_job e j0 \<and>
      (\<forall>k j'. tget (m_scans m) k = Some j' \<longrightarrow> scan_due at j' \<longrightarrow> k \<notin> set (map sj_ID js) \<longrightarrow> \<not> due_less j' j0)"
    if j: "j \<in> set js" for j
  proof -
    obtain c where c: "c \<in> set (claimed_rows at limit m)" "j = claim_job e c"
      using j by (auto simp: js cs_def)
    show ?thesis
      using claimed_rows_stored(2) [OF r c(1)] claimed_rows_first [OF r c(1)] c(2)
      unfolding ids cs_def by (intro exI [of _ c]) simp
  qed
  have st: "sj_Status j = ScanScanning" if "j \<in> set js" for j
    using that by (auto simp: js)
  show ?thesis
  proof (intro conjI)
    show "\<forall>e2 at2 limit2 js2 m2. ClaimDueScanJobs e2 at2 limit2 m' = (Inr js2, m2) \<longrightarrow>
        set (map sj_ID js) \<inter> set (map sj_ID js2) = {}"
      using later by blast
  qed (fact d, fact len, use new st src in blast)
qed


theorem ClaimDueScanJobs_exclusive_witness:
  "\<exists>js m'. ClaimDueScanJobs env0 10 0 (snd (CreateScanJob env0 (IPScanJob0\<lparr>sj_ID := ''j''\<rparr>) New)) = (Inr js, m') \<and>
     map sj_ID js = [''j''] \<and> (\<forall>j \<in> set js. sj_Status j = ScanScanning)"
proof -
  let ?m = "snd (CreateScanJob env0 (IPScanJob0\<lparr>sj_ID := ''j''\<rparr>) New)"
  have r: "reachable ?m"
    unfolding reachable_def by (rule r_into_rtranclp, rule step_CreateScanJob)
  obtain js m' where c: "ClaimDueScanJobs env0 10 0 ?m = (Inr js, m')" "map sj_ID js = [''j'']"
    by (simp add: CreateScanJob_def ClaimDueScanJobs_def guarded_def mfail_def New_def Let_def tput_def tvals_def
        scan_due_def IPScanJob0_def)
  have st: "\<forall>j \<in> set js. sj_Status j = ScanScanning"
    using ClaimDueScanJobs_exclusive [OF r c(1)] by (elim conjE) simp
  show ?thesis
    by (intro exI conjI) (fact c, fact c, fact st)
qed

end
