(* ===== verification/Memstore_Store.thy ===== *)
theory Memstore_Store
  imports Memstore_Inv
begin

text \<open>
  The in-memory store as an implementation of the storage contract.
\<close>

definition mem_store :: "Mem Store" where
  "mem_store = \<lparr>
     s_CreateSubnet = CreateSubnet,
     s_GetSubnet = GetSubnet,
     s_ListSubnets = ListSubnets,
     s_UpdateSubnet = UpdateSubnet,
     s_DeleteSubnet = DeleteSubnet,
     s_CountAddressesInSubnet = CountAddressesInSubnet,
     s_ListAllocatedAddresses = ListAllocatedAddresses,
     s_SubnetsForVlan = SubnetsForVlan,
     s_AllSubnetCIDRs = AllSubnetCIDRs,
     s_GetSubnetSNMP = GetSubnetSNMP,
     s_PutSubnetSNMP = PutSubnetSNMP,
     s_DeleteSubnetSNMP = DeleteSubnetSNMP,
     s_ListSubnetSNMP = ListSubnetSNMP,
     s_LegacySNMPRefCount = LegacySNMPRefCount,
     s_CreateAddress = CreateAddress,
     s_GetAddress = GetAddress,
     s_FindAddress = FindAddress,
     s_ListAddresses = ListAddresses,
     s_UpdateAddress = UpdateAddress,
     s_DeleteAddress = DeleteAddress,
     s_UpsertAddressByAddress = UpsertAddressByAddress,
     s_AddressesForDevice = AddressesForDevice,
     s_CreateDevice = CreateDevice,
     s_GetDevice = GetDevice,
     s_ListDevices = ListDevices,
     s_UpdateDevice = UpdateDevice,
     s_DeleteDevice = DeleteDevice,
     s_UpsertDeviceByName = UpsertDeviceByName,
     s_GetDeviceHardware = GetDeviceHardware,
     s_SetDeviceBMCRef = SetDeviceBMCRef,
     s_CreateInterface = CreateInterface,
     s_GetInterface = GetInterface,
     s_ListInterfaces = ListInterfaces,
     s_UpsertInterfaceByName = UpsertInterfaceByName,
     s_DeleteInterface = DeleteInterface,
     s_ReplaceInterfaceLinks = ReplaceInterfaceLinks,
     s_ListInterfaceLinks = ListInterfaceLinks,
     s_ReplaceDevicePackages = ReplaceDevicePackages,
     s_ListDevicePackages = ListDevicePackages,
     s_DeleteDevicePackages = DeleteDevicePackages,
     s_CreateVlan = CreateVlan,
     s_GetVlan = GetVlan,
     s_ListVlans = ListVlans,
     s_UpdateVlan = UpdateVlan,
     s_DeleteVlan = DeleteVlan,
     s_CreateLocation = CreateLocation,
     s_GetLocation = GetLocation,
     s_ListLocations = ListLocations,
     s_UpdateLocation = UpdateLocation,
     s_DeleteLocation = DeleteLocation,
     s_CreateIPGroup = CreateIPGroup,
     s_GetIPGroup = GetIPGroup,
     s_ListIPGroups = ListIPGroups,
     s_UpdateIPGroup = UpdateIPGroup,
     s_DeleteIPGroup = DeleteIPGroup,
     s_AddIPGroupMember = AddIPGroupMember,
     s_RemoveIPGroupMember = RemoveIPGroupMember,
     s_UpdateIPGroupMember = UpdateIPGroupMember,
     s_ListIPGroupMembers = ListIPGroupMembers,
     s_AllIPGroupsWithMembers = AllIPGroupsWithMembers,
     s_CreateHostGroup = CreateHostGroup,
     s_GetHostGroup = GetHostGroup,
     s_ListHostGroups = ListHostGroups,
     s_UpdateHostGroup = UpdateHostGroup,
     s_DeleteHostGroup = DeleteHostGroup,
     s_AddHostGroupMember = AddHostGroupMember,
     s_RemoveHostGroupMember = RemoveHostGroupMember,
     s_UpdateHostGroupMember = UpdateHostGroupMember,
     s_ListHostGroupMembers = ListHostGroupMembers,
     s_ListDeviceHostGroups = ListDeviceHostGroups,
     s_CreateScanJob = CreateScanJob,
     s_GetScanJob = GetScanJob,
     s_ListScanJobs = ListScanJobs,
     s_UpdateScanJob = UpdateScanJob,
     s_ClaimDueScanJobs = ClaimDueScanJobs,
     s_ActiveScanForSubnet = ActiveScanForSubnet,
     s_GetDNSConfig = GetDNSConfig,
     s_UpsertDNSConfig = UpsertDNSConfig,
     s_TenantStats = TenantStats,
     s_TenantIDs = TenantIDs,
     s_AppendAudit = AppendAudit,
     s_GetARPSettings = GetARPSettings,
     s_PutARPSettings = PutARPSettings,
     s_NetworkMACs = NetworkMACs,
     s_ApplyARP = ApplyARP,
     s_PortLinkData = PortLinkData,
     s_SetInterfaceLinks = SetInterfaceLinks,
     s_SetAddressLinks = SetAddressLinks,
     s_EnsureHostSyncSettings = EnsureHostSyncSettings,
     s_GetHostSyncSettings = GetHostSyncSettings,
     s_UpdateHostSyncSettings = UpdateHostSyncSettings,
     s_RequestReconcile = RequestReconcile,
     s_ListHostSyncSettings = ListHostSyncSettings,
     s_SaveHostSyncState = SaveHostSyncState,
     s_ApplyHostReport = ApplyHostReport,
     s_HostDevices = HostDevices,
     s_GetHostSyncDeviceState = GetHostSyncDeviceState,
     s_HostSyncCounts = HostSyncCounts,
     s_ListGuests = ListGuests,
     s_ClearAddressConflict = ClearAddressConflict\<rparr>"

lemma mem_store_simps [simp]:
  "s_CreateSubnet mem_store = CreateSubnet"
  "s_GetSubnet mem_store = GetSubnet"
  "s_ListSubnets mem_store = ListSubnets"
  "s_UpdateSubnet mem_store = UpdateSubnet"
  "s_DeleteSubnet mem_store = DeleteSubnet"
  "s_CountAddressesInSubnet mem_store = CountAddressesInSubnet"
  "s_ListAllocatedAddresses mem_store = ListAllocatedAddresses"
  "s_SubnetsForVlan mem_store = SubnetsForVlan"
  "s_AllSubnetCIDRs mem_store = AllSubnetCIDRs"
  "s_GetSubnetSNMP mem_store = GetSubnetSNMP"
  "s_PutSubnetSNMP mem_store = PutSubnetSNMP"
  "s_DeleteSubnetSNMP mem_store = DeleteSubnetSNMP"
  "s_ListSubnetSNMP mem_store = ListSubnetSNMP"
  "s_LegacySNMPRefCount mem_store = LegacySNMPRefCount"
  "s_CreateAddress mem_store = CreateAddress"
  "s_GetAddress mem_store = GetAddress"
  "s_FindAddress mem_store = FindAddress"
  "s_ListAddresses mem_store = ListAddresses"
  "s_UpdateAddress mem_store = UpdateAddress"
  "s_DeleteAddress mem_store = DeleteAddress"
  "s_UpsertAddressByAddress mem_store = UpsertAddressByAddress"
  "s_AddressesForDevice mem_store = AddressesForDevice"
  "s_CreateDevice mem_store = CreateDevice"
  "s_GetDevice mem_store = GetDevice"
  "s_ListDevices mem_store = ListDevices"
  "s_UpdateDevice mem_store = UpdateDevice"
  "s_DeleteDevice mem_store = DeleteDevice"
  "s_UpsertDeviceByName mem_store = UpsertDeviceByName"
  "s_GetDeviceHardware mem_store = GetDeviceHardware"
  "s_SetDeviceBMCRef mem_store = SetDeviceBMCRef"
  "s_CreateInterface mem_store = CreateInterface"
  "s_GetInterface mem_store = GetInterface"
  "s_ListInterfaces mem_store = ListInterfaces"
  "s_UpsertInterfaceByName mem_store = UpsertInterfaceByName"
  "s_DeleteInterface mem_store = DeleteInterface"
  "s_ReplaceInterfaceLinks mem_store = ReplaceInterfaceLinks"
  "s_ListInterfaceLinks mem_store = ListInterfaceLinks"
  "s_ReplaceDevicePackages mem_store = ReplaceDevicePackages"
  "s_ListDevicePackages mem_store = ListDevicePackages"
  "s_DeleteDevicePackages mem_store = DeleteDevicePackages"
  "s_CreateVlan mem_store = CreateVlan"
  "s_GetVlan mem_store = GetVlan"
  "s_ListVlans mem_store = ListVlans"
  "s_UpdateVlan mem_store = UpdateVlan"
  "s_DeleteVlan mem_store = DeleteVlan"
  "s_CreateLocation mem_store = CreateLocation"
  "s_GetLocation mem_store = GetLocation"
  "s_ListLocations mem_store = ListLocations"
  "s_UpdateLocation mem_store = UpdateLocation"
  "s_DeleteLocation mem_store = DeleteLocation"
  "s_CreateIPGroup mem_store = CreateIPGroup"
  "s_GetIPGroup mem_store = GetIPGroup"
  "s_ListIPGroups mem_store = ListIPGroups"
  "s_UpdateIPGroup mem_store = UpdateIPGroup"
  "s_DeleteIPGroup mem_store = DeleteIPGroup"
  "s_AddIPGroupMember mem_store = AddIPGroupMember"
  "s_RemoveIPGroupMember mem_store = RemoveIPGroupMember"
  "s_UpdateIPGroupMember mem_store = UpdateIPGroupMember"
  "s_ListIPGroupMembers mem_store = ListIPGroupMembers"
  "s_AllIPGroupsWithMembers mem_store = AllIPGroupsWithMembers"
  "s_CreateHostGroup mem_store = CreateHostGroup"
  "s_GetHostGroup mem_store = GetHostGroup"
  "s_ListHostGroups mem_store = ListHostGroups"
  "s_UpdateHostGroup mem_store = UpdateHostGroup"
  "s_DeleteHostGroup mem_store = DeleteHostGroup"
  "s_AddHostGroupMember mem_store = AddHostGroupMember"
  "s_RemoveHostGroupMember mem_store = RemoveHostGroupMember"
  "s_UpdateHostGroupMember mem_store = UpdateHostGroupMember"
  "s_ListHostGroupMembers mem_store = ListHostGroupMembers"
  "s_ListDeviceHostGroups mem_store = ListDeviceHostGroups"
  "s_CreateScanJob mem_store = CreateScanJob"
  "s_GetScanJob mem_store = GetScanJob"
  "s_ListScanJobs mem_store = ListScanJobs"
  "s_UpdateScanJob mem_store = UpdateScanJob"
  "s_ClaimDueScanJobs mem_store = ClaimDueScanJobs"
  "s_ActiveScanForSubnet mem_store = ActiveScanForSubnet"
  "s_GetDNSConfig mem_store = GetDNSConfig"
  "s_UpsertDNSConfig mem_store = UpsertDNSConfig"
  "s_TenantStats mem_store = TenantStats"
  "s_TenantIDs mem_store = TenantIDs"
  "s_AppendAudit mem_store = AppendAudit"
  "s_GetARPSettings mem_store = GetARPSettings"
  "s_PutARPSettings mem_store = PutARPSettings"
  "s_NetworkMACs mem_store = NetworkMACs"
  "s_ApplyARP mem_store = ApplyARP"
  "s_PortLinkData mem_store = PortLinkData"
  "s_SetInterfaceLinks mem_store = SetInterfaceLinks"
  "s_SetAddressLinks mem_store = SetAddressLinks"
  "s_EnsureHostSyncSettings mem_store = EnsureHostSyncSettings"
  "s_GetHostSyncSettings mem_store = GetHostSyncSettings"
  "s_UpdateHostSyncSettings mem_store = UpdateHostSyncSettings"
  "s_RequestReconcile mem_store = RequestReconcile"
  "s_ListHostSyncSettings mem_store = ListHostSyncSettings"
  "s_SaveHostSyncState mem_store = SaveHostSyncState"
  "s_ApplyHostReport mem_store = ApplyHostReport"
  "s_HostDevices mem_store = HostDevices"
  "s_GetHostSyncDeviceState mem_store = GetHostSyncDeviceState"
  "s_HostSyncCounts mem_store = HostSyncCounts"
  "s_ListGuests mem_store = ListGuests"
  "s_ClearAddressConflict mem_store = ClearAddressConflict"
  by (simp_all add: mem_store_def)

end
