(* ===== verification/Service.thy ===== *)
theory Service
  imports Repo Authz
begin

text \<open>
  What the services share: the world a service call runs in (the store's state and the realtime
  events published so far) and the event payloads of \<open>internal/events/events.go\<close>. A store
  operation inside a service is lifted with \<open>on_store\<close>; an authorization check without state
  with \<open>check\<close>.
\<close>

record Event =
  ev_tenant :: string
  ev_type :: string
  ev_payload :: "any tbl"

record 'm World =
  w_store :: 'm
  w_events :: "Event list"

definition on_store :: "('m, 'a) op \<Rightarrow> ('m World, 'a) op" where
  "on_store f w = (case f (w_store w) of (r, m') \<Rightarrow> (r, w\<lparr>w_store := m'\<rparr>))"

definition check :: "'a res \<Rightarrow> ('w, 'a) op" where
  "check r w = (r, w)"

definition ret :: "'a \<Rightarrow> ('w, 'a) op" where
  "ret x w = (Inr x, w)"

definition throw :: "goerr \<Rightarrow> ('w, 'a) op" where
  "throw e w = (Inl e, w)"

text \<open>Masking the errors of an operation, as the \<open>mapErr\<close> helpers do.\<close>

definition map_err :: "(goerr \<Rightarrow> goerr) \<Rightarrow> ('w, 'a) op \<Rightarrow> ('w, 'a) op" where
  "map_err h f w = (case f w of (Inl e, w') \<Rightarrow> (Inl (h e), w') | (Inr x, w') \<Rightarrow> (Inr x, w'))"

text \<open>Publishing, when a publisher is set.\<close>

definition emit :: "bool \<Rightarrow> Event \<Rightarrow> ('m World, unit) op" where
  "emit pub ev w = (Inr (), if pub then w\<lparr>w_events := w_events w @ [ev]\<rparr> else w)"

section \<open>Event payloads\<close>

abbreviation IPAddressCreated :: string where
  "IPAddressCreated \<equiv> ''ipam.ip_address.created''"

abbreviation IPAddressUpdated :: string where
  "IPAddressUpdated \<equiv> ''ipam.ip_address.updated''"

abbreviation IPAddressDeleted :: string where
  "IPAddressDeleted \<equiv> ''ipam.ip_address.deleted''"

abbreviation IPAddressScanned :: string where
  "IPAddressScanned \<equiv> ''ipam.ip_address.scanned''"

abbreviation EvScanStarted :: string where
  "EvScanStarted \<equiv> ''ipam.scan.started''"

abbreviation EvScanCompleted :: string where
  "EvScanCompleted \<equiv> ''ipam.scan.completed''"

definition IPAddressPayload :: "string \<Rightarrow> string \<Rightarrow> string \<Rightarrow> string \<Rightarrow> string \<Rightarrow> string \<Rightarrow> any tbl" where
  "IPAddressPayload action i address subnetID hostname deviceID =
     [(''action'', AnyStr action), (''id'', AnyStr i), (''address'', AnyStr address),
      (''subnet_id'', AnyStr subnetID), (''hostname'', AnyStr hostname), (''device_id'', AnyStr deviceID)]"

definition ScanPayload :: "string \<Rightarrow> string \<Rightarrow> int \<Rightarrow> int \<Rightarrow> any tbl" where
  "ScanPayload jobID subnetID aliveCount newCount =
     [(''job_id'', AnyStr jobID), (''subnet_id'', AnyStr subnetID), (''alive_count'', AnyInt aliveCount),
      (''new_count'', AnyInt newCount)]"

section \<open>Reasoning about composed operations\<close>

lemma bind_op_Inl: "f w = (Inl e, w') \<Longrightarrow> bind_op f g w = (Inl e, w')"
  by (simp add: bind_op_def)

lemma bind_op_Inr: "f w = (Inr x, w') \<Longrightarrow> bind_op f g w = g x w'"
  by (simp add: bind_op_def)

lemma bind_op_success:
  "bind_op f g w = (Inr y, w'') \<longleftrightarrow> (\<exists>x w'. f w = (Inr x, w') \<and> g x w' = (Inr y, w''))"
  by (auto simp: bind_op_def split: prod.splits sum.splits)

lemma on_store_success: "on_store f w = (Inr y, w') \<longleftrightarrow> (\<exists>m'. f (w_store w) = (Inr y, m') \<and> w' = w\<lparr>w_store := m'\<rparr>)"
  by (auto simp: on_store_def split: prod.splits)

lemma check_success [simp]: "check r w = (Inr y, w') \<longleftrightarrow> r = Inr y \<and> w' = w"
  by (auto simp: check_def)

lemma map_err_success [simp]: "map_err h f w = (Inr y, w') \<longleftrightarrow> f w = (Inr y, w')"
  by (auto simp: map_err_def split: prod.splits sum.splits)

lemma emit_success [simp]: "emit pub ev w = (Inr y, w') \<longleftrightarrow> w' = (if pub then w\<lparr>w_events := w_events w @ [ev]\<rparr> else w)"
  by (auto simp: emit_def)

lemma ret_success [simp]: "ret x w = (Inr y, w') \<longleftrightarrow> y = x \<and> w' = w"
  by (auto simp: ret_def)

lemma throw_success [simp]: "\<not> throw e w = (Inr y, w')"
  by (simp add: throw_def)

lemmas op_success = bind_op_success on_store_success

end
