(* ===== verification/Memstore_Contracts.thy ===== *)
theory Memstore_Contracts
  imports Contracts Memstore_Store Service
begin

text \<open>
  The in-memory repository keeps the contracts of \<open>Contracts\<close>: the abstraction of each
  group of tables and the interpretation of its locale with \<open>mem_store\<close>.
\<close>

section \<open>Addresses\<close>

definition addr_recorded :: "Mem \<Rightarrow> string \<Rightarrow> string \<Rightarrow> bool" where
  "addr_recorded m t x = list_ex (\<lambda>a. ip_TenantID a = t \<and> ip_Address a = x) (tvals (m_addrs m))"

definition addr_fresh :: "env \<Rightarrow> Mem \<Rightarrow> bool" where
  "addr_fresh e m = (inj (env_ids e) \<and> (\<forall>n. tget (m_addrs m) (env_ids e n) = None))"

lemma mem_wf_twf_addrs: "mem_wf m \<Longrightarrow> twf (m_addrs m)"
  by (simp add: wf_defs row_ok_def)

lemma addr_recorded_iff: "mem_wf m \<Longrightarrow>
    addr_recorded m t x \<longleftrightarrow> (\<exists>k a. tget (m_addrs m) k = Some a \<and> ip_TenantID a = t \<and> ip_Address a = x)"
  by (simp add: addr_recorded_def list_ex_tvals mem_wf_twf_addrs)

lemma addr_recorded_find: "addr_recorded m t x \<longleftrightarrow> findAddrLocked t x m \<noteq> None"
  by (auto simp: addr_recorded_def findAddrLocked_def tfind_None list_ex_iff simp del: not_None_eq)

lemma addr_recorded_cong: "m_addrs m' = m_addrs m \<Longrightarrow> addr_recorded m' = addr_recorded m"
  by (intro ext) (simp add: addr_recorded_def)

lemma decorateAddrLocked_simps [simp]:
  "ip_TenantID (decorateAddrLocked m a) = ip_TenantID a" "ip_Address (decorateAddrLocked m a) = ip_Address a"
  "ip_ID (decorateAddrLocked m a) = ip_ID a" "ip_SubnetID (decorateAddrLocked m a) = ip_SubnetID a"
  by (simp_all add: decorateAddrLocked_def split: option.splits)

lemma CreateAddress_error:
  assumes "CreateAddress e a m = (Inl err, m')"
  shows "m_addrs m' = m_addrs m \<and> (err = RepoConflict \<and> addr_recorded m (ip_TenantID a) (ip_Address a) \<or>
    err = InjectedErr ''CreateAddress'')"
  using assms unfolding CreateAddress_def guarded_def
  by (auto simp: mfail_def Let_def addr_recorded_find split: option.splits if_splits)

lemma CreateAddress_done:
  assumes wf: "mem_wf m" and "ip_ID a = []" and fr: "addr_fresh e m" and cr: "CreateAddress e a m = (Inr u, m')"
  shows "addr_fresh (env_skip 1 e) m' \<and> \<not> addr_recorded m (ip_TenantID a) (ip_Address a) \<and>
    addr_recorded m' = (\<lambda>t x. addr_recorded m t x \<or> t = ip_TenantID a \<and> x = ip_Address a)"
proof -
  define a' where "a' = (default_addr e a)\<lparr>
    ip_CreatedAt := (if ip_CreatedAt a = 0 then env_mnow e else ip_CreatedAt a), ip_UpdatedAt := env_mnow e\<rparr>"
  have a': "ip_TenantID a' = ip_TenantID a" "ip_Address a' = ip_Address a" "ip_ID a' = env_ids e 0"
    using assms(2) by (simp_all add: a'_def default_addr_def clearAddrServerFields_def)
  have "findAddrLocked (ip_TenantID a) (ip_Address a) m = None \<and> m' = m\<lparr>m_addrs := tput (ip_ID a') a' (m_addrs m)\<rparr>"
    using cr unfolding CreateAddress_def guarded_def a'_def [symmetric]
    by (auto simp: Let_def simp del: not_None_eq split: option.splits)
  then have m': "m' = m\<lparr>m_addrs := tput (env_ids e 0) a' (m_addrs m)\<rparr>"
    and no: "\<not> addr_recorded m (ip_TenantID a) (ip_Address a)"
    by (simp_all add: a' addr_recorded_find)
  have wf': "mem_wf m'"
    using CreateAddress_wf [OF wf, of e a] cr by simp
  have "env_ids e (Suc n) \<noteq> env_ids e 0" for n
    using fr inj_eq [of "env_ids e" "Suc n" 0] by (simp add: addr_fresh_def)
  then have fresh: "addr_fresh (env_skip 1 e) m'"
    using fr by (auto simp: addr_fresh_def m' inj_def)
  have upd: "tget (m_addrs m') k = (if k = env_ids e 0 then Some a' else tget (m_addrs m) k)"
    and new: "tget (m_addrs m) (env_ids e 0) = None" for k
    using fr by (simp_all add: m' addr_fresh_def)
  have "addr_recorded m' t x \<longleftrightarrow> addr_recorded m t x \<or> t = ip_TenantID a \<and> x = ip_Address a" for t x
  proof
    assume "addr_recorded m' t x"
    then show "addr_recorded m t x \<or> t = ip_TenantID a \<and> x = ip_Address a"
      unfolding addr_recorded_iff [OF wf'] addr_recorded_iff [OF wf] upd using a' by (auto split: if_splits)
  next
    assume "addr_recorded m t x \<or> t = ip_TenantID a \<and> x = ip_Address a"
    then show "addr_recorded m' t x"
    proof
      assume "addr_recorded m t x"
      then obtain k b where "tget (m_addrs m) k = Some b" "ip_TenantID b = t" "ip_Address b = x"
        by (auto simp: addr_recorded_iff [OF wf])
      moreover from this new have "k \<noteq> env_ids e 0"
        by auto
      ultimately show ?thesis
        unfolding addr_recorded_iff [OF wf'] upd by auto
    qed (auto simp: addr_recorded_iff [OF wf'] upd a' intro!: exI [of _ "env_ids e 0"])
  qed
  with fresh no show ?thesis
    by (intro conjI ext) auto
qed

lemma CreateAddress_failed:
  assumes "mem_wf m" and "CreateAddress e a m = (Inl err, m')"
  shows "mem_wf m' \<and> addr_recorded m' = addr_recorded m \<and> (\<forall>f. addr_fresh f m \<longrightarrow> addr_fresh f m') \<and>
    err \<noteq> AddressesNoAvailable \<and> err \<noteq> AddressesConflict"
  using CreateAddress_error [OF assms(2)] CreateAddress_wf [OF assms(1), of e a] assms(2)
  addr_recorded_cong [of m' m]
  by (auto simp: addr_fresh_def)

lemma CreateAddress_keeps_wf: "mem_wf m \<Longrightarrow> CreateAddress e a m = (r, m') \<Longrightarrow> mem_wf m'"
  using CreateAddress_wf [of m e a] by simp

interpretation mem_addresses: address_store mem_store mem_wf addr_recorded addr_fresh
proof (unfold_locales, unfold mem_store_simps)
  fix m e a m' assume "CreateAddress e a m = (Inl RepoConflict, m')"
  then show "addr_recorded m (ip_TenantID a) (ip_Address a)"
    using CreateAddress_error by fastforce
next
  fix m e a err m' assume "mem_wf m" and "CreateAddress e a m = (Inl err, m')"
  then show "mem_wf m' \<and> addr_recorded m' = addr_recorded m \<and> (\<forall>f. addr_fresh f m \<longrightarrow> addr_fresh f m') \<and>
      err \<noteq> AddressesNoAvailable \<and> err \<noteq> AddressesConflict"
    by (rule CreateAddress_failed)
next
  fix m a e u m' assume "mem_wf m" and "ip_ID a = []" and "addr_fresh e m" and "CreateAddress e a m = (Inr u, m')"
  then show "mem_wf m' \<and> addr_fresh (env_skip 1 e) m' \<and> \<not> addr_recorded m (ip_TenantID a) (ip_Address a) \<and>
      addr_recorded m' = (\<lambda>t x. addr_recorded m t x \<or> t = ip_TenantID a \<and> x = ip_Address a)"
    using CreateAddress_done CreateAddress_keeps_wf by blast
next
  fix m t x assume wf: "mem_wf m" and "addr_recorded m t x"
  then obtain k a where "findAddrLocked t x m = Some (k, a)"
    by (auto simp: addr_recorded_find)
  then show "\<exists>a. FindAddress t x m = (Inr a, m) \<and> ip_TenantID a = t \<and> ip_Address a = x"
    using tfind_Some [OF _ mem_wf_twf_addrs [OF wf]] by (force simp: FindAddress_def findAddrLocked_def)
next
  fix m t i xs m' assume "mem_wf m" and "ListAllocatedAddresses t i m = (Inr xs, m')"
  then show "m' = m \<and> (\<forall>x \<in> set xs. addr_recorded m t x)"
    by (auto simp: ListAllocatedAddresses_def addr_recorded_def list_ex_iff)
qed

section \<open>The audit log\<close>

definition audit_core :: "AuditRow \<Rightarrow> AuditRow" where
  "audit_core r = r\<lparr>au_ID := [], au_At := 0\<rparr>"

definition audit_able :: "Mem \<Rightarrow> bool" where
  "audit_able m = (''AppendAudit'' \<notin> set (m_failNext m))"

interpretation mem_audit: audit_sink "AppendAudit e" "\<lambda>m. map audit_core (m_audit m)" audit_core audit_able
  by unfold_locales
    (auto simp: AppendAudit_def guarded_def appendAuditLocked_def audit_core_def audit_able_def mfail_def
      split: if_splits option.splits)

section \<open>An example store\<close>

text \<open>One tenant with a subnet \<open>10.0.0.0/29\<close> whose first host is recorded, built with the
  operations of the store; the examples of the services run on it.\<close>

definition example_subnet :: Subnet where
  "example_subnet = Subnet0\<lparr>sn_ID := ''net'', sn_TenantID := ''t'', sn_Name := ''lab'',
     sn_CIDR := ''10.0.0.0/29'', sn_Gateway := ''10.0.0.2''\<rparr>"

definition example_address :: IPAddress where
  "example_address = IPAddress0\<lparr>ip_ID := ''a1'', ip_TenantID := ''t'', ip_SubnetID := ''net'',
     ip_Address := ''10.0.0.1'', ip_Owner := ''sealed''\<rparr>"

definition example_mem :: Mem where
  "example_mem = snd (CreateAddress env0 example_address (snd (CreateSubnet env0 example_subnet New)))"

lemma example_mem_wf: "mem_wf example_mem"
  unfolding example_mem_def by (intro CreateAddress_wf CreateSubnet_wf mem_wf_New)

lemma inj_env0: "inj (env_ids env0)"
  by (rule injI) (auto simp: env0_def dest: arg_cong [where f = length])

lemma example_mem_addrs: "map fst (m_addrs example_mem) = [''a1'']"
  by code_simp

lemma example_mem_fresh: "addr_fresh env0 example_mem"
proof -
  have "tget (m_addrs example_mem) (env_ids env0 n) = None" for n
    using example_mem_addrs by (auto simp: tget_def map_of_eq_None_iff env0_def image_def
        simp flip: set_map)
  then show ?thesis
    by (simp add: addr_fresh_def inj_env0)
qed

lemma example_subnet_lookup: "\<exists>sub. GetSubnet ''t'' ''net'' example_mem = (Inr sub, example_mem) \<and>
    sn_CIDR sub = ''10.0.0.0/29'' \<and> sn_Gateway sub = ''10.0.0.2''"
proof -
  have "(case GetSubnet ''t'' ''net'' example_mem of (Inr s, _) \<Rightarrow>
      sn_CIDR s = ''10.0.0.0/29'' \<and> sn_Gateway s = ''10.0.0.2'' | _ \<Rightarrow> False)"
    by code_simp
  then show ?thesis
    by (auto simp: GetSubnet_def split: option.splits)
qed

definition example_subjects :: Subjects where
  "example_subjects = \<lparr>su_TenantID = ''t'', su_UserID = ''u'', su_Roles = [], su_ActorKind = ActorUser\<rparr>"

abbreviation example_world :: "Mem World" where
  "example_world \<equiv> \<lparr>w_store = example_mem, w_events = []\<rparr>"

end
