(* ===== verification/Svc_Addresses.thy ===== *)
theory Svc_Addresses
  imports Ipnet Mac Memstore_Contracts
begin

text \<open>
  \<open>internal/addresses/addresses.go\<close>: the address service. Its operations are written over an
  arbitrary store \<open>st\<close>; the configuration record holds whether a publisher is set, the
  carve-outs and the two optional probers, which answer per address. The clock does not advance
  during one call. The retry loop of the allocator is a \<open>partial_function\<close>; the locale
  \<open>address_store\<close> states what the allocator relies on of its store, proves that the loop
  always returns and what it returns, and is interpreted for the in-memory repository. \<open>Page\<close>
  takes the store's paged list as an argument, since its order and windowing are a parameter there. The
  capacity hints of \<open>make\<close> are not modelled.
\<close>

definition maxAllocTries :: nat where
  "maxAllocTries = 20"

definition defaultProbePorts :: "int list" where
  "defaultProbePorts = [22, 80, 443, 3389]"

record PingResult =
  pr_Address :: string
  pr_Alive :: bool
  pr_RTTMs :: int
  pr_Available :: bool

record AddressesService =
  ad_pub :: bool
  ad_skipFirst :: int
  ad_skipLast :: int
  ad_ping :: "(string \<Rightarrow> (bool \<times> int) res) option"
  ad_scan :: "(string \<Rightarrow> int list \<Rightarrow> int list res) option"

definition addresses_New :: "bool \<Rightarrow> int \<Rightarrow> int \<Rightarrow> AddressesService" where
  "addresses_New pub skipFirst skipLast =
     \<lparr>ad_pub = pub, ad_skipFirst = skipFirst, ad_skipLast = skipLast, ad_ping = None, ad_scan = None\<rparr>"

section \<open>Helpers\<close>

definition addresses_mapErr :: "goerr \<Rightarrow> goerr" where
  "addresses_mapErr err = (if err = RepoNotFound then AddressesNotFound
     else if err = RepoConflict then AddressesConflict else err)"

definition redact :: "IPAddress \<Rightarrow> IPAddress" where
  "redact a = a\<lparr>ip_Owner := []\<rparr>"

definition sameMAC :: "string \<Rightarrow> string \<Rightarrow> bool" where
  "sameMAC a b = (case (NormalizeMAC a, NormalizeMAC b) of
       (Some na, Some nb) \<Rightarrow> na = nb
     | _ \<Rightarrow> a = b)"

definition manualMAC :: "env \<Rightarrow> IPAddress \<Rightarrow> IPAddress option \<Rightarrow> IPAddress" where
  "manualMAC e in0 ex =
     (let mac = (case NormalizeMAC (ip_MACAddress in0) of Some m \<Rightarrow> m | None \<Rightarrow> ip_MACAddress in0);
          in1 = in0\<lparr>ip_Origin := [], ip_Link := None, ip_Links := [], ip_MACAddress := mac,
            ip_MACSource := [], ip_MACSourceDeviceID := [], ip_MACSeenAt := None, ip_MACConflict := []\<rparr> in
      if mac = [] then in1
      else if (case ex of Some x \<Rightarrow> sameMAC mac (ip_MACAddress x) | None \<Rightarrow> False)
      then (case ex of Some x \<Rightarrow> in1\<lparr>ip_MACSource := ip_MACSource x,
              ip_MACSourceDeviceID := ip_MACSourceDeviceID x, ip_MACSeenAt := ip_MACSeenAt x,
              ip_MACConflict := ip_MACConflict x\<rparr>
            | None \<Rightarrow> in1)
      else in1\<lparr>ip_MACSource := MACSourceManual, ip_MACSeenAt := Some (env_now e)\<rparr>)"

text \<open>\<open>bytes.Compare\<close> below zero.\<close>

fun bytes_less :: "byte list \<Rightarrow> byte list \<Rightarrow> bool" where
  "bytes_less [] ys = (ys \<noteq> [])"
| "bytes_less (x # xs) [] = False"
| "bytes_less (x # xs) (y # ys) = (x < y \<or> x = y \<and> bytes_less xs ys)"

definition ipLess :: "string \<Rightarrow> string \<Rightarrow> bool" where
  "ipLess a b = (case (ParseIP a, ParseIP b) of
       (Some ia, Some ib) \<Rightarrow> (case (To16 ia, To16 ib) of
            (Some xa, Some xb) \<Rightarrow> bytes_less xa xb
          | (None, Some xb) \<Rightarrow> xb \<noteq> []
          | _ \<Rightarrow> False)
     | _ \<Rightarrow> False)"

definition addresses_publish :: "AddressesService \<Rightarrow> string \<Rightarrow> string \<Rightarrow> string \<Rightarrow> IPAddress \<Rightarrow> ('m World, unit) op" where
  "addresses_publish cfg tenantID eventType action a = emit (ad_pub cfg)
     \<lparr>ev_tenant = tenantID, ev_type = eventType, ev_payload =
        IPAddressPayload action (ip_ID a) (ip_Address a) (ip_SubnetID a) (ip_Hostname a) (ip_DeviceID a)\<rparr>"

section \<open>Create, read, update, delete\<close>

definition create_defaults :: "env \<Rightarrow> Subjects \<Rightarrow> IPAddress \<Rightarrow> IPAddress" where
  "create_defaults e subj a = a\<lparr>ip_TenantID := su_TenantID subj,
     ip_ID := (if ip_ID a = [] then env_ids e 0 else ip_ID a),
     ip_Status := (if ip_Status a = [] then IPActive else ip_Status a),
     ip_AddressType := (if ip_AddressType a = [] then AddrHost else ip_AddressType a),
     ip_CreatedBy := (if ip_CreatedBy a = [] then ActorID subj else ip_CreatedBy a),
     ip_CreatedAt := (if ip_CreatedAt a = 0 then env_now e else ip_CreatedAt a)\<rparr>"

definition addresses_Create ::
  "'m Store \<Rightarrow> AddressesService \<Rightarrow> env \<Rightarrow> Subjects \<Rightarrow> IPAddress \<Rightarrow> ('m World, IPAddress) op" where
  "addresses_Create st cfg e subj in0 =
     bind_op (check (RequireTenant subj (su_TenantID subj))) (\<lambda>_.
     let a = manualMAC e (create_defaults e subj in0) None in
     bind_op (map_err addresses_mapErr (on_store (s_CreateAddress st (env_skip 1 e) a))) (\<lambda>_.
     bind_op (map_err addresses_mapErr (on_store (s_GetAddress st (su_TenantID subj) (ip_ID a)))) (\<lambda>created.
     bind_op (addresses_publish cfg (su_TenantID subj) IPAddressCreated ''created'' created) (\<lambda>_.
     ret (redact created)))))"

definition addresses_Get :: "'m Store \<Rightarrow> Subjects \<Rightarrow> string \<Rightarrow> ('m World, IPAddress) op" where
  "addresses_Get st subj i =
     bind_op (check (RequireTenant subj (su_TenantID subj))) (\<lambda>_.
     bind_op (map_err addresses_mapErr (on_store (s_GetAddress st (su_TenantID subj) i))) (\<lambda>a.
     ret (redact a)))"

definition addresses_List :: "'m Store \<Rightarrow> Subjects \<Rightarrow> AddressFilter \<Rightarrow> ('m World, IPAddress list) op" where
  "addresses_List st subj f =
     bind_op (check (RequireTenant subj (su_TenantID subj))) (\<lambda>_.
     bind_op (on_store (s_ListAddresses st (su_TenantID subj) f)) (\<lambda>rows.
     ret (map redact rows)))"

text \<open>\<open>Page\<close> over the store's \<open>PageAddresses\<close>, which it is given; \<open>'r\<close> is the type
  of list requests.\<close>

definition addresses_Page ::
  "(string \<Rightarrow> AddressFilter \<Rightarrow> 'r \<Rightarrow> ('m, IPAddress list \<times> int \<times> 'r) op) \<Rightarrow> Subjects \<Rightarrow> AddressFilter \<Rightarrow> 'r \<Rightarrow>
   ('m World, IPAddress list \<times> int \<times> 'r) op" where
  "addresses_Page pageAddresses subj f req =
     bind_op (check (RequireTenant subj (su_TenantID subj))) (\<lambda>_.
     bind_op (on_store (pageAddresses (su_TenantID subj) f req)) (\<lambda>(rows, count, applied).
     ret (map redact rows, count, applied)))"

definition inherit_address :: "Subjects \<Rightarrow> IPAddress \<Rightarrow> IPAddress \<Rightarrow> IPAddress" where
  "inherit_address subj in0 ex = in0\<lparr>ip_TenantID := su_TenantID subj,
     ip_Address := (if ip_Address in0 = [] then ip_Address ex else ip_Address in0),
     ip_SubnetID := (if ip_SubnetID in0 = [] then ip_SubnetID ex else ip_SubnetID in0),
     ip_Status := (if ip_Status in0 = [] then ip_Status ex else ip_Status in0),
     ip_AddressType := (if ip_AddressType in0 = [] then ip_AddressType ex else ip_AddressType in0),
     ip_CreatedBy := ip_CreatedBy ex, ip_CreatedAt := ip_CreatedAt ex\<rparr>"

definition addresses_Update ::
  "'m Store \<Rightarrow> AddressesService \<Rightarrow> env \<Rightarrow> Subjects \<Rightarrow> IPAddress \<Rightarrow> ('m World, IPAddress) op" where
  "addresses_Update st cfg e subj in0 =
     bind_op (check (RequireTenant subj (su_TenantID subj))) (\<lambda>_.
     bind_op (map_err addresses_mapErr (on_store (s_GetAddress st (su_TenantID subj) (ip_ID in0)))) (\<lambda>ex.
     let a = manualMAC e (inherit_address subj in0 ex) (Some ex) in
     bind_op (map_err addresses_mapErr (on_store (s_UpdateAddress st e a))) (\<lambda>_.
     bind_op (map_err addresses_mapErr (on_store (s_GetAddress st (su_TenantID subj) (ip_ID a)))) (\<lambda>updated.
     bind_op (addresses_publish cfg (su_TenantID subj) IPAddressUpdated ''updated'' updated) (\<lambda>_.
     ret (redact updated))))))"

definition addresses_Delete ::
  "'m Store \<Rightarrow> AddressesService \<Rightarrow> Subjects \<Rightarrow> string \<Rightarrow> ('m World, unit) op" where
  "addresses_Delete st cfg subj i =
     bind_op (check (RequireTenant subj (su_TenantID subj))) (\<lambda>_.
     bind_op (map_err addresses_mapErr (on_store (s_GetAddress st (su_TenantID subj) i))) (\<lambda>a.
     bind_op (map_err addresses_mapErr (on_store (s_DeleteAddress st (su_TenantID subj) i))) (\<lambda>_.
     addresses_publish cfg (su_TenantID subj) IPAddressDeleted ''deleted'' a)))"

definition addresses_Find :: "'m Store \<Rightarrow> Subjects \<Rightarrow> string \<Rightarrow> ('m World, IPAddress) op" where
  "addresses_Find st subj address =
     bind_op (check (RequireTenant subj (su_TenantID subj))) (\<lambda>_.
     bind_op (map_err addresses_mapErr (on_store (s_FindAddress st (su_TenantID subj) address))) (\<lambda>a.
     ret (redact a)))"

definition PingAddress :: "'m Store \<Rightarrow> AddressesService \<Rightarrow> Subjects \<Rightarrow> string \<Rightarrow> ('m World, PingResult) op" where
  "PingAddress st cfg subj i =
     bind_op (check (RequireTenant subj (su_TenantID subj))) (\<lambda>_.
     bind_op (map_err addresses_mapErr (on_store (s_GetAddress st (su_TenantID subj) i))) (\<lambda>a.
     case ad_ping cfg of
       None \<Rightarrow> ret \<lparr>pr_Address = ip_Address a, pr_Alive = False, pr_RTTMs = 0, pr_Available = False\<rparr>
     | Some ping \<Rightarrow> (case ping (ip_Address a) of
          Inl err \<Rightarrow> throw err
        | Inr (alive, rtt) \<Rightarrow>
            ret \<lparr>pr_Address = ip_Address a, pr_Alive = alive, pr_RTTMs = rtt, pr_Available = True\<rparr>)))"

section \<open>Allocation\<close>

definition exclude_set :: "string list \<Rightarrow> string list \<Rightarrow> bool tbl" where
  "exclude_set used extra =
     fold (\<lambda>a t. if a \<noteq> [] then tput a True t else t) extra (fold (\<lambda>a. tput a True) used [])"

definition allocatedSet :: "'m Store \<Rightarrow> string \<Rightarrow> string \<Rightarrow> string list \<Rightarrow> ('m World, bool tbl) op" where
  "allocatedSet st tenantID subnetID extra =
     bind_op (on_store (s_ListAllocatedAddresses st tenantID subnetID)) (\<lambda>used.
     ret (exclude_set used extra))"

definition alloc_row :: "env \<Rightarrow> string \<Rightarrow> Subnet \<Rightarrow> string \<Rightarrow> string \<Rightarrow> IPAddress" where
  "alloc_row e tenantID sub ipStr hostname = IPAddress0\<lparr>ip_TenantID := tenantID, ip_Address := ipStr,
     ip_SubnetID := sn_ID sub, ip_Hostname := hostname, ip_Status := IPActive,
     ip_AddressType := AddrHost, ip_CreatedAt := env_now e\<rparr>"

text \<open>What the loop does once the row is inserted.\<close>

definition alloc_created ::
  "'m Store \<Rightarrow> AddressesService \<Rightarrow> string \<Rightarrow> string \<Rightarrow> ('m World, IPAddress) op" where
  "alloc_created st cfg tenantID ipStr =
     bind_op (map_err addresses_mapErr (on_store (s_FindAddress st tenantID ipStr))) (\<lambda>created.
     bind_op (addresses_publish cfg tenantID IPAddressCreated ''created'' created) (\<lambda>_.
     ret (redact created)))"

text \<open>The \<open>for\<close> loop of \<open>allocInto\<close>: the exclude map and the conflict counter are
  its state; the map is handed back, as the caller's map is mutated.\<close>

partial_function (option) alloc_loop ::
  "'m Store \<Rightarrow> AddressesService \<Rightarrow> env \<Rightarrow> string \<Rightarrow> Subnet \<Rightarrow> string \<Rightarrow> string \<Rightarrow> bool tbl \<Rightarrow> nat \<Rightarrow>
   'm World \<Rightarrow> (IPAddress res \<times> bool tbl \<times> 'm World) option" where
  "alloc_loop st cfg e tenantID sub startFrom hostname ex conflicts w =
     (case FirstFree (sn_CIDR sub) ex (sn_Gateway sub) (ad_skipFirst cfg) (ad_skipLast cfg) of
        Inl err \<Rightarrow> Some (Inl (if err = IpnetExhausted then AddressesNoAvailable else err), ex, w)
      | Inr ip \<Rightarrow>
          if startFrom \<noteq> [] \<and> ipLess (IP_String ip) startFrom
          then alloc_loop st cfg e tenantID sub startFrom hostname (tput (IP_String ip) True ex) conflicts w
          else (case on_store (s_CreateAddress st e (alloc_row e tenantID sub (IP_String ip) hostname)) w of
              (Inl err, w') \<Rightarrow>
                if err = RepoConflict then
                  (if maxAllocTries \<le> Suc conflicts
                   then Some (Inl AddressesConflict, tput (IP_String ip) True ex, w')
                   else alloc_loop st cfg e tenantID sub startFrom hostname (tput (IP_String ip) True ex)
                     (Suc conflicts) w')
                else Some (Inl (addresses_mapErr err), ex, w')
            | (Inr _, w') \<Rightarrow> (case alloc_created st cfg tenantID (IP_String ip) w' of
                (r, w'') \<Rightarrow> Some (r, tput (IP_String ip) True ex, w''))))"

declare alloc_loop.simps [code]

definition allocInto ::
  "'m Store \<Rightarrow> AddressesService \<Rightarrow> env \<Rightarrow> string \<Rightarrow> Subnet \<Rightarrow> bool tbl \<Rightarrow> string \<Rightarrow> string \<Rightarrow>
   'm World \<Rightarrow> (IPAddress res \<times> bool tbl \<times> 'm World) option" where
  "allocInto st cfg e tenantID sub ex startFrom hostname w =
     alloc_loop st cfg e tenantID sub startFrom hostname ex 0 w"

text \<open>The guards shared by the three allocation entry points: the tenant, the subnet and the
  exclude map.\<close>

definition alloc_prepare ::
  "'m Store \<Rightarrow> Subjects \<Rightarrow> string \<Rightarrow> string list \<Rightarrow> ('m World, Subnet \<times> bool tbl) op" where
  "alloc_prepare st subj subnetID extra =
     bind_op (map_err addresses_mapErr (on_store (s_GetSubnet st (su_TenantID subj) subnetID))) (\<lambda>sub.
     bind_op (allocatedSet st (su_TenantID subj) subnetID extra) (\<lambda>ex.
     ret (sub, ex)))"

definition AllocateNext ::
  "'m Store \<Rightarrow> AddressesService \<Rightarrow> env \<Rightarrow> Subjects \<Rightarrow> string \<Rightarrow> string \<Rightarrow> string list \<Rightarrow>
   'm World \<Rightarrow> (IPAddress res \<times> 'm World) option" where
  "AllocateNext st cfg e subj subnetID startFrom skipAddresses w =
     (case RequireTenant subj (su_TenantID subj) of
        Inl err \<Rightarrow> Some (Inl err, w)
      | Inr _ \<Rightarrow> (case alloc_prepare st subj subnetID skipAddresses w of
          (Inl err, w') \<Rightarrow> Some (Inl err, w')
        | (Inr (sub, ex), w') \<Rightarrow> map_option (\<lambda>(r, _, w''). (r, w''))
            (allocInto st cfg e (su_TenantID subj) sub ex startFrom [] w')))"

fun bulk_loop ::
  "'m Store \<Rightarrow> AddressesService \<Rightarrow> env \<Rightarrow> string \<Rightarrow> Subnet \<Rightarrow> string \<Rightarrow> nat \<Rightarrow> nat \<Rightarrow> bool tbl \<Rightarrow>
   IPAddress list \<Rightarrow> 'm World \<Rightarrow> ((IPAddress list \<times> goerr option) \<times> 'm World) option" where
  "bulk_loop st cfg e tenantID sub hostnamePrefix i 0 ex out w = Some ((out, None), w)"
| "bulk_loop st cfg e tenantID sub hostnamePrefix i (Suc left) ex out w =
     (case allocInto st cfg (env_skip i e) tenantID sub ex []
         (if hostnamePrefix \<noteq> [] then hostnamePrefix @ itoa i else []) w of
        None \<Rightarrow> None
      | Some (Inl err, _, w') \<Rightarrow> Some ((out, Some err), w')
      | Some (Inr a, ex', w') \<Rightarrow>
          bulk_loop st cfg e tenantID sub hostnamePrefix (Suc i) left ex' (out @ [a]) w')"

definition BulkAllocate ::
  "'m Store \<Rightarrow> AddressesService \<Rightarrow> env \<Rightarrow> Subjects \<Rightarrow> string \<Rightarrow> int \<Rightarrow> string \<Rightarrow>
   'm World \<Rightarrow> ((IPAddress list \<times> goerr option) \<times> 'm World) option" where
  "BulkAllocate st cfg e subj subnetID count hostnamePrefix w =
     (case RequireTenant subj (su_TenantID subj) of
        Inl err \<Rightarrow> Some (([], Some err), w)
      | Inr _ \<Rightarrow>
          if count \<le> 0 then Some (([], None), w)
          else (case alloc_prepare st subj subnetID [] w of
              (Inl err, w') \<Rightarrow> Some (([], Some err), w')
            | (Inr (sub, ex), w') \<Rightarrow>
                bulk_loop st cfg e (su_TenantID subj) sub hostnamePrefix 0 (nat count) ex [] w'))"

fun free_candidates :: "AddressesService \<Rightarrow> Subnet \<Rightarrow> nat \<Rightarrow> bool tbl \<Rightarrow> string list" where
  "free_candidates cfg sub 0 local = []"
| "free_candidates cfg sub (Suc left) local =
     (case FirstFree (sn_CIDR sub) local (sn_Gateway sub) (ad_skipFirst cfg) (ad_skipLast cfg) of
        Inl _ \<Rightarrow> []
      | Inr ip \<Rightarrow> IP_String ip # free_candidates cfg sub left (tput (IP_String ip) True local))"

definition freeCandidates :: "AddressesService \<Rightarrow> Subnet \<Rightarrow> bool tbl \<Rightarrow> int \<Rightarrow> string list" where
  "freeCandidates cfg sub ex maxn = free_candidates cfg sub (nat maxn) ex"

definition verifyQuiet :: "AddressesService \<Rightarrow> string \<Rightarrow> bool res" where
  "verifyQuiet cfg ip =
     (case (case ad_ping cfg of None \<Rightarrow> Inr True | Some ping \<Rightarrow>
              (case ping ip of Inl err \<Rightarrow> Inl err | Inr (alive, _) \<Rightarrow> Inr (\<not> alive))) of
        Inl err \<Rightarrow> Inl err
      | Inr False \<Rightarrow> Inr False
      | Inr True \<Rightarrow> (case ad_scan cfg of None \<Rightarrow> Inr True | Some scan \<Rightarrow>
          (case scan ip defaultProbePorts of Inl err \<Rightarrow> Inl err | Inr open \<Rightarrow> Inr (open = []))))"

fun suggest_loop :: "AddressesService \<Rightarrow> int \<Rightarrow> string list \<Rightarrow> string list \<Rightarrow> string list" where
  "suggest_loop cfg count out [] = out"
| "suggest_loop cfg count out (ip # cands) =
     (if int (length out) \<ge> count then out
      else suggest_loop cfg count (if verifyQuiet cfg ip = Inr True then out @ [ip] else out) cands)"

definition SuggestAvailableAddresses ::
  "'m Store \<Rightarrow> AddressesService \<Rightarrow> Subjects \<Rightarrow> string \<Rightarrow> int \<Rightarrow> string list \<Rightarrow> ('m World, string list) op" where
  "SuggestAvailableAddresses st cfg subj subnetID count skip =
     bind_op (check (RequireTenant subj (su_TenantID subj))) (\<lambda>_.
     if count \<le> 0 then ret []
     else bind_op (alloc_prepare st subj subnetID skip) (\<lambda>(sub, ex).
       if ad_ping cfg = None \<and> ad_scan cfg = None
       then ret (take (nat count) (freeCandidates cfg sub ex count))
       else ret (suggest_loop cfg count [] (freeCandidates cfg sub ex (wrap64 (count * 4))))))"

section \<open>What the allocator may hand out\<close>

definition host_text :: "int \<Rightarrow> int \<Rightarrow> string" where
  "host_text ver v = IP_String (intToIP v ver)"

definition below :: "string \<Rightarrow> string \<Rightarrow> bool" where
  "below startFrom s = (startFrom \<noteq> [] \<and> ipLess s startFrom)"

text \<open>The addresses, as numbers, of a range that are neither excluded nor the gateway; of these
  the ones that are not below the start and not recorded by the predicate \<open>rec\<close>.\<close>

definition free_hosts :: "int \<Rightarrow> int \<Rightarrow> int \<Rightarrow> bool tbl \<Rightarrow> string \<Rightarrow> int set" where
  "free_hosts ver lo hi ex gw = {v \<in> {lo..hi}. \<not> taken ex gw (intToIP v ver)}"

definition eligible :: "int \<Rightarrow> int \<Rightarrow> int \<Rightarrow> bool tbl \<Rightarrow> string \<Rightarrow> string \<Rightarrow> (string \<Rightarrow> bool) \<Rightarrow> int set" where
  "eligible ver lo hi ex gw startFrom rec =
     {v \<in> free_hosts ver lo hi ex gw. \<not> below startFrom (host_text ver v) \<and> \<not> rec (host_text ver v)}"

lemma finite_free_hosts [simp]: "finite (free_hosts ver lo hi ex gw)"
  by (rule finite_subset [of _ "{lo..hi}"]) (auto simp: free_hosts_def)

lemma FirstFree_free_hosts:
  assumes "Parse cidr = Inr info" and "boundedRange info sf sl = (lo, hi)"
  shows "FirstFree cidr ex gw sf sl = Inl IpnetExhausted \<and> free_hosts (Version info) lo hi ex gw = {} \<or>
    (\<exists>v \<in> free_hosts (Version info) lo hi ex gw. FirstFree cidr ex gw sf sl = Inr (intToIP v (Version info)) \<and>
       (\<forall>u \<in> free_hosts (Version info) lo hi ex gw. v \<le> u))"
proof (cases "free_scan (blockedSet ex gw) (Version info) lo hi")
  case None
  then show ?thesis
    using free_scan_spec [where blocked = "blockedSet ex gw" and ver = "Version info" and cur = lo and hi = hi] assms
    by (auto simp: FirstFree_def free_hosts_def blocked_iff_taken [OF length_intToIP])
next
  case (Some ip)
  then obtain v where v: "lo \<le> v" "v \<le> hi" "ip = intToIP v (Version info)" "IP_String ip \<notin> blockedSet ex gw"
    "\<forall>u. lo \<le> u \<and> u < v \<longrightarrow> IP_String (intToIP u (Version info)) \<in> blockedSet ex gw"
    using free_scan_spec [where blocked = "blockedSet ex gw" and ver = "Version info" and cur = lo and hi = hi] by auto
  have "v \<in> free_hosts (Version info) lo hi ex gw"
    using v by (auto simp: free_hosts_def blocked_iff_taken [OF length_intToIP])
  moreover have "v \<le> u" if "u \<in> free_hosts (Version info) lo hi ex gw" for u
    using that v(5) by (force simp: free_hosts_def blocked_iff_taken [OF length_intToIP])
  ultimately show ?thesis
    using Some assms v(3) by (auto simp: FirstFree_def)
qed

lemma same_address_IP_String:
  assumes "length ip = 4 \<or> length ip = 16"
  shows "same_address (IP_String ip) x \<longleftrightarrow> To16 ip = To16 x"
  using ParseIP_IP_String [OF assms] IP_String_graphic [OF assms] assms
  by (auto simp: same_address_def trim_space_graphic To16_def)

lemma set_tput_True: "(k, True) \<in> set (tput s True ex) \<longleftrightarrow> k = s \<or> (k, True) \<in> set ex"
  unfolding tput_def by (induction ex) auto

lemma taken_tput: "taken (tput s True ex) gw x \<longleftrightarrow> taken ex gw x \<or> same_address s x"
  by (auto simp: taken_def set_tput_True)

text \<open>Excluding a free address removes it, and only addresses that are written the same way.\<close>

lemma free_hosts_tput:
  "free_hosts ver lo hi (tput (host_text ver v) True ex) gw =
     {u \<in> free_hosts ver lo hi ex gw. host_text ver u \<noteq> host_text ver v}"
  using IP_String_inj [OF length_intToIP length_intToIP]
  by (auto simp: free_hosts_def host_text_def taken_tput same_address_IP_String [OF length_intToIP])

lemma eligible_tput:
  assumes "below startFrom (host_text ver v) \<or> rec (host_text ver v)"
  shows "eligible ver lo hi (tput (host_text ver v) True ex) gw startFrom rec =
    eligible ver lo hi ex gw startFrom rec"
  using assms by (auto simp: eligible_def free_hosts_tput)

lemma card_free_hosts_tput:
  assumes "v \<in> free_hosts ver lo hi ex gw"
  shows "card (free_hosts ver lo hi (tput (host_text ver v) True ex) gw) < card (free_hosts ver lo hi ex gw)"
  using assms by (intro psubset_card_mono) (auto simp: free_hosts_tput)

definition contested :: "int \<Rightarrow> int \<Rightarrow> int \<Rightarrow> bool tbl \<Rightarrow> string \<Rightarrow> (string \<Rightarrow> bool) \<Rightarrow> int set" where
  "contested ver lo hi ex gw rec = {v \<in> free_hosts ver lo hi ex gw. rec (host_text ver v)}"

lemma card_contested_tput:
  "card (contested ver lo hi (tput (host_text ver v) True ex) gw rec) \<le> card (contested ver lo hi ex gw rec)"
  by (intro card_mono) (auto simp: contested_def free_hosts_tput)

lemma card_contested_conflict:
  assumes "v \<in> free_hosts ver lo hi ex gw" and "rec (host_text ver v)"
  shows "Suc (card (contested ver lo hi (tput (host_text ver v) True ex) gw rec)) \<le>
    card (contested ver lo hi ex gw rec)"
  unfolding Suc_le_eq using assms
  by (intro psubset_card_mono) (auto simp: contested_def free_hosts_tput)

section \<open>The allocation loop returns\<close>

text \<open>One iteration when a free address is left.\<close>

lemma alloc_loop_step:
  assumes "FirstFree (sn_CIDR sub) ex (sn_Gateway sub) (ad_skipFirst cfg) (ad_skipLast cfg) = Inr (intToIP v ver)"
  shows "alloc_loop st cfg e t sub startFrom h ex conflicts w =
    (let x = host_text ver v; ex' = tput x True ex in
     if below startFrom x then alloc_loop st cfg e t sub startFrom h ex' conflicts w
     else case s_CreateAddress st e (alloc_row e t sub x h) (w_store w) of
         (Inl err, m') \<Rightarrow>
           if err \<noteq> RepoConflict then Some (Inl (addresses_mapErr err), ex, w\<lparr>w_store := m'\<rparr>)
           else if maxAllocTries \<le> Suc conflicts then Some (Inl AddressesConflict, ex', w\<lparr>w_store := m'\<rparr>)
           else alloc_loop st cfg e t sub startFrom h ex' (Suc conflicts) (w\<lparr>w_store := m'\<rparr>)
       | (Inr u, m') \<Rightarrow> (case alloc_created st cfg t x (w\<lparr>w_store := m'\<rparr>) of (r, w'') \<Rightarrow> Some (r, ex', w'')))"
  using assms by (subst alloc_loop.simps)
    (simp add: below_def host_text_def on_store_def Let_def split: prod.splits sum.splits)

lemma alloc_loop_FirstFree_error:
  assumes "FirstFree (sn_CIDR sub) ex (sn_Gateway sub) (ad_skipFirst cfg) (ad_skipLast cfg) = Inl err"
  shows "alloc_loop st cfg e t sub startFrom h ex conflicts w =
    Some (Inl (if err = IpnetExhausted then AddressesNoAvailable else err), ex, w)"
  using assms by (subst alloc_loop.simps) simp

text \<open>Every iteration that goes on excludes a free address for good, so the loop returns whatever
  the store answers.\<close>

lemma alloc_loop_returns: "\<exists>y. alloc_loop st cfg e t sub startFrom h ex conflicts w = Some y"
proof (cases "Parse (sn_CIDR sub)")
  case (Inl err)
  then show ?thesis
    by (simp add: FirstFree_def alloc_loop_FirstFree_error)
next
  case (Inr info)
  obtain lo hi where R: "boundedRange info (ad_skipFirst cfg) (ad_skipLast cfg) = (lo, hi)"
    by fastforce
  show ?thesis
  proof (induction "card (free_hosts (Version info) lo hi ex (sn_Gateway sub))" arbitrary: ex conflicts w
      rule: less_induct)
    case less
    from FirstFree_free_hosts [OF Inr R, of ex "sn_Gateway sub"] show ?case
    proof (elim disjE bexE conjE)
      fix v assume v: "v \<in> free_hosts (Version info) lo hi ex (sn_Gateway sub)"
        and ff: "FirstFree (sn_CIDR sub) ex (sn_Gateway sub) (ad_skipFirst cfg) (ad_skipLast cfg) =
          Inr (intToIP v (Version info))"
      show ?thesis
        unfolding alloc_loop_step [OF ff] Let_def using less.hyps [OF card_free_hosts_tput [OF v]]
        by (simp split: prod.splits sum.splits)
    qed (simp add: alloc_loop_FirstFree_error)
  qed
qed

lemma bulk_loop_returns: "\<exists>y. bulk_loop st cfg e t sub hp i n ex out w = Some y"
proof (induction n arbitrary: i ex out w)
  case (Suc n)
  obtain r ex' w' where "allocInto st cfg (env_skip i e) t sub ex [] (if hp \<noteq> [] then hp @ itoa i else []) w =
      Some (r, ex', w')"
    unfolding allocInto_def using alloc_loop_returns by fast
  then show ?case
    using Suc.IH by (cases r) auto
qed simp

section \<open>The allocator on any store that keeps the contract\<close>

text \<open>What one allocation may report, from the records before to the result and the records
  after: the least eligible address, now recorded; exhaustion only when nothing is eligible; a
  conflict only when as many recorded addresses stood in the way as it may still try.\<close>

definition alloc_outcome ::
  "int set \<Rightarrow> int set \<Rightarrow> nat \<Rightarrow> int \<Rightarrow> string \<Rightarrow> (string \<Rightarrow> string \<Rightarrow> bool) \<Rightarrow> (string \<Rightarrow> string \<Rightarrow> bool) \<Rightarrow>
   IPAddress res \<Rightarrow> bool" where
  "alloc_outcome E C tries ver tenantID before after r = (case r of
       Inr a \<Rightarrow> ip_TenantID a = tenantID \<and> ip_Owner a = [] \<and>
         (\<exists>v \<in> E. ip_Address a = host_text ver v \<and> (\<forall>u \<in> E. v \<le> u)) \<and>
         after = (\<lambda>t x. before t x \<or> t = tenantID \<and> x = ip_Address a)
     | Inl err \<Rightarrow> after = before \<and> (err = AddressesNoAvailable \<longrightarrow> E = {}) \<and>
         (err = AddressesConflict \<longrightarrow> tries \<le> card C))"

lemma alloc_outcome_mono:
  "alloc_outcome E C n ver t before after r \<Longrightarrow> (n \<le> card C \<Longrightarrow> n' \<le> card C') \<Longrightarrow>
   alloc_outcome E C' n' ver t before after r"
  by (auto simp: alloc_outcome_def split: sum.splits)

lemma alloc_row_simps [simp]:
  "ip_ID (alloc_row e t sub x h) = []" "ip_TenantID (alloc_row e t sub x h) = t"
  "ip_Address (alloc_row e t sub x h) = x"
  by (simp_all add: alloc_row_def IPAddress0_def)

lemma mapErr_not_conflict:
  "err \<noteq> RepoConflict \<Longrightarrow> err \<noteq> AddressesNoAvailable \<Longrightarrow> err \<noteq> AddressesConflict \<Longrightarrow>
   addresses_mapErr err \<noteq> AddressesNoAvailable \<and> addresses_mapErr err \<noteq> AddressesConflict"
  by (simp add: addresses_mapErr_def)

context address_store
begin

lemma alloc_created_found:
  assumes "inv (w_store w)" and "recorded (w_store w) t x"
  shows "\<exists>a w'. alloc_created st cfg t x w = (Inr a, w') \<and> w_store w' = w_store w \<and>
    ip_TenantID a = t \<and> ip_Address a = x \<and> ip_Owner a = []"
  using find_recorded [OF assms]
  by (auto simp: alloc_created_def bind_op_def map_err_def on_store_def addresses_publish_def emit_def
      ret_def redact_def)

text \<open>The insertion succeeds: the row read back is the one inserted.\<close>

lemma alloc_insert_spec:
  assumes "inv (w_store w)" and "fresh e (w_store w)"
    and "s_CreateAddress st e (alloc_row e t sub x h) (w_store w) = (Inr u, m')"
  shows "\<exists>a w'. alloc_created st cfg t x (w\<lparr>w_store := m'\<rparr>) = (Inr a, w') \<and> inv (w_store w') \<and>
    fresh (env_skip 1 e) (w_store w') \<and> ip_TenantID a = t \<and> ip_Address a = x \<and> ip_Owner a = [] \<and>
    \<not> recorded (w_store w) t x \<and>
    recorded (w_store w') = (\<lambda>t' x'. recorded (w_store w) t' x' \<or> t' = t \<and> x' = x)"
proof -
  note cd = create_done [OF assms(1) _ assms(2,3), simplified]
  then obtain a w' where "alloc_created st cfg t x (w\<lparr>w_store := m'\<rparr>) = (Inr a, w')"
      "w_store w' = m'" "ip_TenantID a = t" "ip_Address a = x" "ip_Owner a = []"
    using alloc_created_found [of "w\<lparr>w_store := m'\<rparr>" t x cfg] by auto
  then show ?thesis
    using cd by auto
qed

lemma alloc_loop_spec:
  assumes P: "Parse (sn_CIDR sub) = Inr info"
    and R: "boundedRange info (ad_skipFirst cfg) (ad_skipLast cfg) = (lo, hi)"
  shows "inv (w_store w) \<Longrightarrow> fresh e (w_store w) \<Longrightarrow> conflicts < maxAllocTries \<Longrightarrow>
    \<exists>r ex' w'. alloc_loop st cfg e t sub startFrom h ex conflicts w = Some (r, ex', w') \<and>
      inv (w_store w') \<and> (\<forall>a. r = Inr a \<longrightarrow> fresh (env_skip 1 e) (w_store w')) \<and>
      alloc_outcome (eligible (Version info) lo hi ex (sn_Gateway sub) startFrom (recorded (w_store w) t))
        (contested (Version info) lo hi ex (sn_Gateway sub) (recorded (w_store w) t))
        (maxAllocTries - conflicts) (Version info) t (recorded (w_store w)) (recorded (w_store w')) r"
proof (induction "card (free_hosts (Version info) lo hi ex (sn_Gateway sub))" arbitrary: ex conflicts w
    rule: less_induct)
  case less
  let ?ver = "Version info" and ?gw = "sn_Gateway sub" and ?rec = "recorded (w_store w) t"
  from FirstFree_free_hosts [OF P R, of ex ?gw] show ?case
  proof (elim disjE bexE conjE)
    fix v assume v: "v \<in> free_hosts ?ver lo hi ex ?gw" and least: "\<forall>u \<in> free_hosts ?ver lo hi ex ?gw. v \<le> u"
      and ff: "FirstFree (sn_CIDR sub) ex ?gw (ad_skipFirst cfg) (ad_skipLast cfg) = Inr (intToIP v ?ver)"
    let ?x = "host_text ?ver v"
    note IH = less.hyps [OF card_free_hosts_tput [OF v]] and step = alloc_loop_step [OF ff, unfolded Let_def]
    obtain res m' where cr: "s_CreateAddress st e (alloc_row e t sub ?x h) (w_store w) = (res, m')"
      by fastforce
    consider (skip) "below startFrom ?x" | (made) u where "\<not> below startFrom ?x" "res = Inr u"
      | (conflict) "\<not> below startFrom ?x" "res = Inl RepoConflict"
      | (error) err where "\<not> below startFrom ?x" "res = Inl err" "err \<noteq> RepoConflict"
      by (cases res) blast+
    then show ?thesis
    proof cases
      case skip
      then show ?thesis
        unfolding step if_P [OF skip]
        using IH [OF less.prems] order_trans [OF _ card_contested_tput [of ?ver lo hi v ex ?gw ?rec]]
        unfolding eligible_tput [OF disjI1 [OF skip]] by (blast intro: alloc_outcome_mono)
    next
      case made
      then show ?thesis
        using alloc_insert_spec [OF less.prems(1,2) cr [unfolded made(2)], of cfg] v least cr
        unfolding step by (auto simp: alloc_outcome_def eligible_def intro!: exI [of _ v])
    next
      case conflict
      have rec: "?rec ?x" and er: "inv m'" "fresh e m'" "recorded m' = recorded (w_store w)"
        using create_refused [OF less.prems(1) cr [unfolded conflict]]
          create_error [OF less.prems(1) cr [unfolded conflict]] less.prems(2) by auto
      note cc = card_contested_conflict [OF v, of ?rec, OF rec]
        and el = eligible_tput [where rec = ?rec, OF disjI2 [OF rec]]
      show ?thesis
      proof (cases "maxAllocTries \<le> Suc conflicts")
        case True
        then show ?thesis
          unfolding step using conflict cr er cc less.prems(3) by (auto simp: alloc_outcome_def)
      next
        case False
        with IH [of "w\<lparr>w_store := m'\<rparr>" "Suc conflicts"] er cc show ?thesis
          unfolding step using conflict cr by (fastforce elim!: alloc_outcome_mono simp: el)
      qed
    next
      case error
      then show ?thesis
        unfolding step using cr create_error [OF less.prems(1) cr [unfolded error(2)]] mapErr_not_conflict [of err]
        by (simp add: alloc_outcome_def)
    qed
  qed (use less.prems in \<open>simp add: alloc_loop_FirstFree_error alloc_outcome_def eligible_def\<close>)
qed

text \<open>Bulk allocation: what it returns is new, distinct and recorded, and on an error what was
  allocated so far is returned.\<close>

lemma bulk_loop_spec:
  assumes P: "Parse (sn_CIDR sub) = Inr info"
    and R: "boundedRange info (ad_skipFirst cfg) (ad_skipLast cfg) = (lo, hi)"
  shows "inv (w_store w) \<Longrightarrow> fresh (env_skip i e) (w_store w) \<Longrightarrow>
    \<exists>new err w'. bulk_loop st cfg e t sub hp i n ex out w = Some ((out @ new, err), w') \<and>
      inv (w_store w') \<and> distinct (map ip_Address new) \<and>
      (\<forall>a \<in> set new. ip_TenantID a = t \<and> ip_Owner a = [] \<and> \<not> recorded (w_store w) t (ip_Address a) \<and>
         (\<exists>v \<in> {lo..hi}. ip_Address a = host_text (Version info) v)) \<and>
      recorded (w_store w') = (\<lambda>t' x. recorded (w_store w) t' x \<or> t' = t \<and> x \<in> ip_Address ` set new) \<and>
      (err = None \<longrightarrow> length new = n)"
proof (induction n arbitrary: i ex out w)
  case 0
  then show ?case by simp
next
  case (Suc n)
  let ?h = "if hp \<noteq> [] then hp @ itoa i else []"
  obtain r ex' w1 where al: "alloc_loop st cfg (env_skip i e) t sub [] ?h ex 0 w = Some (r, ex', w1)"
    and w1: "inv (w_store w1)" "\<forall>a. r = Inr a \<longrightarrow> fresh (env_skip 1 (env_skip i e)) (w_store w1)"
      "alloc_outcome (eligible (Version info) lo hi ex (sn_Gateway sub) [] (recorded (w_store w) t))
        (contested (Version info) lo hi ex (sn_Gateway sub) (recorded (w_store w) t))
        (maxAllocTries - 0) (Version info) t (recorded (w_store w)) (recorded (w_store w1)) r"
    using alloc_loop_spec [OF P R Suc.prems, of 0 t "[]" ?h ex] by (auto simp: maxAllocTries_def)
  show ?case
  proof (cases r)
    case (Inl err)
    then show ?thesis
      using al w1 by (auto simp: allocInto_def alloc_outcome_def intro!: exI [of _ "[]"])
  next
    case (Inr a)
    have "fresh (env_skip (Suc i) e) (w_store w1)"
      using w1(2) Inr by (simp add: env_skip_def)
    then obtain new err w' where
      "bulk_loop st cfg e t sub hp (Suc i) n ex' (out @ [a]) w1 = Some (((out @ [a]) @ new, err), w')"
      "inv (w_store w')" "distinct (map ip_Address new)"
      "\<forall>b \<in> set new. ip_TenantID b = t \<and> ip_Owner b = [] \<and> \<not> recorded (w_store w1) t (ip_Address b) \<and>
         (\<exists>v \<in> {lo..hi}. ip_Address b = host_text (Version info) v)"
      "recorded (w_store w') = (\<lambda>t' x. recorded (w_store w1) t' x \<or> t' = t \<and> x \<in> ip_Address ` set new)"
      "err = None \<longrightarrow> length new = n"
      using Suc.IH [OF w1(1), of "Suc i" ex' "out @ [a]"] by blast
    then show ?thesis
      using al w1 Inr
      by (auto simp: allocInto_def alloc_outcome_def eligible_def free_hosts_def
          intro!: exI [of _ "a # new"])
  qed
qed

end

section \<open>Properties of the allocation\<close>

text \<open>C7. Allocation returns: whatever the store answers, the retry loops of AllocateNext and
  BulkAllocate end.\<close>

theorem allocation_returns:
  "(\<exists>r w'. AllocateNext st cfg e subj subnetID startFrom skipAddresses w = Some (r, w')) \<and>
   (\<exists>r w'. BulkAllocate st cfg e subj subnetID count hostnamePrefix w = Some (r, w'))"
proof
  have "\<exists>r w' ex'. allocInto st cfg e t sub ex startFrom h w1 = Some (r, ex', w')" for t sub ex h and w1
    unfolding allocInto_def using alloc_loop_returns [of st cfg e t sub startFrom h ex 0 w1] by auto
  then show "\<exists>r w'. AllocateNext st cfg e subj subnetID startFrom skipAddresses w = Some (r, w')"
    by (auto simp: AllocateNext_def split: sum.splits prod.splits)
  have "\<exists>y. bulk_loop st cfg e t sub hostnamePrefix 0 n ex [] w1 = Some y" for t sub n ex and w1
    by (rule bulk_loop_returns)
  then show "\<exists>r w'. BulkAllocate st cfg e subj subnetID count hostnamePrefix w = Some (r, w')"
    by (auto simp: BulkAllocate_def split: sum.splits prod.splits)
qed

text \<open>Why AllocateNext passes over an address: it is the gateway, one of the addresses to skip,
  denoted by a row of the subnet, written in a row of the tenant, or below the start.\<close>

definition unavailable :: "Mem \<Rightarrow> string \<Rightarrow> string \<Rightarrow> string list \<Rightarrow> string \<Rightarrow> string \<Rightarrow> IP \<Rightarrow> bool" where
  "unavailable m t subnetID skips gw startFrom ip =
     (same_address gw ip \<or> (\<exists>k \<in> set skips. same_address k ip) \<or>
      (\<exists>a \<in> set (tvals (m_addrs m)). ip_TenantID a = t \<and>
         (ip_SubnetID a = subnetID \<and> same_address (ip_Address a) ip \<or> ip_Address a = IP_String ip)) \<or>
      startFrom \<noteq> [] \<and> ipLess (IP_String ip) startFrom)"

lemma set_fold_tput_True:
  "(k, True) \<in> set (fold (\<lambda>a. tput a True) xs ex) \<longleftrightarrow> k \<in> set xs \<or> (k, True) \<in> set ex"
  by (induction xs arbitrary: ex) (auto simp: set_tput_True)

lemma set_exclude_set: "(k, True) \<in> set (exclude_set used extra) \<longleftrightarrow> k \<in> set used \<or> k \<in> set extra \<and> k \<noteq> []"
proof -
  have "fold (\<lambda>a t. if a \<noteq> [] then tput a True t else t) extra ex =
      fold (\<lambda>a. tput a True) (filter (\<lambda>a. a \<noteq> []) extra) ex" for ex
    by (induction extra arbitrary: ex) auto
  then show ?thesis
    by (auto simp: exclude_set_def set_fold_tput_True)
qed

lemma not_same_address_Nil [simp]: "\<not> same_address [] ip"
  by (simp add: same_address_def ParseIP_def ParseAddr_def trim_space_graphic graphic_def)

lemma taken_exclude_set: "taken (exclude_set used extra) gw ip \<longleftrightarrow>
    same_address gw ip \<or> (\<exists>k \<in> set used \<union> set extra. same_address k ip)"
  by (auto simp: taken_def set_exclude_set)

lemma ListAllocatedAddresses_unfold:
  "\<exists>used. ListAllocatedAddresses t i m = (Inr used, m) \<and>
     set used = ip_Address ` {a \<in> set (tvals (m_addrs m)). ip_TenantID a = t \<and> ip_SubnetID a = i}"
  by (auto simp: ListAllocatedAddresses_def)

lemma eligible_iff_available:
  assumes "set used = ip_Address ` {a \<in> set (tvals (m_addrs m)). ip_TenantID a = t \<and> ip_SubnetID a = i}"
  shows "eligible ver lo hi (exclude_set used skips) gw startFrom (addr_recorded m t) =
    {v \<in> {lo..hi}. \<not> unavailable m t i skips gw startFrom (intToIP v ver)}"
  using assms
  by (fastforce simp: eligible_def free_hosts_def taken_exclude_set unavailable_def below_def host_text_def
      addr_recorded_def list_ex_iff)

lemma alloc_prepare_mem:
  assumes "GetSubnet (su_TenantID subj) subnetID (w_store w) = (Inr sub, w_store w)"
  shows "\<exists>used. alloc_prepare mem_store subj subnetID skips w = (Inr (sub, exclude_set used skips), w) \<and>
    set used = ip_Address ` {a \<in> set (tvals (m_addrs (w_store w))).
      ip_TenantID a = su_TenantID subj \<and> ip_SubnetID a = subnetID}"
  using ListAllocatedAddresses_unfold [of "su_TenantID subj" subnetID "w_store w"] assms
  by (auto simp: alloc_prepare_def allocatedSet_def bind_op_def map_err_def on_store_def ret_def)

text \<open>C6. AllocateNext records the least address of the usable range that is not the gateway,
  not to be skipped, not held by a row and not below the requested start, and changes no other
  record. It reports that nothing is available only when every address of the range is
  unavailable, and gives up with a conflict only when at least twenty addresses of the range that
  no row of this subnet holds are recorded elsewhere in the tenant.\<close>

theorem AllocateNext_least:
  fixes startFrom :: string and skips :: "string list"
  assumes wf: "mem_wf (w_store w)" and fresh: "addr_fresh e (w_store w)"
    and tenant: "su_TenantID subj \<noteq> []"
    and sub: "GetSubnet (su_TenantID subj) subnetID (w_store w) = (Inr sub, w_store w)"
    and P: "Parse (sn_CIDR sub) = Inr info"
    and R: "boundedRange info (ad_skipFirst cfg) (ad_skipLast cfg) = (lo, hi)"
  defines "un \<equiv> \<lambda>v. unavailable (w_store w) (su_TenantID subj) subnetID skips (sn_Gateway sub) startFrom
      (intToIP v (Version info))"
  shows "\<exists>r w'. AllocateNext mem_store cfg e subj subnetID startFrom skips w = Some (r, w') \<and>
    mem_wf (w_store w') \<and>
    (case r of
       Inr a \<Rightarrow> ip_TenantID a = su_TenantID subj \<and> ip_Owner a = [] \<and>
         (\<exists>v \<in> {lo..hi}. ip_Address a = IP_String (intToIP v (Version info)) \<and> \<not> un v \<and> (\<forall>u \<in> {lo..<v}. un u)) \<and>
         addr_recorded (w_store w') = (\<lambda>t x. addr_recorded (w_store w) t x \<or>
           t = su_TenantID subj \<and> x = ip_Address a)
     | Inl err \<Rightarrow> addr_recorded (w_store w') = addr_recorded (w_store w) \<and>
         (err = AddressesNoAvailable \<longrightarrow> (\<forall>v \<in> {lo..hi}. un v)) \<and>
         (err = AddressesConflict \<longrightarrow> 20 \<le> card {v \<in> {lo..hi}.
            addr_recorded (w_store w) (su_TenantID subj) (IP_String (intToIP v (Version info)))}))"
proof -
  let ?t = "su_TenantID subj" and ?ver = "Version info"
  obtain used where prep: "alloc_prepare mem_store subj subnetID skips w = (Inr (sub, exclude_set used skips), w)"
    and used: "set used = ip_Address ` {a \<in> set (tvals (m_addrs (w_store w))).
      ip_TenantID a = ?t \<and> ip_SubnetID a = subnetID}"
    using alloc_prepare_mem [OF sub] by blast
  note el = eligible_iff_available [OF used, of ?ver lo hi skips "sn_Gateway sub" startFrom]
  obtain r ex' w' where al: "alloc_loop mem_store cfg e ?t sub startFrom [] (exclude_set used skips) 0 w = Some (r, ex', w')"
    and w': "mem_wf (w_store w')" "alloc_outcome {v \<in> {lo..hi}. \<not> un v}
        (contested ?ver lo hi (exclude_set used skips) (sn_Gateway sub) (addr_recorded (w_store w) ?t)) 20 ?ver ?t
        (addr_recorded (w_store w)) (addr_recorded (w_store w')) r"
    using mem_addresses.alloc_loop_spec [OF P R wf fresh, of 0 ?t startFrom "[]" "exclude_set used skips"]
    unfolding el un_def by (auto simp: maxAllocTries_def)
  have "card (contested ?ver lo hi (exclude_set used skips) (sn_Gateway sub) (addr_recorded (w_store w) ?t)) \<le>
      card {v \<in> {lo..hi}. addr_recorded (w_store w) ?t (host_text ?ver v)}"
    by (intro card_mono finite_subset [of "{v \<in> {lo..hi}. _ v}" "{lo..hi}"])
      (auto simp: contested_def free_hosts_def)
  then have "alloc_outcome {v \<in> {lo..hi}. \<not> un v}
      {v \<in> {lo..hi}. addr_recorded (w_store w) ?t (host_text ?ver v)} 20 ?ver ?t
      (addr_recorded (w_store w)) (addr_recorded (w_store w')) r"
    by (intro alloc_outcome_mono [OF w'(2)]) simp
  moreover have "AllocateNext mem_store cfg e subj subnetID startFrom skips w = Some (r, w')"
    using al prep tenant by (simp add: AllocateNext_def allocInto_def RequireTenant_def)
  ultimately show ?thesis
    using w'(1) unfolding alloc_outcome_def host_text_def by (fastforce split: sum.splits)
qed

lemma example_range: "\<exists>info. Parse ''10.0.0.0/29'' = Inr info \<and> Version info = 4 \<and>
    boundedRange info 0 0 = (0x0a000001, 0x0a000006)"
proof -
  let ?i = "\<lparr>Network = [10, 0, 0, 0], Broadcast = [10, 0, 0, 7], Mask = [255, 255, 255, 248],
    PrefixLen = 29, Total = 8, Version = 4\<rparr>"
  have "Parse ''10.0.0.0/29'' = Inr ?i" and "boundedRange ?i 0 0 = (0x0a000001, 0x0a000006)"
    by code_simp+
  then show ?thesis
    by auto
qed

lemma example_premises:
  assumes "GetSubnet ''t'' ''net'' example_mem = (Inr sub, example_mem)"
  shows "mem_wf (w_store example_world)" "addr_fresh env0 (w_store example_world)" "su_TenantID example_subjects \<noteq> []"
    "GetSubnet (su_TenantID example_subjects) ''net'' (w_store example_world) = (Inr sub, w_store example_world)"
  using assms example_mem_wf example_mem_fresh by (simp_all add: example_subjects_def)

theorem AllocateNext_least_witness:
  "\<exists>a w'. AllocateNext mem_store (addresses_New True 0 0) env0 example_subjects ''net'' [] [''10.0.0.3''] example_world =
      Some (Inr a, w') \<and> ip_Address a = ''10.0.0.4'' \<and> ip_Owner a = [] \<and>
    addr_recorded (w_store w') ''t'' ''10.0.0.4''"
proof -
  let ?cfg = "addresses_New True 0 0"
  let ?run = "AllocateNext mem_store ?cfg env0 example_subjects ''net'' [] [''10.0.0.3''] example_world"
  obtain sub where sub: "GetSubnet ''t'' ''net'' example_mem = (Inr sub, example_mem)" "sn_CIDR sub = ''10.0.0.0/29''"
    using example_subnet_lookup by blast
  obtain info where info: "Parse (sn_CIDR sub) = Inr info"
      "boundedRange info (ad_skipFirst ?cfg) (ad_skipLast ?cfg) = (0x0a000001, 0x0a000006)"
    using example_range sub by (auto simp: addresses_New_def)
  have "map_option (map_sum id ip_Address \<circ> fst) ?run = Some (Inr ''10.0.0.4'')"
    by code_simp
  then obtain r w' where "?run = Some (r, w')" "map_sum id ip_Address r = Inr ''10.0.0.4''"
    by auto
  then obtain a where run: "?run = Some (Inr a, w')" and a: "ip_Address a = ''10.0.0.4''"
    by (cases r) auto
  have "ip_Owner a = [] \<and> addr_recorded (w_store w') = (\<lambda>t x. addr_recorded example_mem t x \<or>
      t = su_TenantID example_subjects \<and> x = ip_Address a)"
    using AllocateNext_least [OF example_premises [OF sub(1)] info, of "[]" "[''10.0.0.3'']"] unfolding run by auto
  then show ?thesis
    using run a by (simp add: example_subjects_def)
qed

text \<open>C8. A bulk allocation never hands out an address twice nor one already recorded: what it
  returns, also when it stops early with an error, is pairwise distinct, was recorded by nobody in
  the tenant and is recorded afterwards, and nothing else changes; without an error there are as
  many addresses as were asked for.\<close>

theorem BulkAllocate_distinct:
  assumes wf: "mem_wf (w_store w)" and fresh: "addr_fresh e (w_store w)"
    and tenant: "su_TenantID subj \<noteq> []"
    and sub: "GetSubnet (su_TenantID subj) subnetID (w_store w) = (Inr sub, w_store w)"
    and P: "Parse (sn_CIDR sub) = Inr info"
  shows "\<exists>out err w'. BulkAllocate mem_store cfg e subj subnetID count hostnamePrefix w = Some ((out, err), w') \<and>
    mem_wf (w_store w') \<and> distinct (map ip_Address out) \<and>
    (\<forall>a \<in> set out. ip_TenantID a = su_TenantID subj \<and> ip_Owner a = [] \<and>
       \<not> addr_recorded (w_store w) (su_TenantID subj) (ip_Address a)) \<and>
    addr_recorded (w_store w') = (\<lambda>t x. addr_recorded (w_store w) t x \<or>
      t = su_TenantID subj \<and> x \<in> ip_Address ` set out) \<and>
    (err = None \<longrightarrow> int (length out) = max 0 count)"
proof (cases "count \<le> 0")
  case True
  then show ?thesis
    using tenant wf by (simp add: BulkAllocate_def RequireTenant_def)
next
  case False
  obtain lo hi where R: "boundedRange info (ad_skipFirst cfg) (ad_skipLast cfg) = (lo, hi)"
    by fastforce
  obtain used where prep: "alloc_prepare mem_store subj subnetID [] w = (Inr (sub, exclude_set used []), w)"
    using alloc_prepare_mem [OF sub] by blast
  have e: "addr_fresh (env_skip 0 e) (w_store w)"
    using fresh by (simp add: env_skip_def)
  obtain out err w' where "bulk_loop mem_store cfg e (su_TenantID subj) sub hostnamePrefix 0 (nat count)
      (exclude_set used []) [] w = Some (([] @ out, err), w')" and
    "mem_wf (w_store w')" "distinct (map ip_Address out)"
    "\<forall>a \<in> set out. ip_TenantID a = su_TenantID subj \<and> ip_Owner a = [] \<and>
       \<not> addr_recorded (w_store w) (su_TenantID subj) (ip_Address a) \<and>
       (\<exists>v \<in> {lo..hi}. ip_Address a = host_text (Version info) v)"
    "addr_recorded (w_store w') = (\<lambda>t x. addr_recorded (w_store w) t x \<or>
      t = su_TenantID subj \<and> x \<in> ip_Address ` set out)"
    "err = None \<longrightarrow> length out = nat count"
    using mem_addresses.bulk_loop_spec [OF P R wf e] by blast
  then show ?thesis
    using False prep tenant by (auto simp: BulkAllocate_def RequireTenant_def)
qed

theorem BulkAllocate_distinct_witness:
  "\<exists>out err w'. BulkAllocate mem_store (addresses_New True 0 0) env0 example_subjects ''net'' 3 ''h'' example_world =
      Some ((out, err), w') \<and> distinct (map ip_Address out) \<and>
    map ip_Address out = [''10.0.0.3'', ''10.0.0.4'', ''10.0.0.5'']"
proof -
  let ?run = "BulkAllocate mem_store (addresses_New True 0 0) env0 example_subjects ''net'' 3 ''h'' example_world"
  obtain sub where sub: "GetSubnet ''t'' ''net'' example_mem = (Inr sub, example_mem)" "sn_CIDR sub = ''10.0.0.0/29''"
    using example_subnet_lookup by blast
  obtain info where info: "Parse (sn_CIDR sub) = Inr info"
    using example_range sub by auto
  have "map_option (map ip_Address \<circ> fst \<circ> fst) ?run = Some [''10.0.0.3'', ''10.0.0.4'', ''10.0.0.5'']"
    by code_simp
  then obtain out err w' where run: "?run = Some ((out, err), w')"
    and out: "map ip_Address out = [''10.0.0.3'', ''10.0.0.4'', ''10.0.0.5'']"
    by auto
  have "distinct (map ip_Address out)"
    using BulkAllocate_distinct [OF example_premises [OF sub(1)] info, of "addresses_New True 0 0" 3 "''h''"]
    unfolding run by auto
  then show ?thesis
    using run out by (intro exI [of _ out] exI [of _ err] exI [of _ w'] conjI)
qed

section \<open>Twenty foreign rows block a subnet\<close>

text \<open>The addresses recorded in the tenant that the loop tries before the first available one.\<close>

definition blockers ::
  "int \<Rightarrow> int \<Rightarrow> int \<Rightarrow> bool tbl \<Rightarrow> string \<Rightarrow> string \<Rightarrow> (string \<Rightarrow> bool) \<Rightarrow> string set" where
  "blockers ver lo hi ex gw startFrom rec =
     host_text ver ` {u \<in> contested ver lo hi ex gw rec. \<not> below startFrom (host_text ver u) \<and>
       (\<forall>v \<in> eligible ver lo hi ex gw startFrom rec. u < v)}"

lemma finite_blockers [simp]: "finite (blockers ver lo hi ex gw startFrom rec)"
  by (auto simp: blockers_def contested_def intro: finite_subset [of _ "free_hosts ver lo hi ex gw"])

lemma blockers_tput:
  assumes "below startFrom (host_text ver v) \<or> rec (host_text ver v)"
  shows "blockers ver lo hi (tput (host_text ver v) True ex) gw startFrom rec =
    blockers ver lo hi ex gw startFrom rec - {host_text ver v}"
  using eligible_tput [of startFrom ver v rec lo hi ex gw] assms
  by (auto simp: blockers_def contested_def free_hosts_tput)

lemma CreateAddress_taken:
  assumes "mfail ''CreateAddress'' m = None" and "addr_recorded m (ip_TenantID a) (ip_Address a)"
  shows "CreateAddress e a m = (Inl RepoConflict, m)"
  using assms by (auto simp: CreateAddress_def guarded_body addr_recorded_find)

lemma alloc_loop_blocked:
  assumes P: "Parse (sn_CIDR sub) = Inr info"
    and R: "boundedRange info (ad_skipFirst cfg) (ad_skipLast cfg) = (lo, hi)"
    and able: "mfail ''CreateAddress'' (w_store w) = None"
  shows "conflicts < maxAllocTries \<Longrightarrow> maxAllocTries - conflicts \<le>
      card (blockers (Version info) lo hi ex (sn_Gateway sub) startFrom (addr_recorded (w_store w) t)) \<Longrightarrow>
    \<exists>ex'. alloc_loop mem_store cfg e t sub startFrom h ex conflicts w = Some (Inl AddressesConflict, ex', w)"
proof (induction "card (free_hosts (Version info) lo hi ex (sn_Gateway sub))" arbitrary: ex conflicts rule: less_induct)
  case less
  let ?ver = "Version info" and ?gw = "sn_Gateway sub" and ?rec = "addr_recorded (w_store w) t"
  let ?B = "\<lambda>ex. blockers ?ver lo hi ex ?gw startFrom ?rec"
  have "?B ex \<noteq> {}"
    using less.prems by auto
  then obtain u where u: "u \<in> free_hosts ?ver lo hi ex ?gw" "\<forall>v \<in> eligible ?ver lo hi ex ?gw startFrom ?rec. u < v"
    by (auto simp: blockers_def contested_def)
  with FirstFree_free_hosts [OF P R, of ex ?gw] obtain v where v: "v \<in> free_hosts ?ver lo hi ex ?gw" "v \<le> u"
    and ff: "FirstFree (sn_CIDR sub) ex ?gw (ad_skipFirst cfg) (ad_skipLast cfg) = Inr (intToIP v ?ver)"
    by auto
  let ?x = "host_text ?ver v"
  note IH = less.hyps [OF card_free_hosts_tput [OF v(1)]]
  show ?case
  proof (cases "below startFrom ?x")
    case True
    have "?x \<notin> ?B ex"
      using True by (auto simp: blockers_def)
    then have "?B (tput ?x True ex) = ?B ex"
      unfolding blockers_tput [of startFrom ?ver v ?rec, OF disjI1 [OF True]] by simp
    then show ?thesis
      unfolding alloc_loop_step [OF ff] using IH [of conflicts] less.prems True by (simp add: Let_def)
  next
    case False
    have rec: "?rec ?x"
      using u(2) v False by (force simp: eligible_def)
    have cr: "CreateAddress e (alloc_row e t sub ?x h) (w_store w) = (Inl RepoConflict, w_store w)"
      using rec by (intro CreateAddress_taken able) simp
    have step: "alloc_loop mem_store cfg e t sub startFrom h ex conflicts w =
        (if maxAllocTries \<le> Suc conflicts then Some (Inl AddressesConflict, tput ?x True ex, w)
         else alloc_loop mem_store cfg e t sub startFrom h (tput ?x True ex) (Suc conflicts) w)"
      unfolding alloc_loop_step [OF ff] using False by (simp add: Let_def cr)
    have "card (?B ex) \<le> Suc (card (?B (tput ?x True ex)))"
      unfolding blockers_tput [of startFrom ?ver v ?rec, OF disjI2 [OF rec]] by (auto simp: card_Diff_singleton_if)
    then show ?thesis
      unfolding step using less.prems IH [of "Suc conflicts"] by simp
  qed
qed

text \<open>An address the loop may try: not the gateway, not to be skipped, not denoted by a row of the
  subnet itself and not below the start.\<close>

definition alloc_candidate :: "Mem \<Rightarrow> string \<Rightarrow> string \<Rightarrow> string list \<Rightarrow> string \<Rightarrow> string \<Rightarrow> IP \<Rightarrow> bool" where
  "alloc_candidate m t subnetID skips gw startFrom ip =
     (\<not> same_address gw ip \<and> (\<forall>k \<in> set skips. \<not> same_address k ip) \<and>
      (\<forall>a \<in> set (tvals (m_addrs m)). ip_TenantID a = t \<and> ip_SubnetID a = subnetID \<longrightarrow>
         \<not> same_address (ip_Address a) ip) \<and>
      (startFrom = [] \<or> \<not> ipLess (IP_String ip) startFrom))"

lemma candidate_free:
  assumes "set used = ip_Address ` {a \<in> set (tvals (m_addrs m)). ip_TenantID a = t \<and> ip_SubnetID a = i}"
  shows "v \<in> free_hosts ver lo hi (exclude_set used skips) gw \<and> \<not> below startFrom (host_text ver v) \<longleftrightarrow>
    v \<in> {lo..hi} \<and> alloc_candidate m t i skips gw startFrom (intToIP v ver)"
  using assms
  by (fastforce simp: free_hosts_def taken_exclude_set alloc_candidate_def below_def host_text_def)

text \<open>C35. The exclude set of an allocation holds only the rows of the subnet itself. Call a candidate
  an address of the usable range that is not the gateway, not to be skipped, not denoted by a row of
  the subnet and not below the start. When the twenty lowest candidates (or more) are all recorded in
  the tenant, which then is under other subnets, nested ones for instance, AllocateNext reports a
  conflict and changes nothing. So every repetition fails the same way, also when a later
  candidate is free.\<close>

theorem AllocateNext_gives_up:
  fixes startFrom :: string and skips :: "string list"
  assumes tenant: "su_TenantID subj \<noteq> []"
    and sub: "GetSubnet (su_TenantID subj) subnetID (w_store w) = (Inr sub, w_store w)"
    and P: "Parse (sn_CIDR sub) = Inr info"
    and R: "boundedRange info (ad_skipFirst cfg) (ad_skipLast cfg) = (lo, hi)"
    and able: "''CreateAddress'' \<notin> set (m_failNext (w_store w))"
  defines "rec \<equiv> \<lambda>v. addr_recorded (w_store w) (su_TenantID subj) (IP_String (intToIP v (Version info)))"
    and "cand \<equiv> \<lambda>v. alloc_candidate (w_store w) (su_TenantID subj) subnetID skips (sn_Gateway sub) startFrom
      (intToIP v (Version info))"
  assumes many: "20 \<le> card {IP_String (intToIP u (Version info)) | u.
      u \<in> {lo..hi} \<and> cand u \<and> (\<forall>v \<in> {lo..u}. cand v \<longrightarrow> rec v)}"
  shows "AllocateNext mem_store cfg e subj subnetID startFrom skips w = Some (Inl AddressesConflict, w)"
proof -
  let ?rec = "addr_recorded (w_store w) (su_TenantID subj)" and ?ver = "Version info" and ?gw = "sn_Gateway sub"
  obtain used where prep: "alloc_prepare mem_store subj subnetID skips w = (Inr (sub, exclude_set used skips), w)"
    and used: "set used = ip_Address ` {a \<in> set (tvals (m_addrs (w_store w))).
      ip_TenantID a = su_TenantID subj \<and> ip_SubnetID a = subnetID}"
    using alloc_prepare_mem [OF sub] by blast
  have cf: "v \<in> free_hosts ?ver lo hi (exclude_set used skips) ?gw \<and> \<not> below startFrom (host_text ?ver v) \<longleftrightarrow>
      v \<in> {lo..hi} \<and> cand v" for v
    unfolding cand_def by (rule candidate_free [OF used])
  let ?X = "{IP_String (intToIP u ?ver) | u. u \<in> {lo..hi} \<and> cand u \<and> (\<forall>v \<in> {lo..u}. cand v \<longrightarrow> rec v)}"
  have "?X \<subseteq> blockers ?ver lo hi (exclude_set used skips) ?gw startFrom ?rec"
  proof
    fix x assume "x \<in> ?X"
    then obtain u where u: "u \<in> {lo..hi}" "cand u" "x = host_text ?ver u" "\<forall>v \<in> {lo..u}. cand v \<longrightarrow> rec v"
      by (auto simp: host_text_def)
    have "?rec (host_text ?ver u)"
      using u by (auto simp: rec_def host_text_def)
    moreover have "u < v" if v: "v \<in> eligible ?ver lo hi (exclude_set used skips) ?gw startFrom ?rec" for v
    proof -
      have "v \<in> {lo..hi}" "cand v" "\<not> rec v"
        using v cf [of v] by (auto simp: eligible_def rec_def host_text_def)
      then show ?thesis
        using u(4) by (cases "v \<le> u") auto
    qed
    ultimately show "x \<in> blockers ?ver lo hi (exclude_set used skips) ?gw startFrom ?rec"
      using u(1-3) cf [of u] by (auto simp: blockers_def contested_def)
  qed
  from order_trans [OF many card_mono [OF finite_blockers this]]
  obtain ex' where "alloc_loop mem_store cfg e (su_TenantID subj) sub startFrom [] (exclude_set used skips) 0 w =
      Some (Inl AddressesConflict, ex', w)"
    using alloc_loop_blocked [OF P R, of w 0 "exclude_set used skips" startFrom "su_TenantID subj" e "[]"] able
    by (auto simp: mfail_def maxAllocTries_def)
  then show ?thesis
    using prep tenant by (simp add: AllocateNext_def allocInto_def RequireTenant_def)
qed

definition crowded_mem :: Mem where
  "crowded_mem = New\<lparr>m_subnets := [(''net'', example_subnet\<lparr>sn_CIDR := ''10.0.0.0/24'', sn_Gateway := []\<rparr>)],
     m_addrs := map (\<lambda>i. (itoa i, IPAddress0\<lparr>ip_ID := itoa i, ip_TenantID := ''t'', ip_SubnetID := ''child'',
       ip_Address := ''10.0.0.'' @ itoa i\<rparr>)) [1..<21]\<rparr>"

definition crowded_hosts :: "int list" where
  "crowded_hosts = map (\<lambda>i. 0x0a000000 + int i) [1..<21]"

lemma nat_bytes_four:
  "nat_bytes 4 n = [of_nat (n div 16777216), of_nat (n div 65536), of_nat (n div 256), of_nat n]"
proof -
  have four: "(4 :: nat) = Suc (Suc (Suc (Suc 0)))"
    by simp
  show ?thesis
    unfolding four nat_bytes.simps by (simp add: div_mult2_eq [symmetric])
qed

lemma crowded_text:
  assumes "i < 256"
  shows "IP_String (intToIP (0x0a000000 + int i) 4) = ''10.0.0.'' @ itoa i"
proof -
  have "(0x0a000000 + i) div 16777216 = 10" "(0x0a000000 + i) div 65536 = 2560" "(0x0a000000 + i) div 256 = 655360"
    using assms by (auto intro!: div_nat_eqI)
  then have "nat_bytes 4 (0x0a000000 + i) = [10, 0, 0, of_nat i]"
    by (simp add: nat_bytes_four)
  moreover have "nat \<bar>0x0a000000 + int i\<bar> = 0x0a000000 + i"
    by simp
  moreover have "unat (of_nat i :: byte) = i"
    using assms by (simp add: unat_of_nat)
  moreover have "itoa 10 = ''10''" "itoa 0 = ''0''"
    by code_simp+
  ultimately show ?thesis
    by (simp add: intToIP_def IP_String_def To4_def string4_def)
qed

lemma crowded_texts: "map (\<lambda>u. IP_String (intToIP u 4)) crowded_hosts = map (\<lambda>i. ''10.0.0.'' @ itoa i) [1..<21]"
  by (simp add: crowded_hosts_def crowded_text del: upt.simps upt_rec_numeral)

lemma crowded_recorded: "list_all (\<lambda>u. addr_recorded crowded_mem ''t'' (IP_String (intToIP u 4))) crowded_hosts"
proof -
  have "\<forall>i \<in> {1..<21}. addr_recorded crowded_mem ''t'' (''10.0.0.'' @ itoa i)"
    by (auto simp: addr_recorded_def crowded_mem_def tvals_def list_ex_iff simp del: upt_rec_numeral)
  then show ?thesis
    by (simp add: crowded_hosts_def crowded_text list_all_iff del: upt_rec_numeral)
qed

lemma crowded_distinct: "distinct (map (\<lambda>u. IP_String (intToIP u 4)) crowded_hosts) \<and> length crowded_hosts = 20"
proof -
  have "distinct (map itoa [1..<21])"
    by code_simp
  then show ?thesis
    unfolding crowded_texts by (simp add: crowded_hosts_def distinct_map inj_on_def del: upt_rec_numeral)
qed

lemma set_crowded_hosts: "set crowded_hosts = {0x0a000001..0x0a000014}"
proof -
  have "{0x0a000001..0x0a000014 :: int} = (\<lambda>i. 0x0a000000 + i) ` {1..20}"
    by (simp add: image_add_atLeastAtMost)
  also have "{1..20 :: int} = int ` {1..<21}"
    unfolding image_int_atLeastLessThan by auto
  finally show ?thesis
    by (simp add: crowded_hosts_def image_image)
qed

lemma crowded_many:
  fixes cand :: "int \<Rightarrow> bool"
  assumes "\<And>u. cand u"
  shows "20 \<le> card {IP_String (intToIP u 4) | u. u \<in> {0x0a000001..0x0a0000fe} \<and> cand u \<and>
      (\<forall>v \<in> {0x0a000001..u}. cand v \<longrightarrow> addr_recorded crowded_mem ''t'' (IP_String (intToIP v 4)))}" (is "_ \<le> card ?X")
proof -
  have rec: "addr_recorded crowded_mem ''t'' (IP_String (intToIP u 4))" if "u \<in> {0x0a000001..0x0a000014}" for u
    using crowded_recorded that by (simp add: list_all_iff set_crowded_hosts)
  have "finite ?X"
    by (rule finite_subset [of _ "(\<lambda>u. IP_String (intToIP u 4)) ` {0x0a000001..0x0a0000fe}"]) auto
  moreover have "(\<lambda>u. IP_String (intToIP u 4)) ` {0x0a000001..0x0a000014} \<subseteq> ?X"
  proof
    fix x assume "x \<in> (\<lambda>u. IP_String (intToIP u 4)) ` {0x0a000001..0x0a000014}"
    then obtain u where u: "u \<in> {0x0a000001..0x0a000014}" "x = IP_String (intToIP u 4)"
      by blast
    moreover have "addr_recorded crowded_mem ''t'' (IP_String (intToIP v 4))" if "v \<in> {0x0a000001..u}" for v
      using rec [of v] that u(1) by simp
    ultimately show "x \<in> ?X"
      using assms by auto
  qed
  moreover have "card ((\<lambda>u. IP_String (intToIP u 4)) ` {0x0a000001..0x0a000014}) = 20"
    using crowded_distinct distinct_card [of "map (\<lambda>u. IP_String (intToIP u 4)) crowded_hosts"]
    by (simp add: set_crowded_hosts)
  ultimately show ?thesis
    using card_mono [of ?X "(\<lambda>u. IP_String (intToIP u 4)) ` {0x0a000001..0x0a000014}"] by simp
qed

lemma crowded_candidate: "alloc_candidate crowded_mem ''t'' ''net'' [] [] [] ip"
proof -
  have "\<forall>a \<in> set (tvals (m_addrs crowded_mem)). ip_SubnetID a = ''child''"
    by (auto simp: crowded_mem_def tvals_def)
  then show ?thesis
    by (auto simp: alloc_candidate_def)
qed

theorem AllocateNext_gives_up_witness:
  "AllocateNext mem_store (addresses_New True 0 0) env0 example_subjects ''net'' [] [] \<lparr>w_store = crowded_mem, w_events = []\<rparr> =
     Some (Inl AddressesConflict, \<lparr>w_store = crowded_mem, w_events = []\<rparr>) \<and>
   \<not> addr_recorded crowded_mem ''t'' ''10.0.0.21''"
proof
  let ?i = "\<lparr>Network = [10, 0, 0, 0], Broadcast = [10, 0, 0, 255], Mask = [255, 255, 255, 0],
    PrefixLen = 24, Total = 256, Version = 4\<rparr>"
  let ?sub = "fillSubnet crowded_mem (example_subnet\<lparr>sn_CIDR := ''10.0.0.0/24'', sn_Gateway := []\<rparr>)"
  let ?w = "\<lparr>w_store = crowded_mem, w_events = []\<rparr>"
  have t: "su_TenantID example_subjects = ''t''"
    by (simp add: example_subjects_def)
  show "AllocateNext mem_store (addresses_New True 0 0) env0 example_subjects ''net'' [] [] ?w =
     Some (Inl AddressesConflict, ?w)"
  proof (rule AllocateNext_gives_up)
    show "GetSubnet (su_TenantID example_subjects) ''net'' (w_store ?w) = (Inr ?sub, w_store ?w)"
      by (simp add: GetSubnet_def tenant_row_def crowded_mem_def example_subjects_def example_subnet_def tget_def)
    show "Parse (sn_CIDR ?sub) = Inr ?i"
      by code_simp
    show "boundedRange ?i (ad_skipFirst (addresses_New True 0 0)) (ad_skipLast (addresses_New True 0 0)) =
        (0x0a000001, 0x0a0000fe)"
      by code_simp
    have gw: "sn_Gateway ?sub = []"
      by (simp add: fillSubnet_def Let_def)
    show "20 \<le> card {IP_String (intToIP u (Version ?i)) | u. u \<in> {0x0a000001..0x0a0000fe} \<and>
        alloc_candidate (w_store ?w) (su_TenantID example_subjects) ''net'' [] (sn_Gateway ?sub) [] (intToIP u (Version ?i)) \<and>
        (\<forall>v \<in> {0x0a000001..u}. alloc_candidate (w_store ?w) (su_TenantID example_subjects) ''net'' [] (sn_Gateway ?sub) []
           (intToIP v (Version ?i)) \<longrightarrow>
         addr_recorded (w_store ?w) (su_TenantID example_subjects) (IP_String (intToIP v (Version ?i))))}"
      unfolding t gw World.select_convs Info.select_convs by (rule crowded_many) (rule crowded_candidate)
  qed (auto simp: t crowded_mem_def New_def)
  show "\<not> addr_recorded crowded_mem ''t'' ''10.0.0.21''"
    by code_simp
qed

section \<open>What leaves the service\<close>

lemma GetAddress_tenant: "GetAddress t i m = (Inr a, m') \<Longrightarrow> ip_TenantID a = t \<and> m' = m"
  by (auto simp: GetAddress_def tenant_row_def split: option.splits if_splits)

lemma redact_simps [simp]: "ip_Owner (redact a) = []" "ip_TenantID (redact a) = ip_TenantID a"
  "ip_Address (redact a) = ip_Address a"
  by (simp_all add: redact_def)

lemma ListAddresses_tenant: "ListAddresses t f m = (Inr rows, m') \<Longrightarrow> a \<in> set rows \<Longrightarrow> ip_TenantID a = t"
  by (auto simp: ListAddresses_def guarded_def dest!: subsetD [OF set_paginate_subset] split: option.splits)

lemma FindAddress_tenant: "FindAddress t x m = (Inr a, m') \<Longrightarrow> ip_TenantID a = t"
  by (auto simp: FindAddress_def findAddrLocked_def tfind_def find_Some_iff split: option.splits)

lemma PageAddresses_tenant:
  assumes "\<And>xs r. set (lq_SortSlice lq xs r) = set xs" and "\<And>xs r. set (fst (lq_Window lq xs r)) \<subseteq> set xs"
    and page: "PageAddresses lq t f req m = (Inr (rows, count, applied), m')" and a: "a \<in> set rows"
  shows "ip_TenantID a = t"
proof -
  obtain xs m1 where xs: "ListAddresses t (f\<lparr>af_CursorID := [], af_Limit := 0\<rparr>) m = (Inr xs, m1)"
    and rows: "pageOf lq xs req = (rows, count, applied)"
    using page by (auto simp: PageAddresses_def guarded_def bind_op_def split: option.splits prod.splits sum.splits)
  have "set (fst (pageOf lq xs req)) \<subseteq> set (lq_SortSlice lq xs (lq_ListRequest lq req))"
    unfolding pageOf_def Let_def by (rule assms(2))
  then have "a \<in> set xs"
    using a unfolding rows assms(1) by auto
  then show ?thesis
    by (rule ListAddresses_tenant [OF xs])
qed

text \<open>C9. No row of another tenant and no sealed owner leaves the service: whatever row Get, Find,
  List, Page, Create or Update returns belongs to the caller's tenant and has its owner cleared. The
  two hypotheses on \<open>listquery\<close>, which the paged list sorts and cuts its rows with, say that sorting
  keeps the rows and that the window is taken from the rows it is given.\<close>

theorem addresses_confined:
  assumes sort: "\<And>xs r. set (lq_SortSlice lq xs r) = set xs"
    and window: "\<And>xs r. set (fst (lq_Window lq xs r)) \<subseteq> set xs"
    and returned: "addresses_Get mem_store subj i w = (Inr a, w') \<or>
    addresses_Find mem_store subj x w = (Inr a, w') \<or>
    addresses_Create mem_store cfg e subj new w = (Inr a, w') \<or>
    addresses_Update mem_store cfg e subj new w = (Inr a, w') \<or>
    (\<exists>rows. addresses_List mem_store subj f w = (Inr rows, w') \<and> a \<in> set rows) \<or>
    (\<exists>rows count applied. addresses_Page (PageAddresses lq) subj f req w = (Inr (rows, count, applied), w') \<and>
       a \<in> set rows)"
  shows "ip_TenantID a = su_TenantID subj \<and> ip_Owner a = []"
proof -
  note P = PageAddresses_tenant [OF sort window]
  show ?thesis
    using returned
    by (elim disjE exE conjE; clarsimp simp: addresses_Get_def addresses_Find_def addresses_Create_def
        addresses_Update_def addresses_List_def addresses_Page_def op_success addresses_publish_def Let_def;
        fastforce dest: GetAddress_tenant FindAddress_tenant ListAddresses_tenant P)
qed

text \<open>A concrete \<open>listquery\<close>: the request is a page size, 25 when it is zero; rows are sorted by
  identifier.\<close>

definition example_listquery :: "(IPAddress, nat) listquery" where
  "example_listquery = \<lparr>lq_ListRequest = (\<lambda>r. if r = 0 then 25 else r),
     lq_SortSlice = (\<lambda>xs r. sort_by (\<lambda>a b. ip_ID a < ip_ID b) xs),
     lq_Window = (\<lambda>xs r. (take r xs, int (length xs), r))\<rparr>"

theorem addresses_confined_witness:
  "\<exists>a rows w'. addresses_Page (PageAddresses example_listquery) example_subjects AddressFilter0 0 example_world =
      (Inr (a # rows, 1, 25), w') \<and> ip_Owner a = [] \<and> ip_TenantID a = ''t''"
proof -
  let ?run = "addresses_Page (PageAddresses example_listquery) example_subjects AddressFilter0 0 example_world"
  have "case fst ?run of Inr (rows, count, applied) \<Rightarrow> rows \<noteq> [] \<and> count = 1 \<and> applied = 25 | _ \<Rightarrow> False"
    by code_simp
  then obtain a rows w' where run: "?run = (Inr (a # rows, 1, 25), w')"
    by (cases ?run) (auto simp: neq_Nil_conv split: sum.splits)
  have "ip_TenantID a = su_TenantID example_subjects \<and> ip_Owner a = []"
  proof (rule addresses_confined [of example_listquery])
    show "set (lq_SortSlice example_listquery xs r) = set xs" for xs r
      by (simp add: example_listquery_def)
    show "set (fst (lq_Window example_listquery xs r)) \<subseteq> set xs" for xs r
      by (simp add: example_listquery_def set_take_subset)
    show "addresses_Get mem_store example_subjects [] example_world = (Inr a, w') \<or>
      addresses_Find mem_store example_subjects [] example_world = (Inr a, w') \<or>
      addresses_Create mem_store (addresses_New True 0 0) env0 example_subjects IPAddress0 example_world = (Inr a, w') \<or>
      addresses_Update mem_store (addresses_New True 0 0) env0 example_subjects IPAddress0 example_world = (Inr a, w') \<or>
      (\<exists>rows. addresses_List mem_store example_subjects AddressFilter0 example_world = (Inr rows, w') \<and> a \<in> set rows) \<or>
      (\<exists>rows count applied. ?run = (Inr (rows, count, applied), w') \<and> a \<in> set rows)"
      using run by auto
  qed
  then show ?thesis
    using run by (auto simp: example_subjects_def)
qed

end
