(* ===== verification/Audit_Writer.thy ===== *)
theory Audit_Writer
  imports Audit_Event Memstore_Contracts
begin

text \<open>
  The background writer of \<open>internal/audit/audit.go\<close>: a bounded queue, the operations callers
  invoke (\<open>Record\<close>, \<open>Flush\<close>, \<open>Close\<close>) and the goroutine that takes rows off
  the queue and hands them to the store. Their interleavings are the step relation
  \<open>writer_step\<close>, labelled with the row an accepted event enqueued. What the mutex protects
  is one step. \<open>Flush\<close> leaves the mutex before it meets the goroutine, so its request, the
  meeting and every turn of the loop that serves it are steps of their own. The ticker does
  nothing; a time limit of the context may end the wait for a flush at any moment, the time limit
  of a store write is not modelled.
\<close>

text \<open>Where the goroutine is: at its \<open>select\<close>, in the loop that serves a flush, or returned.\<close>

datatype run_mode = Waiting | Flushing | Stopped

record 'm Writer =
  wr_st :: 'm
  wr_ch :: "AuditRow list"
  wr_closed :: bool
  wr_dropped :: int
  wr_errors :: "goerr list"
  wr_flushes :: nat
  wr_mode :: run_mode

definition newWriter :: "'m \<Rightarrow> 'm Writer" where
  "newWriter m = \<lparr>wr_st = m, wr_ch = [], wr_closed = False, wr_dropped = 0, wr_errors = [],
     wr_flushes = 0, wr_mode = Waiting\<rparr>"

definition queue_size :: nat where
  "queue_size = 10000"

definition Record :: "nat \<Rightarrow> env \<Rightarrow> AuditEvent \<Rightarrow> ('m Writer, unit) op" where
  "Record queue e ev w = (case audit_Validate ev of
       Inl err \<Rightarrow> (Inl err, w)
     | Inr _ \<Rightarrow>
        if wr_closed w then (Inl (OtherErr ''audit: writer closed''), w\<lparr>wr_dropped := wr_dropped w + 1\<rparr>)
        else if length (wr_ch w) < queue
        then (Inr (), w\<lparr>wr_ch := wr_ch w @ [audit_row e ev (env_now e)]\<rparr>)
        else (Inr (), w\<lparr>wr_dropped := wr_dropped w + 1,
               wr_errors := wr_errors w @ [OtherErr ''audit: queue full, event dropped'']\<rparr>))"

text \<open>\<open>Flush\<close> up to its request: a closed writer is left alone, otherwise a request waits for
  the goroutine.\<close>

definition Flush :: "'m Writer \<Rightarrow> 'm Writer" where
  "Flush w = (if wr_closed w then w else w\<lparr>wr_flushes := wr_flushes w + 1\<rparr>)"

definition writeRow :: "(AuditRow \<Rightarrow> ('m, unit) op) \<Rightarrow> AuditRow \<Rightarrow> 'm Writer \<Rightarrow> 'm Writer" where
  "writeRow app r w = (case app r (wr_st w) of
       (Inl err, m) \<Rightarrow> w\<lparr>wr_st := m, wr_errors := wr_errors w @ [err]\<rparr>
     | (Inr _, m) \<Rightarrow> w\<lparr>wr_st := m\<rparr>)"

text \<open>The goroutine at its \<open>select\<close>: a row is written, a closed and empty queue ends it.\<close>

definition run_receive :: "(AuditRow \<Rightarrow> ('m, unit) op) \<Rightarrow> 'm Writer \<Rightarrow> 'm Writer" where
  "run_receive app w = (case wr_ch w of
       [] \<Rightarrow> if wr_closed w then w\<lparr>wr_mode := Stopped\<rparr> else w
     | r # rest \<Rightarrow> writeRow app r (w\<lparr>wr_ch := rest\<rparr>))"

definition run_flush :: "'m Writer \<Rightarrow> 'm Writer" where
  "run_flush w = w\<lparr>wr_mode := Flushing, wr_flushes := wr_flushes w - 1\<rparr>"

text \<open>One turn of the inner loop. Receiving from a closed and empty channel succeeds with the zero
  row; the \<open>default\<close> branch, which ends the loop, is taken only when the channel is open.\<close>

definition run_drain :: "(AuditRow \<Rightarrow> ('m, unit) op) \<Rightarrow> 'm Writer \<Rightarrow> 'm Writer" where
  "run_drain app w = (case wr_ch w of
       [] \<Rightarrow> if wr_closed w then writeRow app AuditRow0 w else w\<lparr>wr_mode := Waiting\<rparr>
     | r # rest \<Rightarrow> writeRow app r (w\<lparr>wr_ch := rest\<rparr>))"

definition Close :: "'m Writer \<Rightarrow> 'm Writer" where
  "Close w = (if wr_closed w then w else w\<lparr>wr_closed := True\<rparr>)"

inductive writer_step ::
  "nat \<Rightarrow> (AuditRow \<Rightarrow> ('m, unit) op) \<Rightarrow> 'm Writer \<Rightarrow> AuditRow list \<Rightarrow> 'm Writer \<Rightarrow> bool"
  for queue app where
  accept: "audit_Validate ev = Inr u \<Longrightarrow> \<not> wr_closed w \<Longrightarrow> length (wr_ch w) < queue \<Longrightarrow>
     Record queue e ev w = (r, w') \<Longrightarrow> writer_step queue app w [audit_row e ev (env_now e)] w'"
| refuse: "audit_Validate ev = Inl err \<or> wr_closed w \<or> queue \<le> length (wr_ch w) \<Longrightarrow>
     Record queue e ev w = (r, w') \<Longrightarrow> writer_step queue app w [] w'"
| flush: "writer_step queue app w [] (Flush w)"
| give_up: "wr_flushes w > 0 \<Longrightarrow> writer_step queue app w [] (w\<lparr>wr_flushes := wr_flushes w - 1\<rparr>)"
| receive: "wr_mode w = Waiting \<Longrightarrow> wr_ch w \<noteq> [] \<or> wr_closed w \<Longrightarrow> writer_step queue app w [] (run_receive app w)"
| meet: "wr_mode w = Waiting \<Longrightarrow> wr_flushes w > 0 \<Longrightarrow> writer_step queue app w [] (run_flush w)"
| turn: "wr_mode w = Flushing \<Longrightarrow> writer_step queue app w [] (run_drain app w)"
| close: "writer_step queue app w [] (Close w)"

text \<open>Runs, with the rows accepted in order.\<close>

inductive writer_run ::
  "nat \<Rightarrow> (AuditRow \<Rightarrow> ('m, unit) op) \<Rightarrow> 'm Writer \<Rightarrow> AuditRow list \<Rightarrow> 'm Writer \<Rightarrow> bool"
  for queue app where
  start: "writer_run queue app w [] w"
| more: "writer_run queue app w rows w1 \<Longrightarrow> writer_step queue app w1 new w2 \<Longrightarrow>
     writer_run queue app w (rows @ new) w2"

inductive_cases writer_stepE: "writer_step queue app w rows w'"

section \<open>The queue is first in, first out, and bounded\<close>

lemma writeRow_simps [simp]:
  "wr_ch (writeRow app r w) = wr_ch w" "wr_closed (writeRow app r w) = wr_closed w"
  "wr_dropped (writeRow app r w) = wr_dropped w" "wr_flushes (writeRow app r w) = wr_flushes w"
  "wr_mode (writeRow app r w) = wr_mode w" "wr_st (writeRow app r w) = snd (app r (wr_st w))"
  by (auto simp: writeRow_def split: prod.splits sum.splits)

text \<open>The store after the rows handed to it, in order; failed writes are lost rows.\<close>

definition hand_over :: "(AuditRow \<Rightarrow> ('m, unit) op) \<Rightarrow> AuditRow list \<Rightarrow> 'm \<Rightarrow> 'm" where
  "hand_over app rows m = fold (\<lambda>r m. snd (app r m)) rows m"

lemma hand_over_snoc: "hand_over app (xs @ [r]) m = snd (app r (hand_over app xs m))"
  by (simp add: hand_over_def)

lemma hand_over_zero: "snd (app AuditRow0 (hand_over app (xs @ replicate n AuditRow0) m)) =
    hand_over app (xs @ replicate (Suc n) AuditRow0) m"
  using hand_over_snoc [of app "xs @ replicate n AuditRow0" AuditRow0 m] by (simp only: append_assoc replicate_append_same replicate_Suc)

text \<open>The bookkeeping invariant: what was handed over is a prefix of what was accepted, and the
  queue holds the rest; zero rows follow only in the loop of a flush on a closed queue, which has
  then been emptied.\<close>

definition queued_after :: "(AuditRow \<Rightarrow> ('m, unit) op) \<Rightarrow> 'm \<Rightarrow> AuditRow list \<Rightarrow> 'm Writer \<Rightarrow> bool" where
  "queued_after app m0 rows w =
     (\<exists>handed zeros. rows = handed @ wr_ch w \<and> wr_st w = hand_over app (handed @ replicate zeros AuditRow0) m0 \<and>
        (zeros > 0 \<longrightarrow> wr_closed w \<and> wr_mode w = Flushing \<and> wr_ch w = []))"

lemma queued_zero: "queued_after app m0 rows w \<Longrightarrow> \<not> wr_closed w \<or> wr_mode w \<noteq> Flushing \<or> wr_ch w \<noteq> [] \<Longrightarrow>
    \<exists>handed. rows = handed @ wr_ch w \<and> wr_st w = hand_over app handed m0"
  unfolding queued_after_def by fastforce

lemma queued_cong: "queued_after app m0 rows w \<Longrightarrow> wr_ch w' = wr_ch w \<Longrightarrow> wr_st w' = wr_st w \<Longrightarrow>
    (wr_closed w \<longrightarrow> wr_closed w') \<Longrightarrow> wr_mode w' = wr_mode w \<Longrightarrow> queued_after app m0 rows w'"
  by (simp add: queued_after_def) blast

lemma queued_write:
  assumes "queued_after app m0 rows w" and "wr_ch w = r # rest"
  shows "queued_after app m0 rows (writeRow app r (w\<lparr>wr_ch := rest\<rparr>))"
proof -
  obtain handed where "rows = handed @ wr_ch w" "wr_st w = hand_over app handed m0"
    using queued_zero [OF assms(1)] assms(2) by auto
  then show ?thesis
    unfolding queued_after_def using assms(2)
    by (intro exI [of _ "handed @ [r]"] exI [of _ 0]) (simp add: hand_over_snoc)
qed

lemma queued_drain:
  assumes "queued_after app m0 rows w" and "wr_mode w = Flushing"
  shows "queued_after app m0 rows (run_drain app w)"
proof (cases "wr_ch w")
  case Nil
  obtain handed zeros where h: "rows = handed" "wr_st w = hand_over app (handed @ replicate zeros AuditRow0) m0"
      "zeros > 0 \<longrightarrow> wr_closed w"
    using assms(1) Nil unfolding queued_after_def by auto
  show ?thesis
  proof (cases "wr_closed w")
    case True
    then show ?thesis
      using h Nil assms(2) unfolding queued_after_def run_drain_def
      by (intro exI [of _ handed] exI [of _ "Suc zeros"]) (simp add: hand_over_zero del: replicate_Suc)
  next
    case False
    then show ?thesis
      using h Nil unfolding queued_after_def run_drain_def by auto
  qed
next
  case (Cons r rest)
  then show ?thesis
    using queued_write [OF assms(1) Cons] by (simp add: run_drain_def)
qed

lemma queued_receive:
  assumes "queued_after app m0 rows w" and "wr_mode w = Waiting"
  shows "queued_after app m0 rows (run_receive app w)"
proof (cases "wr_ch w")
  case Nil
  then show ?thesis
    using assms by (auto simp: run_receive_def queued_after_def)
next
  case (Cons r rest)
  then show ?thesis
    using queued_write [OF assms(1) Cons] by (simp add: run_receive_def)
qed

lemma queued_accept:
  assumes "queued_after app m0 rows w" and "\<not> wr_closed w"
  shows "queued_after app m0 (rows @ [r]) (w\<lparr>wr_ch := wr_ch w @ [r]\<rparr>)"
  using queued_zero [OF assms(1)] assms(2) unfolding queued_after_def by (auto intro: exI [of _ 0])

lemma queued_meet:
  assumes "queued_after app m0 rows w" and "wr_mode w = Waiting"
  shows "queued_after app m0 rows (w\<lparr>wr_mode := Flushing, wr_flushes := n\<rparr>)"
proof -
  obtain handed where "rows = handed @ wr_ch w" "wr_st w = hand_over app handed m0"
    using queued_zero [OF assms(1)] assms(2) by auto
  then show ?thesis
    unfolding queued_after_def by (intro exI [of _ handed] exI [of _ 0]) simp
qed

lemma run_ch:
  "length (wr_ch (run_drain app w)) \<le> length (wr_ch w)" "length (wr_ch (run_receive app w)) \<le> length (wr_ch w)"
  by (simp_all add: run_drain_def run_receive_def split: list.splits)

lemma writer_step_queued:
  assumes "writer_step queue app w new w'" and "queued_after app m0 rows w" and "length (wr_ch w) \<le> queue"
  shows "queued_after app m0 (rows @ new) w' \<and> length (wr_ch w') \<le> queue"
  using assms(1)
proof (cases rule: writer_step.cases)
  case (accept ev u e r)
  then show ?thesis
    using queued_accept [OF assms(2)] by (auto simp: Record_def)
next
  case (refuse ev err e r)
  then have "wr_ch w' = wr_ch w \<and> wr_st w' = wr_st w \<and> wr_closed w' = wr_closed w \<and> wr_mode w' = wr_mode w"
    by (auto simp: Record_def split: sum.splits if_splits)
  then show ?thesis
    using refuse(1) queued_cong [OF assms(2), of w'] assms(3) by simp
next
  case receive
  then show ?thesis
    using queued_receive [OF assms(2)] run_ch(2) [of app w] assms(3) by simp
next
  case turn
  then show ?thesis
    using queued_drain [OF assms(2)] run_ch(1) [of app w] assms(3) by simp
next
  case meet
  then show ?thesis
    using queued_meet [OF assms(2)] assms(3) by (simp add: run_flush_def)
qed (use assms(3) queued_cong [OF assms(2)] in \<open>simp_all add: Flush_def Close_def\<close>)

lemma writer_run_queued:
  assumes "writer_run queue app (newWriter m0) rows w"
  shows "queued_after app m0 rows w \<and> length (wr_ch w) \<le> queue"
  using assms
proof (induction "newWriter m0" rows w rule: writer_run.induct)
  case start
  then show ?case
    by (simp add: queued_after_def newWriter_def hand_over_def)
next
  case (more rows w1 new w2)
  then show ?case
    by (intro writer_step_queued [of queue app w1 new w2 m0 rows]) simp_all
qed

lemma writer_run_trans:
  assumes "writer_run queue app w1 rows' w2" and "writer_run queue app w rows w1"
  shows "writer_run queue app w (rows @ rows') w2"
  using assms
  by (induction rule: writer_run.induct) (auto intro: writer_run.more simp flip: append_assoc)

section \<open>A working store receives everything\<close>

context audit_sink
begin

lemma hand_over_log:
  assumes "able m"
  shows "log (hand_over app rows m) = log m @ map img rows \<and> able (hand_over app rows m)"
  using assms
proof (induction rows arbitrary: m)
  case (Cons r rows)
  obtain m' where "app r m = (Inr (), m')" "able m'"
    using append_able [OF Cons.prems] by blast
  then show ?case
    using Cons.IH [of m'] append_stored [of r m "()" m'] by (simp add: hand_over_def)
qed (simp add: hand_over_def)

lemma emptied_log:
  assumes "queued_after app m0 rows w" and "able m0" and "wr_ch w = []" and "wr_mode w \<noteq> Flushing"
  shows "log (wr_st w) = log m0 @ map img rows"
  using queued_zero [OF assms(1)] hand_over_log [OF assms(2)] assms(3,4) by auto

end

section \<open>Closing\<close>

text \<open>A closed writer that no flush concerns, and the work its goroutine still has.\<close>

definition closing :: "'m Writer \<Rightarrow> bool" where
  "closing w = (wr_closed w \<and> wr_flushes w = 0 \<and> wr_mode w \<noteq> Flushing \<and> (wr_mode w = Stopped \<longrightarrow> wr_ch w = []))"

definition work :: "'m Writer \<Rightarrow> nat" where
  "work w = length (wr_ch w) + (if wr_mode w = Stopped then 0 else 1)"

lemma closing_step:
  assumes "writer_step queue app w new w'" and "closing w"
  shows "new = [] \<and> closing w' \<and> work w' \<le> work w"
  using assms
  by (cases rule: writer_step.cases)
    (auto simp: closing_def work_def Record_def Flush_def Close_def run_receive_def split: sum.splits list.splits)

lemma closing_run:
  assumes "writer_run queue app w rows w'" and "closing w"
  shows "rows = [] \<and> closing w' \<and> work w' \<le> work w"
  using assms
proof (induction rule: writer_run.induct)
  case (more w rows w1 new w2)
  then show ?case
    using closing_step [of queue app w1 new w2] by auto
qed simp

lemma closing_progress:
  assumes "closing w" and "work w > 0"
  shows "\<exists>w'. writer_step queue app w [] w' \<and> work w' < work w"
proof -
  have waiting: "wr_mode w = Waiting"
    using assms by (cases "wr_mode w") (auto simp: closing_def work_def)
  then have "work (run_receive app w) < work w"
    using assms by (auto simp: closing_def work_def run_receive_def split: list.splits)
  then show ?thesis
    using writer_step.receive [OF waiting] assms(1) closing_def by blast
qed

lemma closing_finishes:
  assumes "closing w"
  shows "\<exists>w'. writer_run queue app w [] w' \<and> wr_mode w' = Stopped"
  using assms
proof (induction "work w" arbitrary: w rule: less_induct)
  case less
  show ?case
  proof (cases "work w > 0")
    case True
    obtain w1 where w1: "writer_step queue app w [] w1" "work w1 < work w"
      using closing_progress [OF less.prems True] by blast
    obtain w' where "writer_run queue app w1 [] w'" "wr_mode w' = Stopped"
      using less.hyps [OF w1(2)] closing_step [OF w1(1) less.prems] by blast
    then show ?thesis
      using writer_run_trans [OF _ writer_run.more [OF writer_run.start w1(1)]] by fastforce
  qed (use writer_run.start in \<open>fastforce simp: work_def split: if_splits\<close>)
qed

section \<open>A flush overtaken by the closing\<close>

lemma stuck_step:
  assumes "writer_step queue app w new w'" and "wr_closed w" and "wr_mode w = Flushing"
  shows "wr_closed w' \<and> wr_mode w' = Flushing"
  using assms
  by (cases rule: writer_step.cases)
    (auto simp: Record_def Flush_def Close_def run_drain_def split: sum.splits list.splits)

lemma stuck_run:
  assumes "writer_run queue app w new w'" and "wr_closed w" and "wr_mode w = Flushing"
  shows "wr_closed w' \<and> wr_mode w' = Flushing"
  using assms by (induction rule: writer_run.induct) (auto dest: stuck_step)

lemma zero_rows:
  assumes "wr_closed w" and "wr_mode w = Flushing" and "wr_ch w = []"
  shows "\<exists>w'. writer_run queue app w [] w' \<and> wr_st w' = hand_over app (replicate n AuditRow0) (wr_st w) \<and>
    wr_closed w' \<and> wr_mode w' = Flushing \<and> wr_ch w' = []"
proof (induction n)
  case 0
  then show ?case
    using assms writer_run.start by (fastforce simp: hand_over_def)
next
  case (Suc n)
  then obtain w' where w': "writer_run queue app w [] w'" "wr_st w' = hand_over app (replicate n AuditRow0) (wr_st w)"
      "wr_closed w'" "wr_mode w' = Flushing" "wr_ch w' = []"
    by blast
  have "writer_run queue app w ([] @ []) (run_drain app w')"
    by (intro writer_run.more [OF w'(1)] writer_step.turn w'(4))
  moreover have "wr_st (run_drain app w') = hand_over app (replicate (Suc n) AuditRow0) (wr_st w)"
    using w' hand_over_zero [of app "[]" n "wr_st w"] by (simp add: run_drain_def del: replicate_Suc)
  moreover have "wr_closed (run_drain app w') \<and> wr_mode (run_drain app w') = Flushing \<and> wr_ch (run_drain app w') = []"
    using w' by (simp add: run_drain_def)
  ultimately show ?case
    by auto
qed

section \<open>Properties\<close>

text \<open>C19. The audit queue neither loses, duplicates nor reorders what it accepted: in every
  interleaving of recording, flushing, closing and writing, the rows handed to the store followed
  by the rows still queued are exactly the accepted rows in order, and the queue never exceeds its
  capacity. The only other rows the store is handed are zero rows, written by a flush that the
  closing of the queue overtook.\<close>

theorem writer_fifo:
  assumes "writer_run queue app (newWriter m0) rows w"
  shows "(\<exists>handed zeros. rows = handed @ wr_ch w \<and> wr_st w = hand_over app (handed @ replicate zeros AuditRow0) m0 \<and>
      (zeros > 0 \<longrightarrow> wr_closed w \<and> wr_mode w = Flushing \<and> wr_ch w = [])) \<and> length (wr_ch w) \<le> queue"
  using writer_run_queued [OF assms] by (simp add: queued_after_def)

definition example_event :: AuditEvent where
  "example_event = \<lparr>ae_TenantID = ''t'', ae_EventType = ''subnet_created'', ae_ActorKind = ''user'',
     ae_ActorID = ''u'', ae_SubjectKind = ''subnet'', ae_SubjectID = ''net'', ae_Target = [],
     ae_Outcome = ''ok'', ae_Reason = [], ae_Details = []\<rparr>"

lemma example_event_accepted:
  "writer_step 2 (AppendAudit env0) (newWriter New) [audit_row env0 example_event 5]
     (snd (Record 2 env0 example_event (newWriter New)))"
proof -
  have "audit_Validate example_event = Inr ()"
    by code_simp
  moreover have "env_now env0 = 5"
    by (simp add: env0_def)
  ultimately show ?thesis
    using writer_step.accept [of example_event "()" "newWriter New" 2 env0] by (auto simp: newWriter_def prod_eq_iff)
qed

theorem writer_fifo_witness:
  "\<exists>handed w. writer_run 2 (AppendAudit env0) (newWriter New) [audit_row env0 example_event 5] w \<and>
     [audit_row env0 example_event 5] = handed @ wr_ch w \<and> length (wr_ch w) \<le> 2"
proof -
  have "writer_run 2 (AppendAudit env0) (newWriter New) ([] @ [audit_row env0 example_event 5])
      (snd (Record 2 env0 example_event (newWriter New)))"
    by (rule writer_run.more [OF writer_run.start example_event_accepted])
  then show ?thesis
    using writer_fifo by fastforce
qed

text \<open>C20. Closing the writer does not lose a row. From a reachable state that no flush concerns, closing
  leads in every interleaving only to states in which nothing more is accepted, the work of the
  goroutine does not grow, some step shrinks it until the goroutine has stopped, and once it has
  stopped the queue is empty and a store whose writes succeed holds every accepted row exactly
  once and in order; and it can stop.\<close>

theorem writer_close_complete:
  assumes "writer_run queue (AppendAudit e) (newWriter m0) rows w" and "''AppendAudit'' \<notin> set (m_failNext m0)"
    and "wr_mode w = Waiting" and "wr_flushes w = 0"
  shows "(\<exists>w'. writer_run queue (AppendAudit e) (Close w) [] w' \<and> wr_mode w' = Stopped) \<and>
    (\<forall>new w'. writer_run queue (AppendAudit e) (Close w) new w' \<longrightarrow> new = [] \<and> work w' \<le> work (Close w) \<and>
      (if wr_mode w' = Stopped
       then wr_ch w' = [] \<and> map audit_core (m_audit (wr_st w')) = map audit_core (m_audit m0 @ rows)
       else \<exists>w''. writer_step queue (AppendAudit e) w' [] w'' \<and> work w'' < work w'))"
proof -
  have closing: "closing (Close w)"
    using assms(3,4) by (simp add: closing_def Close_def)
  have stored: "map audit_core (m_audit (wr_st w')) = map audit_core (m_audit m0 @ rows)"
    if "writer_run queue (AppendAudit e) (Close w) [] w'" "wr_ch w' = []" "wr_mode w' = Stopped" for w'
  proof -
    have "writer_run queue (AppendAudit e) (newWriter m0) (rows @ []) (Close w)"
      by (rule writer_run.more [OF assms(1) writer_step.close])
    then have "queued_after (AppendAudit e) m0 rows w'"
      using writer_run_queued [OF writer_run_trans [OF that(1)]] by simp
    then show ?thesis
      using mem_audit.emptied_log [of e m0 rows w'] that(2,3) assms(2) by (simp add: audit_able_def)
  qed
  show ?thesis
    using closing_finishes [OF closing] closing_run [OF _ closing] closing_progress stored
    by (fastforce simp: closing_def work_def)
qed

theorem writer_close_complete_witness:
  "\<exists>w'. writer_run 2 (AppendAudit env0) (Close (snd (Record 2 env0 example_event (newWriter New)))) [] w' \<and>
     map audit_core (m_audit (wr_st w')) = [audit_core (audit_row env0 example_event 5)]"
proof -
  let ?w = "snd (Record 2 env0 example_event (newWriter New))"
  have run: "writer_run 2 (AppendAudit env0) (newWriter New) ([] @ [audit_row env0 example_event 5]) ?w"
    by (rule writer_run.more [OF writer_run.start example_event_accepted])
  have "wr_mode ?w = Waiting" "wr_flushes ?w = 0"
    by code_simp+
  then show ?thesis
    using writer_close_complete [OF run] by (fastforce simp: New_def)
qed

text \<open>C36. A flush that the closing of the writer overtakes never ends: after its request met the
  goroutine and the queue was closed, every continuation leaves the goroutine in the loop of the
  flush, so it never stops, and the loop hands zero rows to the store without bound.\<close>

theorem writer_flush_overtaken:
  "\<exists>w. writer_run queue app (newWriter m0) [] w \<and> wr_closed w \<and>
     (\<forall>new w'. writer_run queue app w new w' \<longrightarrow> wr_mode w' = Flushing) \<and>
     (\<forall>n. \<exists>w'. writer_run queue app w [] w' \<and> wr_st w' = hand_over app (replicate n AuditRow0) m0)"
proof -
  let ?w = "Close (run_flush (Flush (newWriter m0)))"
  have w: "wr_closed ?w" "wr_mode ?w = Flushing" "wr_ch ?w = []" "wr_st ?w = m0"
    by (simp_all add: Close_def run_flush_def Flush_def newWriter_def)
  have "writer_step queue app (newWriter m0) [] (Flush (newWriter m0))"
    by (rule writer_step.flush)
  moreover have "writer_step queue app (Flush (newWriter m0)) [] (run_flush (Flush (newWriter m0)))"
    by (rule writer_step.meet) (simp_all add: Flush_def newWriter_def)
  moreover have "writer_step queue app (run_flush (Flush (newWriter m0))) [] ?w"
    by (rule writer_step.close)
  ultimately have "writer_run queue app (newWriter m0) ((([] @ []) @ []) @ []) ?w"
    by (rule writer_run.more [OF writer_run.more [OF writer_run.more [OF writer_run.start]]])
  moreover have "wr_mode w' = Flushing" if "writer_run queue app ?w new w'" for new w'
    using stuck_run [OF that] w by simp
  moreover have "\<exists>w'. writer_run queue app ?w [] w' \<and> wr_st w' = hand_over app (replicate n AuditRow0) m0" for n
    using zero_rows [OF w(1-3), of queue app n] unfolding w(4) by blast
  ultimately show ?thesis
    using w(1) by auto
qed

theorem writer_flush_overtaken_witness:
  "\<exists>w w'. writer_run 2 (AppendAudit env0) (newWriter New) [] w \<and> writer_run 2 (AppendAudit env0) w [] w' \<and>
     wr_st w' = hand_over (AppendAudit env0) (replicate 3 AuditRow0) New \<and> wr_mode w' = Flushing"
  using writer_flush_overtaken [of 2 "AppendAudit env0" New] by blast

end
