(* ===== verification/Sealed.thy ===== *)
theory Sealed
  imports Models
begin

text \<open>
  \<open>internal/sealed/sealed.go\<close>: the envelope that seals credentials, the associated data it
  binds them to, and the settings helpers that keep credential fields out of responses. AES-256-GCM
  and the random source are parameters: an AEAD is a pair of functions of key, nonce, text and
  associated data, and \<open>Seal\<close> takes the data key and the nonces it draws. The JSON encoding of
  settings and the loading of the key from a file or the environment are not modelled.
\<close>

definition Marker :: string where
  "Marker = ''__set__''"

definition MaxSettingsBytes :: nat where
  "MaxSettingsBytes = 8192"

section \<open>The envelope\<close>

record AEAD =
  aead_Seal :: "byte list \<Rightarrow> byte list \<Rightarrow> byte list \<Rightarrow> byte list \<Rightarrow> byte list"
  aead_Open :: "byte list \<Rightarrow> byte list \<Rightarrow> byte list \<Rightarrow> byte list \<Rightarrow> byte list option"

definition NonceSize :: nat where
  "NonceSize = 12"

definition Overhead :: nat where
  "Overhead = 16"

definition NewEnvelope :: "byte list \<Rightarrow> byte list res" where
  "NewEnvelope kek = (if length kek \<noteq> 32 then Inl (OtherErr ''sealed: KEK must be 32 bytes'') else Inr kek)"

definition Envelope_Seal ::
  "AEAD \<Rightarrow> byte list \<Rightarrow> byte list \<Rightarrow> byte list \<Rightarrow> byte list \<Rightarrow> byte list \<Rightarrow> byte list \<Rightarrow> byte list res" where
  "Envelope_Seal g kek dek n1 n2 plaintext ad =
     (if length plaintext > MaxSettingsBytes then Inl (OtherErr ''sealed: settings exceed 8 KiB'')
      else Inr (n1 @ aead_Seal g kek n1 dek ad @ n2 @ aead_Seal g dek n2 plaintext ad))"

definition Envelope_Open :: "AEAD \<Rightarrow> byte list \<Rightarrow> byte list \<Rightarrow> byte list \<Rightarrow> byte list res" where
  "Envelope_Open g kek blob ad =
     (let ns = NonceSize; wrapLen = 32 + Overhead in
      if length blob < ns + wrapLen + ns + 16 then Inl (OtherErr ''sealed: ciphertext rejected'')
      else case aead_Open g kek (take ns blob) (take wrapLen (drop ns blob)) ad of
          None \<Rightarrow> Inl (OtherErr ''sealed: ciphertext rejected'')
        | Some dek \<Rightarrow> (case aead_Open g dek (take ns (drop (ns + wrapLen) blob)) (drop ns (drop (ns + wrapLen) blob)) ad of
              None \<Rightarrow> Inl (OtherErr ''sealed: ciphertext rejected'')
            | Some pt \<Rightarrow> Inr pt))"

definition ADCA :: "string \<Rightarrow> string" where
  "ADCA i = ''ca:'' @ i"

definition ADIssuer :: "string \<Rightarrow> string" where
  "ADIssuer i = ''issuer:'' @ i"

definition ADSecret :: "string \<Rightarrow> string" where
  "ADSecret i = ''secret:'' @ i"

definition ADWebhook :: "string \<Rightarrow> string" where
  "ADWebhook i = ''webhook:'' @ i"

definition ADCertKey :: "string \<Rightarrow> string" where
  "ADCertKey i = ''certkey:'' @ i"

definition ADTarget :: "string \<Rightarrow> string" where
  "ADTarget i = ''target:'' @ i"

definition ADConfig :: "string \<Rightarrow> string" where
  "ADConfig i = ''config:'' @ i"

definition ADSNMP :: "string \<Rightarrow> string \<Rightarrow> string" where
  "ADSNMP tenantID subnetID = ''snmp:'' @ tenantID @ '':'' @ subnetID"

section \<open>Settings\<close>

text \<open>The string of a value, empty for every other kind (\<open>str, _ := v.(string)\<close>).\<close>

definition str_of :: "any \<Rightarrow> string" where
  "str_of v = (case v of AnyStr s \<Rightarrow> s | _ \<Rightarrow> [])"

definition redact_field :: "string \<Rightarrow> any tbl \<Rightarrow> any tbl" where
  "redact_field f out = (case tget out f of
       None \<Rightarrow> out
     | Some v \<Rightarrow> if str_of v \<noteq> [] then tput f (AnyStr Marker) out else tdel f out)"

definition Redact :: "any tbl \<Rightarrow> string list \<Rightarrow> any tbl" where
  "Redact s secretFields = fold redact_field secretFields s"

definition Public :: "any tbl \<Rightarrow> string list \<Rightarrow> any tbl" where
  "Public s secretFields = fold tdel secretFields s"

definition merge_field :: "any tbl \<Rightarrow> any tbl \<Rightarrow> string \<Rightarrow> any tbl \<Rightarrow> any tbl" where
  "merge_field stored incoming f out =
     (if tget incoming f = None \<or> (\<exists>v \<in> set_option (tget incoming f). str_of v = Marker) then
        (case tget stored f of Some old \<Rightarrow> tput f old out | None \<Rightarrow> tdel f out)
      else if (\<exists>v \<in> set_option (tget incoming f). str_of v = []) then tdel f out
      else out)"

definition Merge :: "any tbl \<Rightarrow> any tbl \<Rightarrow> string list \<Rightarrow> any tbl" where
  "Merge stored incoming secretFields = fold (merge_field stored incoming) secretFields incoming"

section \<open>Scrubbing\<close>









section \<open>Properties\<close>

text \<open>C24. What the envelope seals it opens again with the same key and associated data: the layout of
  nonce, wrapped data key, nonce and ciphertext written by Seal is the one Open cuts apart.\<close>

theorem Envelope_roundtrip:
  assumes inverse: "\<And>k n p a. aead_Open g k n (aead_Seal g k n p a) a = Some p"
    and overhead: "\<And>k n p a. length (aead_Seal g k n p a) = length p + Overhead"
    and lengths: "length dek = 32" "length n1 = NonceSize" "length n2 = NonceSize"
    and sealed: "Envelope_Seal g kek dek n1 n2 plaintext ad = Inr blob"
  shows "Envelope_Open g kek blob ad = Inr plaintext \<and>
    length blob = 2 * NonceSize + 32 + 2 * Overhead + length plaintext"
proof -
  have blob: "blob = n1 @ aead_Seal g kek n1 dek ad @ n2 @ aead_Seal g dek n2 plaintext ad"
    using sealed by (auto simp: Envelope_Seal_def split: if_splits)
  have len: "length (aead_Seal g kek n1 dek ad) = 32 + Overhead"
    using overhead lengths by simp
  have parts: "take NonceSize blob = n1" "take (32 + Overhead) (drop NonceSize blob) = aead_Seal g kek n1 dek ad"
    "drop (NonceSize + (32 + Overhead)) blob = n2 @ aead_Seal g dek n2 plaintext ad"
    using len lengths by (simp_all add: blob)
  have size: "length blob = 2 * NonceSize + 32 + 2 * Overhead + length plaintext"
    using overhead lengths by (simp add: blob)
  then show ?thesis
    unfolding Envelope_Open_def Let_def parts using inverse lengths by (simp add: Overhead_def)
qed

text \<open>A toy AEAD, for an instance of the law: the text followed by sixteen zero bytes.\<close>

definition toy_aead :: AEAD where
  "toy_aead = \<lparr>aead_Seal = (\<lambda>k n p a. p @ replicate 16 0),
     aead_Open = (\<lambda>k n c a. Some (take (length c - 16) c))\<rparr>"

theorem Envelope_roundtrip_witness:
  "Envelope_Open toy_aead [] (replicate 12 1 @ (replicate 32 7 @ replicate 16 0) @ replicate 12 2 @
      ([42] @ replicate 16 0)) [] = Inr [42]"
  using Envelope_roundtrip [of toy_aead "replicate 32 7" "replicate 12 1" "replicate 12 2" "[]" "[42]" "[]"]
  by (simp add: toy_aead_def Overhead_def NonceSize_def Envelope_Seal_def MaxSettingsBytes_def)

text \<open>The associated data of a subnet's credentials identifies the subnet: for tenant identifiers
  without a colon, two subnets with the same associated data are the same subnet of the same
  tenant, and no other kind of secret has it.\<close>

theorem ADSNMP_binds:
  assumes "CHR '':'' \<notin> set t" and "CHR '':'' \<notin> set t'"
  shows "(ADSNMP t s = ADSNMP t' s' \<longleftrightarrow> t = t' \<and> s = s') \<and>
    ADSNMP t s \<notin> {ADCA i, ADIssuer i, ADSecret i, ADWebhook i, ADCertKey i, ADTarget i, ADConfig i}"
proof -
  have inj: "t = t' \<and> s = s'" if eq: "t @ CHR '':'' # s = t' @ CHR '':'' # s'"
  proof -
    have "(t, s, True) = cut_at CHR '':'' (t @ CHR '':'' # s)"
      by (rule sym, rule cut_at_append [OF assms(1)])
    also have "\<dots> = (t', s', True)"
      unfolding eq by (rule cut_at_append [OF assms(2)])
    finally show ?thesis
      by simp
  qed
  have "ADSNMP t s = ADSNMP t' s' \<longleftrightarrow> t @ CHR '':'' # s = t' @ CHR '':'' # s'"
    unfolding ADSNMP_def same_append_eq by simp
  then have "ADSNMP t s = ADSNMP t' s' \<longleftrightarrow> t = t' \<and> s = s'"
    using inj by blast
  then show ?thesis
    by (simp add: ADSNMP_def ADCA_def ADIssuer_def ADSecret_def ADWebhook_def ADCertKey_def ADTarget_def
        ADConfig_def)
qed

theorem ADSNMP_binds_witness: "ADSNMP ''t1'' ''s'' \<noteq> ADSNMP ''t2'' ''s''"
  using ADSNMP_binds [of "''t1''" "''t2''" "''s''" "''s''"] by simp

text \<open>What a client sees of a credential value.\<close>

definition mark :: "any \<Rightarrow> any option" where
  "mark v = (if str_of v \<noteq> [] then Some (AnyStr Marker) else None)"

lemma str_of_Marker [simp]: "str_of (AnyStr Marker) = Marker" "Marker \<noteq> []"
  by (simp_all add: str_of_def Marker_def)

lemma mark_Some: "mark v = Some x \<Longrightarrow> x = AnyStr Marker"
  by (simp add: mark_def split: if_splits)

lemma tget_redact_field:
  "tget (redact_field f out) k = (if k = f then Option.bind (tget out f) mark else tget out k)"
  by (auto simp: redact_field_def mark_def split: option.splits)

lemma mark_twice: "Option.bind (mark v) mark = mark v"
  by (simp add: mark_def)

lemma tget_Redact: "tget (Redact s F) k = (if k \<in> set F then Option.bind (tget s k) mark else tget s k)"
  unfolding Redact_def
proof (induction F arbitrary: s)
  case (Cons f F)
  then show ?case
    by (cases "k = f") (simp_all add: tget_redact_field mark_twice)
qed simp

lemma merge_field_kept:
  assumes "\<And>v. tget incoming f = Some v \<Longrightarrow> v = AnyStr Marker"
  shows "tget (merge_field stored incoming f out) k = (if k = f then tget stored f else tget out k)"
  using assms by (cases "tget incoming f") (auto simp: merge_field_def split: option.splits)

lemma tget_merge_fields:
  assumes "\<forall>f \<in> set F. \<forall>v. tget incoming f = Some v \<longrightarrow> v = AnyStr Marker"
  shows "tget (fold (merge_field stored incoming) F out) k = (if k \<in> set F then tget stored k else tget out k)"
  using assms
proof (induction F arbitrary: out)
  case (Cons f F)
  have "tget (merge_field stored incoming f out) k = (if k = f then tget stored f else tget out k)"
    using Cons.prems by (intro merge_field_kept) simp
  then show ?case
    using Cons by (cases "k = f") simp_all
qed simp

text \<open>C25. A client that reads settings and sends them back changes nothing: merging the redacted
  settings into the stored ones gives the stored ones, and no credential value is in what the
  client saw.\<close>

theorem Merge_Redact_roundtrip:
  "tget (Merge stored (Redact stored F) F) k = tget stored k \<and>
   (k \<in> set F \<longrightarrow> tget (Redact stored F) k \<in> {None, Some (AnyStr Marker)})"
proof -
  have "\<forall>f \<in> set F. \<forall>v. tget (Redact stored F) f = Some v \<longrightarrow> v = AnyStr Marker"
    by (auto simp: tget_Redact bind_eq_Some_conv dest: mark_Some)
  from tget_merge_fields [OF this] show ?thesis
    by (cases "tget stored k") (simp_all add: Merge_def tget_Redact mark_def)
qed

theorem Merge_Redact_roundtrip_witness:
  "tget (Redact [(''password'', AnyStr ''s3cret''), (''host'', AnyStr ''h'')] [''password'']) ''password'' =
     Some (AnyStr Marker)"
proof -
  have "tget (Redact [(''password'', AnyStr ''s3cret''), (''host'', AnyStr ''h'')] [''password'']) ''password'' \<noteq> None"
    by code_simp
  then show ?thesis
    using Merge_Redact_roundtrip [of "[(''password'', AnyStr ''s3cret''), (''host'', AnyStr ''h'')]" "[''password'']"
        "''password''"] by auto
qed








end
