(* ===== verification/Snmpcred.thy ===== *)
theory Snmpcred
  imports Models
begin

text \<open>
  \<open>internal/snmpcred\<close>: the rules for subnet SNMP credentials: validation of the input, the split
  into metadata and secret values, the inheritance walk and the index over one tenant's subnets.
  Sealing itself is \<open>Sealed\<close>; the JSON document in between is not modelled. The lemmas show that
  the walk finds the nearest ancestor with credentials.
\<close>

definition MaxValueLen :: nat where
  "MaxValueLen = 256"

definition MinPasswordLen :: nat where
  "MinPasswordLen = 8"

definition MaxDepth :: nat where
  "MaxDepth = 64"

abbreviation LevelAuthNoPriv :: string where
  "LevelAuthNoPriv \<equiv> ''authNoPriv''"

abbreviation LevelAuthPriv :: string where
  "LevelAuthPriv \<equiv> ''authPriv''"

definition authProtocols :: "string list" where
  "authProtocols = [''MD5'', ''SHA'', ''SHA224'', ''SHA256'', ''SHA384'', ''SHA512'']"

definition privProtocols :: "string list" where
  "privProtocols = [''DES'', ''AES'', ''AES192'', ''AES256'', ''AES192C'', ''AES256C'']"

definition snmp_contains :: "string list \<Rightarrow> string \<Rightarrow> bool" where
  "snmp_contains xs v = list_ex (\<lambda>s. s = v) xs"

definition validAuth :: "string \<Rightarrow> bool" where
  "validAuth p = snmp_contains authProtocols p"

definition validPriv :: "string \<Rightarrow> bool" where
  "validPriv p = snmp_contains privProtocols p"

definition Weak :: "string \<Rightarrow> bool" where
  "Weak protocol = snmp_contains [''MD5'', ''SHA'', ''DES''] protocol"

record Meta =
  mt_Version :: int
  mt_SecurityLevel :: string
  mt_AuthProtocol :: string
  mt_PrivProtocol :: string

definition Meta_Weak :: "Meta \<Rightarrow> bool" where
  "Meta_Weak m = (Weak (mt_AuthProtocol m) \<or> Weak (mt_PrivProtocol m))"

record Secret =
  se_Community :: string
  se_User :: string
  se_AuthPassword :: string
  se_PrivPassword :: string

record SnmpInput =
  si_Version :: int
  si_Community :: string
  si_User :: string
  si_SecurityLevel :: string
  si_AuthProtocol :: string
  si_AuthPassword :: string
  si_PrivProtocol :: string
  si_PrivPassword :: string

record Creds =
  cr_Version :: int
  cr_Community :: string
  cr_User :: string
  cr_SecurityLevel :: string
  cr_AuthProtocol :: string
  cr_AuthPassword :: string
  cr_PrivProtocol :: string
  cr_PrivPassword :: string
  cr_TimeoutMs :: int
  cr_Retries :: int
  cr_CollectARP :: bool

section \<open>Validation\<close>

definition snmp_value :: "string \<Rightarrow> string \<Rightarrow> nat \<Rightarrow> unit res" where
  "snmp_value field v minLen =
     (if RuneCount v = 0 then Inl (SnmpFieldError field ''required'')
      else if RuneCount v < minLen then Inl (SnmpFieldError field ''too short'')
      else if RuneCount v > MaxValueLen then Inl (SnmpFieldError field ''too long'')
      else Inr ())"

fun first_set :: "(string \<times> string) list \<Rightarrow> string option" where
  "first_set [] = None"
| "first_set ((name, v) # fs) = (if v \<noteq> [] then Some name else first_set fs)"

definition validateV3 :: "SnmpInput \<Rightarrow> unit res" where
  "validateV3 i =
     (if si_Community i \<noteq> [] then Inl (SnmpFieldError ''community'' ''not allowed for SNMP v3'')
      else case snmp_value ''user'' (si_User i) 1 of Inl err \<Rightarrow> Inl err | Inr _ \<Rightarrow>
      if si_SecurityLevel i \<noteq> LevelAuthNoPriv \<and> si_SecurityLevel i \<noteq> LevelAuthPriv
      then Inl (SnmpFieldError ''security_level'' ''must be authNoPriv or authPriv'')
      else if \<not> validAuth (si_AuthProtocol i) then Inl (SnmpFieldError ''auth_protocol'' ''unsupported protocol'')
      else case snmp_value ''auth_password'' (si_AuthPassword i) MinPasswordLen of Inl err \<Rightarrow> Inl err | Inr _ \<Rightarrow>
      if si_SecurityLevel i = LevelAuthNoPriv then
        (if si_PrivProtocol i \<noteq> [] then Inl (SnmpFieldError ''priv_protocol'' ''not allowed for authNoPriv'')
         else if si_PrivPassword i \<noteq> [] then Inl (SnmpFieldError ''priv_password'' ''not allowed for authNoPriv'')
         else Inr ())
      else if \<not> validPriv (si_PrivProtocol i) then Inl (SnmpFieldError ''priv_protocol'' ''unsupported protocol'')
      else snmp_value ''priv_password'' (si_PrivPassword i) MinPasswordLen)"

definition snmp_Validate :: "SnmpInput \<Rightarrow> unit res" where
  "snmp_Validate i =
     (if si_Version i = 2 then
        (case snmp_value ''community'' (si_Community i) 1 of Inl err \<Rightarrow> Inl err | Inr _ \<Rightarrow>
         case first_set [(''user'', si_User i), (''security_level'', si_SecurityLevel i),
             (''auth_protocol'', si_AuthProtocol i), (''auth_password'', si_AuthPassword i),
             (''priv_protocol'', si_PrivProtocol i), (''priv_password'', si_PrivPassword i)] of
           Some f \<Rightarrow> Inl (SnmpFieldError f ''not allowed for SNMP v2c'')
         | None \<Rightarrow> Inr ())
      else if si_Version i = 3 then validateV3 i
      else Inl (SnmpFieldError ''version'' ''must be 2 or 3''))"

definition Input_Meta :: "SnmpInput \<Rightarrow> Meta" where
  "Input_Meta i =
     (if si_Version i \<noteq> 3
      then \<lparr>mt_Version = si_Version i, mt_SecurityLevel = [], mt_AuthProtocol = [], mt_PrivProtocol = []\<rparr>
      else \<lparr>mt_Version = 3, mt_SecurityLevel = si_SecurityLevel i, mt_AuthProtocol = si_AuthProtocol i,
             mt_PrivProtocol = si_PrivProtocol i\<rparr>)"

definition secretOf :: "SnmpInput \<Rightarrow> Secret" where
  "secretOf i = \<lparr>se_Community = si_Community i, se_User = si_User i, se_AuthPassword = si_AuthPassword i,
     se_PrivPassword = si_PrivPassword i\<rparr>"

definition ToCreds :: "Meta \<Rightarrow> Secret \<Rightarrow> int \<Rightarrow> int \<Rightarrow> Creds" where
  "ToCreds m s timeoutMs retries =
     (let c = \<lparr>cr_Version = mt_Version m, cr_Community = [], cr_User = [], cr_SecurityLevel = [],
        cr_AuthProtocol = [], cr_AuthPassword = [], cr_PrivProtocol = [], cr_PrivPassword = [],
        cr_TimeoutMs = timeoutMs, cr_Retries = retries, cr_CollectARP = False\<rparr> in
      if mt_Version m \<noteq> 3 then c\<lparr>cr_Community := se_Community s\<rparr>
      else
        (let c3 = c\<lparr>cr_User := se_User s, cr_SecurityLevel := mt_SecurityLevel m,
            cr_AuthProtocol := mt_AuthProtocol m, cr_AuthPassword := se_AuthPassword s\<rparr> in
         if mt_SecurityLevel m = LevelAuthPriv
         then c3\<lparr>cr_PrivProtocol := mt_PrivProtocol m, cr_PrivPassword := se_PrivPassword s\<rparr>
         else c3))"

section \<open>Inheritance\<close>

text \<open>The walk of \<open>Resolve\<close>, with the number of steps left.\<close>

fun resolve_loop :: "string tbl \<Rightarrow> bool tbl \<Rightarrow> nat \<Rightarrow> string list \<Rightarrow> string \<Rightarrow> string option" where
  "resolve_loop parents own 0 seen i = None"
| "resolve_loop parents own (Suc left) seen i =
     (if i = [] \<or> i \<in> set seen then None
      else case tget parents i of
          None \<Rightarrow> None
        | Some parent \<Rightarrow>
            if tget own i = Some True then Some i
            else resolve_loop parents own left (i # seen) parent)"

definition Resolve :: "string \<Rightarrow> string tbl \<Rightarrow> bool tbl \<Rightarrow> string option" where
  "Resolve subnetID parents own = resolve_loop parents own (Suc MaxDepth) [] subnetID"

record Index =
  ix_subnets :: "Subnet tbl"
  ix_parents :: "string tbl"
  ix_own :: "bool tbl"
  ix_rows :: "SubnetSNMP tbl"

definition NewIndex :: "Subnet list \<Rightarrow> SubnetSNMP list \<Rightarrow> Index" where
  "NewIndex subnets rows =
     \<lparr>ix_subnets = fold (\<lambda>s. tput (sn_ID s) s) subnets [],
      ix_parents = fold (\<lambda>s. tput (sn_ID s) (sn_ParentID s)) subnets [],
      ix_own = fold (\<lambda>r. tput (sc_SubnetID r) True) rows [],
      ix_rows = fold (\<lambda>r. tput (sc_SubnetID r) (r\<lparr>sc_Sealed := []\<rparr>)) rows []\<rparr>"

definition Own :: "Index \<Rightarrow> string \<Rightarrow> SubnetSNMP option" where
  "Own x subnetID = tget (ix_rows x) subnetID"

definition MetaOf :: "SubnetSNMP \<Rightarrow> Meta" where
  "MetaOf r = \<lparr>mt_Version = sc_Version r, mt_SecurityLevel = sc_SecurityLevel r,
     mt_AuthProtocol = sc_AuthProtocol r, mt_PrivProtocol = sc_PrivProtocol r\<rparr>"

text \<open>A missing map entry reads as the zero value.\<close>

definition Effective :: "Index \<Rightarrow> string \<Rightarrow> SNMPSummary \<times> SubnetSNMP \<times> bool" where
  "Effective x subnetID = (case Resolve subnetID (ix_parents x) (ix_own x) of
       None \<Rightarrow> (SNMPSummary0\<lparr>sum_State := SNMPStateNone\<rparr>, SubnetSNMP0, False)
     | Some src \<Rightarrow>
        (let row = (case tget (ix_rows x) src of Some r \<Rightarrow> r | None \<Rightarrow> SubnetSNMP0);
             sub = (case tget (ix_subnets x) src of Some s \<Rightarrow> s | None \<Rightarrow> Subnet0) in
         (\<lparr>sum_State = (if src = subnetID then SNMPStateOwn else SNMPStateInherited), sum_Version = sc_Version row,
           sum_SecurityLevel = sc_SecurityLevel row, sum_Weak = Meta_Weak (MetaOf row),
           sum_SourceSubnetID = src, sum_SourceName = sn_Name sub, sum_SourceCIDR = sn_CIDR sub\<rparr>, row, True)))"

section \<open>The walk finds the nearest ancestor\<close>

text \<open>\<open>walk parents k i\<close>: the \<open>k\<close>-th ancestor of \<open>i\<close>, when every subnet up to it is
  known.\<close>

fun walk :: "string tbl \<Rightarrow> nat \<Rightarrow> string \<Rightarrow> string option" where
  "walk parents 0 i = (if i = [] \<or> tget parents i = None then None else Some i)"
| "walk parents (Suc k) i = (if i = [] then None else case tget parents i of
     None \<Rightarrow> None | Some p \<Rightarrow> walk parents k p)"

definition nearest :: "string tbl \<Rightarrow> bool tbl \<Rightarrow> nat \<Rightarrow> string \<Rightarrow> string \<Rightarrow> bool" where
  "nearest parents own n i src = (\<exists>k < n. walk parents k i = Some src \<and> tget own src = Some True \<and>
     (\<forall>j < k. \<forall>x. walk parents j i = Some x \<longrightarrow> tget own x \<noteq> Some True))"

lemma nearest_0 [simp]: "\<not> nearest parents own 0 i src"
  by (simp add: nearest_def)

lemma nearest_Suc:
  "nearest parents own (Suc n) i src \<longleftrightarrow> (i \<noteq> [] \<and> (\<exists>p. tget parents i = Some p \<and>
     (if tget own i = Some True then src = i else nearest parents own n p src)))"
proof (cases "i = [] \<or> tget parents i = None")
  case True
  then have "walk parents k i = None" for k
    by (cases k) auto
  then show ?thesis
    using True by (auto simp: nearest_def)
next
  case False
  then obtain p where p: "i \<noteq> []" "tget parents i = Some p"
    by auto
  have 0: "walk parents 0 i = Some i" and S: "walk parents (Suc k) i = walk parents k p" for k
    using p by simp_all
  show ?thesis
    unfolding nearest_def Ex_less_Suc2 All_less_Suc2 0 S using p by (auto simp: S)
qed

text \<open>Once the walk is back at a subnet it has seen, no ancestor has credentials.\<close>

definition closed_seen :: "string tbl \<Rightarrow> bool tbl \<Rightarrow> string list \<Rightarrow> string \<Rightarrow> bool" where
  "closed_seen parents own seen i = (\<forall>s \<in> set seen. tget own s \<noteq> Some True \<and>
     (\<forall>p. tget parents s = Some p \<longrightarrow> p \<in> set seen \<or> p = i))"

lemma walk_in_seen:
  assumes "closed_seen parents own seen i" and "i \<in> set seen"
  shows "s \<in> set seen \<Longrightarrow> walk parents k s = Some x \<Longrightarrow> x \<in> set seen"
proof (induction k arbitrary: s)
  case (Suc k)
  then show ?case
    using assms by (auto simp: closed_seen_def split: if_splits option.splits)
qed (auto split: if_splits)

lemma resolve_loop_nearest:
  assumes "closed_seen parents own seen i"
  shows "resolve_loop parents own n seen i = Some src \<longleftrightarrow> nearest parents own n i src"
  using assms
proof (induction n arbitrary: seen i)
  case (Suc n)
  show ?case
  proof (cases "i \<in> set seen")
    case True
    then have "\<not> nearest parents own (Suc n) i src"
      using walk_in_seen [OF Suc.prems True True] Suc.prems by (auto simp: nearest_def closed_seen_def)
    with True show ?thesis
      by simp
  next
    case False
    have "closed_seen parents own (i # seen) p" if "tget parents i = Some p" "tget own i \<noteq> Some True" for p
      using Suc.prems that by (auto simp: closed_seen_def)
    with False show ?thesis
      unfolding nearest_Suc by (auto simp: Suc.IH split: option.splits)
  qed
qed simp

text \<open>C23. Credentials come from the nearest ancestor: Resolve returns a subnet exactly when it is, within
  64 steps up a chain of known subnets, the first one with credentials of its own, the subnet
  itself included; cycles among the parents make no difference.\<close>

theorem Resolve_nearest:
  "Resolve i parents own = Some src \<longleftrightarrow>
     (\<exists>k \<le> 64. walk parents k i = Some src \<and> tget own src = Some True \<and>
        (\<forall>j < k. \<forall>x. walk parents j i = Some x \<longrightarrow> tget own x \<noteq> Some True))"
proof -
  have "closed_seen parents own [] i"
    by (simp add: closed_seen_def)
  from resolve_loop_nearest [OF this, of "Suc MaxDepth" src] show ?thesis
    unfolding Resolve_def nearest_def less_Suc_eq_le MaxDepth_def .
qed

theorem Resolve_nearest_witness:
  "\<exists>k \<le> 64. walk [(''c'', ''b''), (''b'', ''a''), (''a'', [])] k ''c'' = Some ''a''"
proof -
  have "Resolve ''c'' [(''c'', ''b''), (''b'', ''a''), (''a'', [])] [(''a'', True)] = Some ''a''"
    by code_simp
  then show ?thesis
    using Resolve_nearest by blast
qed

text \<open>Validated input is complete and the client gets exactly what was entered: an accepted input has
  version 2 with a community, or version 3 with a user and a password of at least eight characters
  (privacy likewise when asked for), every value has at most 256 characters, and the credentials
  built from its stored metadata and secret carry its values.\<close>

theorem snmp_Validate_complete:
  assumes "snmp_Validate i = Inr ()"
  shows "(si_Version i = 2 \<and> si_Community i \<noteq> [] \<or>
      si_Version i = 3 \<and> si_User i \<noteq> [] \<and> 8 \<le> RuneCount (si_AuthPassword i) \<and>
        si_AuthProtocol i \<in> set authProtocols \<and>
        (si_SecurityLevel i = LevelAuthPriv \<and> 8 \<le> RuneCount (si_PrivPassword i) \<and>
           si_PrivProtocol i \<in> set privProtocols \<or> si_SecurityLevel i = LevelAuthNoPriv)) \<and>
    list_all (\<lambda>v. RuneCount v \<le> 256) [si_Community i, si_User i, si_AuthPassword i, si_PrivPassword i] \<and>
    ToCreds (Input_Meta i) (secretOf i) timeoutMs retries =
      \<lparr>cr_Version = si_Version i, cr_Community = si_Community i, cr_User = si_User i,
       cr_SecurityLevel = si_SecurityLevel i, cr_AuthProtocol = si_AuthProtocol i,
       cr_AuthPassword = si_AuthPassword i, cr_PrivProtocol = si_PrivProtocol i,
       cr_PrivPassword = si_PrivPassword i, cr_TimeoutMs = timeoutMs, cr_Retries = retries, cr_CollectARP = False\<rparr>"
proof -
  have v: "snmp_value f v n = Inr () \<longleftrightarrow> v \<noteq> [] \<and> n \<le> RuneCount v \<and> RuneCount v \<le> 256" for f v n
    by (auto simp: snmp_value_def MaxValueLen_def RuneCount_zero)
  have ex: "(case snmp_value f v n of Inl err \<Rightarrow> Inl err | Inr _ \<Rightarrow> rest) = Inr () \<longleftrightarrow>
      snmp_value f v n = Inr () \<and> rest = Inr ()" for f v n and rest :: "unit res"
    by (auto split: sum.splits)
  show ?thesis
  proof (cases "si_Version i = 2")
    case True
    then show ?thesis
      using assms by (auto simp: snmp_Validate_def ex v ToCreds_def Input_Meta_def secretOf_def
          split: if_splits option.splits)
  next
    case False
    then have three: "si_Version i = 3" and "validateV3 i = Inr ()"
      using assms by (auto simp: snmp_Validate_def split: if_splits)
    then show ?thesis
      by (auto simp: validateV3_def ex v validAuth_def validPriv_def snmp_contains_def list_ex_iff
          MinPasswordLen_def ToCreds_def Input_Meta_def secretOf_def split: if_splits)
  qed
qed

theorem snmp_Validate_complete_witness:
  "8 \<le> RuneCount ''longpassword''"
proof -
  let ?i = "\<lparr>si_Version = 3, si_Community = [], si_User = ''u'', si_SecurityLevel = LevelAuthNoPriv,
    si_AuthProtocol = ''SHA256'', si_AuthPassword = ''longpassword'', si_PrivProtocol = [], si_PrivPassword = []\<rparr>"
  have "snmp_Validate ?i = Inr ()"
    by code_simp
  from snmp_Validate_complete [OF this, of 0 0] show ?thesis
    by simp
qed

end
