(* ===== verification/Forest.thy ===== *)
theory Forest
  imports Prelude
begin

text \<open>
  Rows nested by a parent identifier, as the tree views of the subnet and location services build
  them: every row becomes a node, a row whose parent is present is appended to its parent's children
  and every other row is a root; roots and children are sorted by identifier. The pointer structure
  reachable from the roots is unfolded to a datatype, which as many levels as there are rows cover.
  The lemmas show that exactly the rows whose chain of parents ends at a root are in it, once each.
\<close>

datatype 'a node = Node 'a "'a node list"

definition find_row :: "('a \<Rightarrow> string) \<Rightarrow> 'a list \<Rightarrow> string \<Rightarrow> 'a option" where
  "find_row idf rows i = find (\<lambda>r. idf r = i) rows"

text \<open>The row a row hangs below.\<close>

definition parent_row :: "('a \<Rightarrow> string) \<Rightarrow> ('a \<Rightarrow> string) \<Rightarrow> 'a list \<Rightarrow> 'a \<Rightarrow> 'a option" where
  "parent_row idf par rows n = (if par n = [] then None else find_row idf rows (par n))"

definition sort_nodes :: "('a \<Rightarrow> string) \<Rightarrow> 'a list \<Rightarrow> 'a list" where
  "sort_nodes idf = sort_by (\<lambda>x y. idf x < idf y)"

definition roots_of :: "('a \<Rightarrow> string) \<Rightarrow> ('a \<Rightarrow> string) \<Rightarrow> 'a list \<Rightarrow> 'a list" where
  "roots_of idf par rows = sort_nodes idf (filter (\<lambda>n. parent_row idf par rows n = None) rows)"

definition children_of :: "('a \<Rightarrow> string) \<Rightarrow> ('a \<Rightarrow> string) \<Rightarrow> 'a list \<Rightarrow> 'a \<Rightarrow> 'a list" where
  "children_of idf par rows n = sort_nodes idf (filter (\<lambda>c. par c \<noteq> [] \<and> par c = idf n) rows)"

fun grow :: "('a \<Rightarrow> string) \<Rightarrow> ('a \<Rightarrow> string) \<Rightarrow> 'a list \<Rightarrow> nat \<Rightarrow> 'a \<Rightarrow> 'a node" where
  "grow idf par rows 0 n = Node n []"
| "grow idf par rows (Suc k) n = Node n (map (grow idf par rows k) (children_of idf par rows n))"

definition forest :: "('a \<Rightarrow> string) \<Rightarrow> ('a \<Rightarrow> string) \<Rightarrow> 'a list \<Rightarrow> 'a node list" where
  "forest idf par rows = map (grow idf par rows (length rows)) (roots_of idf par rows)"

fun flatten :: "'a node \<Rightarrow> 'a list" where
  "flatten (Node n cs) = n # concat (map flatten cs)"

definition rows_in :: "'a node list \<Rightarrow> 'a list" where
  "rows_in ns = concat (map flatten ns)"

section \<open>Ancestors\<close>

text \<open>\<open>up idf par rows j n\<close>: the row \<open>j\<close> levels above \<open>n\<close>.\<close>

fun up :: "('a \<Rightarrow> string) \<Rightarrow> ('a \<Rightarrow> string) \<Rightarrow> 'a list \<Rightarrow> nat \<Rightarrow> 'a \<Rightarrow> 'a option" where
  "up idf par rows 0 n = Some n"
| "up idf par rows (Suc j) n = (case parent_row idf par rows n of None \<Rightarrow> None | Some p \<Rightarrow> up idf par rows j p)"

text \<open>\<open>at_depth idf par rows d n\<close>: \<open>n\<close> is a row \<open>d\<close> levels below a root.\<close>

definition at_depth :: "('a \<Rightarrow> string) \<Rightarrow> ('a \<Rightarrow> string) \<Rightarrow> 'a list \<Rightarrow> nat \<Rightarrow> 'a \<Rightarrow> bool" where
  "at_depth idf par rows d n = (n \<in> set rows \<and>
     (\<exists>r. up idf par rows d n = Some r \<and> parent_row idf par rows r = None))"

definition rooted :: "('a \<Rightarrow> string) \<Rightarrow> ('a \<Rightarrow> string) \<Rightarrow> 'a list \<Rightarrow> 'a \<Rightarrow> bool" where
  "rooted idf par rows n = (\<exists>d. at_depth idf par rows d n)"

lemma find_row_Some: "find_row idf rows i = Some r \<Longrightarrow> r \<in> set rows \<and> idf r = i"
  by (auto simp: find_row_def find_Some_iff)

lemma find_row_distinct: "distinct (map idf rows) \<Longrightarrow> r \<in> set rows \<Longrightarrow> find_row idf rows (idf r) = Some r"
proof (induction rows)
  case (Cons x xs)
  then show ?case
    by (auto simp: find_row_def)
qed simp

lemma parent_row_mem: "parent_row idf par rows n = Some p \<Longrightarrow> p \<in> set rows \<and> par n = idf p \<and> par n \<noteq> []"
  by (auto simp: parent_row_def dest: find_row_Some split: if_splits)

lemma set_children_of:
  assumes "distinct (map idf rows)" and "n \<in> set rows"
  shows "set (children_of idf par rows n) = {c \<in> set rows. parent_row idf par rows c = Some n}"
  using find_row_distinct [OF assms] parent_row_mem [of idf par rows]
  by (auto simp: children_of_def sort_nodes_def parent_row_def)

lemma distinct_children_of: "distinct (map idf rows) \<Longrightarrow> distinct (children_of idf par rows n)"
  by (simp add: children_of_def sort_nodes_def distinct_map)

lemma at_depth_0: "at_depth idf par rows 0 n \<longleftrightarrow> n \<in> set rows \<and> parent_row idf par rows n = None"
  by (simp add: at_depth_def)

lemma at_depth_child:
  "parent_row idf par rows c = Some p \<Longrightarrow> at_depth idf par rows (Suc d) c \<longleftrightarrow> c \<in> set rows \<and> at_depth idf par rows d p"
  using parent_row_mem [of idf par rows c p] by (auto simp: at_depth_def)

lemma at_depth_unique: "at_depth idf par rows d n \<Longrightarrow> at_depth idf par rows d' n \<Longrightarrow> d = d'"
proof (induction d arbitrary: n d')
  case 0
  then show ?case
    by (cases d') (auto simp: at_depth_def)
next
  case (Suc d)
  then obtain p where p: "parent_row idf par rows n = Some p"
    by (auto simp: at_depth_def split: option.splits)
  then obtain e where "d' = Suc e"
    using Suc.prems(2) by (cases d') (auto simp: at_depth_def)
  then show ?case
    using Suc.IH [of p e] Suc.prems at_depth_child [OF p] by simp
qed

lemma up_mem: "n \<in> set rows \<Longrightarrow> up idf par rows j n = Some x \<Longrightarrow> x \<in> set rows"
proof (induction j arbitrary: n)
  case (Suc j)
  then obtain p where "parent_row idf par rows n = Some p" "up idf par rows j p = Some x"
    by (auto split: option.splits)
  then show ?case
    using Suc.IH [of p] parent_row_mem [of idf par rows n p] by simp
qed simp

lemma up_beyond: "at_depth idf par rows d n \<Longrightarrow> d < i \<Longrightarrow> up idf par rows i n = None"
proof (induction d arbitrary: n i)
  case 0
  then show ?case
    by (cases i) (simp_all add: at_depth_0)
next
  case (Suc d)
  then obtain p where p: "parent_row idf par rows n = Some p"
    by (auto simp: at_depth_def split: option.splits)
  show ?case
    using Suc.prems Suc.IH [of p] at_depth_child [OF p] p by (cases i) simp_all
qed

lemma up_Suc: "up idf par rows (Suc j) m =
    (case up idf par rows j m of None \<Rightarrow> None | Some c \<Rightarrow> parent_row idf par rows c)"
proof (induction j arbitrary: m)
  case (Suc j)
  then show ?case
    by (cases "parent_row idf par rows m") simp_all
qed (simp split: option.splits)

lemma up_add: "up idf par rows (i + e) m = (case up idf par rows i m of None \<Rightarrow> None | Some z \<Rightarrow> up idf par rows e z)"
  by (induction i arbitrary: m) (auto split: option.splits)

lemma up_depth:
  "at_depth idf par rows d n \<Longrightarrow> j \<le> d \<Longrightarrow> \<exists>x. up idf par rows j n = Some x \<and> at_depth idf par rows (d - j) x"
proof (induction j arbitrary: d n)
  case (Suc j)
  then obtain p where p: "parent_row idf par rows n = Some p"
    by (cases d) (auto simp: at_depth_def split: option.splits)
  obtain e where e: "d = Suc e"
    using Suc.prems by (cases d) auto
  with Suc p at_depth_child [OF p] show ?case
    by simp
qed simp

text \<open>A chain visits rows of pairwise different depth, so it is shorter than the list of rows.\<close>

lemma at_depth_less:
  assumes "at_depth idf par rows d n"
  shows "d < length rows"
proof -
  define f where "f j = the (up idf par rows j n)" for j
  have f: "at_depth idf par rows (d - j) (f j)" if "j \<le> d" for j
    using up_depth [OF assms that] by (auto simp: f_def)
  have "inj_on f {0..d}"
  proof (rule inj_onI)
    fix i j assume "i \<in> {0..d}" "j \<in> {0..d}" "f i = f j"
    then show "i = j"
      using at_depth_unique f [of i] f [of j] by (metis atLeastAtMost_iff diff_diff_cancel)
  qed
  moreover have "f ` {0..d} \<subseteq> set rows"
    using f by (auto simp: at_depth_def)
  ultimately have "card {0..d} \<le> card (set rows)"
    using card_inj_on_le by blast
  then show ?thesis
    using card_length [of rows] by simp
qed

section \<open>What a grown node contains\<close>

lemma flatten_grow_up:
  assumes dist: "distinct (map idf rows)"
  shows "n \<in> set rows \<Longrightarrow> m \<in> set (flatten (grow idf par rows k n)) \<longleftrightarrow>
    m \<in> set rows \<and> (\<exists>j \<le> k. up idf par rows j m = Some n)"
proof (induction k arbitrary: n)
  case (Suc k)
  have "m \<in> set (flatten (grow idf par rows (Suc k) n)) \<longleftrightarrow>
      m = n \<or> (\<exists>c. c \<in> set rows \<and> parent_row idf par rows c = Some n \<and> m \<in> set (flatten (grow idf par rows k c)))"
    using set_children_of [OF dist Suc.prems, of par] by auto
  also have "\<dots> \<longleftrightarrow> m = n \<or> (\<exists>c. c \<in> set rows \<and> parent_row idf par rows c = Some n \<and>
      m \<in> set rows \<and> (\<exists>j \<le> k. up idf par rows j m = Some c))"
    by (simp add: Suc.IH cong: conj_cong)
  also have "\<dots> \<longleftrightarrow> m = n \<or> m \<in> set rows \<and> (\<exists>j \<le> k. up idf par rows (Suc j) m = Some n)"
    unfolding up_Suc by (auto dest: up_mem split: option.splits)
  also have "\<dots> \<longleftrightarrow> m \<in> set rows \<and> (\<exists>j \<le> Suc k. up idf par rows j m = Some n)"
    using Suc.prems Ex_less_Suc2 [of "Suc k" "\<lambda>j. up idf par rows j m = Some n"]
    unfolding less_Suc_eq_le by auto
  finally show ?case .
qed auto

lemma distinct_concat_map:
  assumes "distinct xs" and "\<And>x. x \<in> set xs \<Longrightarrow> distinct (f x)"
    and "\<And>x y. x \<in> set xs \<Longrightarrow> y \<in> set xs \<Longrightarrow> x \<noteq> y \<Longrightarrow> set (f x) \<inter> set (f y) = {}"
  shows "distinct (concat (map f xs))"
  using assms
proof (induction xs)
  case (Cons a xs)
  have "set (f a) \<inter> set (f y) = {}" if "y \<in> set xs" for y
    using that Cons.prems(1) by (intro Cons.prems(3)) auto
  moreover have "distinct (concat (map f xs))"
    using Cons.prems by (intro Cons.IH) auto
  ultimately show ?case
    using Cons.prems(2) by auto
qed simp

lemma siblings_disjoint:
  assumes dist: "distinct (map idf rows)" and "at_depth idf par rows d x" and "at_depth idf par rows d y"
    and "x \<noteq> y"
  shows "set (flatten (grow idf par rows k x)) \<inter> set (flatten (grow idf par rows k y)) = {}"
proof -
  have False if "up idf par rows i m = Some x" "up idf par rows j m = Some y" "m \<in> set rows" for i j m
  proof -
    have "at_depth idf par rows (i + d) m" "at_depth idf par rows (j + d) m"
      using that assms(2,3) by (auto simp: at_depth_def up_add)
    then have "i = j"
      using at_depth_unique by fastforce
    then show False
      using that assms(4) by simp
  qed
  then show ?thesis
    using flatten_grow_up [OF dist, of x] flatten_grow_up [OF dist, of y] assms(2,3)
    by (auto simp: at_depth_def)
qed

lemma distinct_flatten_grow:
  assumes dist: "distinct (map idf rows)"
  shows "at_depth idf par rows d n \<Longrightarrow> distinct (flatten (grow idf par rows k n))"
proof (induction k arbitrary: n d)
  case (Suc k)
  have n: "n \<in> set rows"
    using Suc.prems by (simp add: at_depth_def)
  have kids: "at_depth idf par rows (Suc d) c" if "c \<in> set (children_of idf par rows n)" for c
    using that set_children_of [OF dist n, of par] at_depth_child [of idf par rows c n d] Suc.prems by simp
  have "n \<notin> set (flatten (grow idf par rows k c))" if "c \<in> set (children_of idf par rows n)" for c
  proof
    assume "n \<in> set (flatten (grow idf par rows k c))"
    moreover have "c \<in> set rows"
      using kids [OF that] by (simp add: at_depth_def)
    ultimately obtain j where j: "up idf par rows j n = Some c"
      using flatten_grow_up [OF dist] by blast
    show False
    proof (cases "j \<le> d")
      case True
      then have "at_depth idf par rows (d - j) c"
        using up_depth [OF Suc.prems True] j by simp
      then show False
        using at_depth_unique [OF _ kids [OF that]] by fastforce
    qed (use up_beyond [OF Suc.prems, of j] j in simp)
  qed
  moreover have "distinct (concat (map (\<lambda>c. flatten (grow idf par rows k c)) (children_of idf par rows n)))"
  proof (rule distinct_concat_map [OF distinct_children_of [OF dist]])
    fix x assume "x \<in> set (children_of idf par rows n)"
    from Suc.IH [OF kids [OF this]] show "distinct (flatten (grow idf par rows k x))" .
  next
    fix x y assume "x \<in> set (children_of idf par rows n)" "y \<in> set (children_of idf par rows n)" "x \<noteq> y"
    then show "set (flatten (grow idf par rows k x)) \<inter> set (flatten (grow idf par rows k y)) = {}"
      by (intro siblings_disjoint [OF dist kids kids])
  qed
  ultimately show ?case
    by (simp add: comp_def)
qed simp

text \<open>The forest of a list of rows with distinct identifiers: the rooted rows, each once.\<close>

lemma rows_in_forest:
  assumes dist: "distinct (map idf rows)"
  shows "set (rows_in (forest idf par rows)) = {n \<in> set rows. rooted idf par rows n}"
    and "distinct (rows_in (forest idf par rows))"
proof -
  have roots: "set (roots_of idf par rows) = {n \<in> set rows. parent_row idf par rows n = None}"
    by (auto simp: roots_of_def sort_nodes_def)
  have "m \<in> set (rows_in (forest idf par rows)) \<longleftrightarrow> m \<in> set rows \<and> rooted idf par rows m" for m
  proof -
    have "m \<in> set (rows_in (forest idf par rows)) \<longleftrightarrow>
        (\<exists>r \<in> set (roots_of idf par rows). m \<in> set (flatten (grow idf par rows (length rows) r)))"
      by (simp add: rows_in_def forest_def)
    also have "\<dots> \<longleftrightarrow> (\<exists>r. r \<in> set rows \<and> parent_row idf par rows r = None \<and> m \<in> set rows \<and>
        (\<exists>j \<le> length rows. up idf par rows j m = Some r))"
      unfolding roots by (simp add: flatten_grow_up [OF dist] Bex_def cong: conj_cong) blast
    also have "\<dots> \<longleftrightarrow> m \<in> set rows \<and> (\<exists>r j. j \<le> length rows \<and> up idf par rows j m = Some r \<and>
        parent_row idf par rows r = None)"
      by (auto dest: up_mem)
    also have "\<dots> \<longleftrightarrow> m \<in> set rows \<and> rooted idf par rows m"
      using at_depth_less [of idf par rows _ m] by (auto simp: rooted_def at_depth_def dest: less_imp_le)
    finally show ?thesis .
  qed
  then show "set (rows_in (forest idf par rows)) = {n \<in> set rows. rooted idf par rows n}"
    by blast
  have 0: "at_depth idf par rows 0 r" if "r \<in> set (roots_of idf par rows)" for r
    using that by (simp add: at_depth_0 roots)
  have "distinct (roots_of idf par rows)"
    using dist by (simp add: roots_of_def sort_nodes_def distinct_map)
  then show "distinct (rows_in (forest idf par rows))"
    unfolding rows_in_def forest_def map_map
    by (rule distinct_concat_map)
      (auto simp: distinct_flatten_grow [OF dist 0] dest: siblings_disjoint [OF dist 0 0])
qed

end
