(* ===== verification/Svc_Subnets.thy ===== *)
theory Svc_Subnets
  imports Ipnet Forest Snmpcred Audit_Event Memstore_Contracts
begin

text \<open>
  \<open>internal/subnets/subnets.go\<close> and \<open>snmp.go\<close>: the subnet service. Validation on write
  (derived CIDR fields, gateway, overlap with the tenant's other subnets), splitting, the tree and
  the capacity statistics, and the credential status. The loops that follow parent pointers carry
  the set of identifiers already met, which is why they end. Sealing the credentials is a parameter
  of \<open>SetSNMP\<close>; \<open>Page\<close> and the floating-point utilization are not modelled.
\<close>

section \<open>Helpers\<close>

definition subnets_mapErr :: "goerr \<Rightarrow> goerr" where
  "subnets_mapErr err = (if err = RepoNotFound then SubnetsNotFound
     else if err = RepoNotEmpty then SubnetsNotEmpty else err)"

definition dropLegacySNMP :: "Subnet \<Rightarrow> Subnet" where
  "dropLegacySNMP s = s\<lparr>sn_SNMPSecretRef := [], sn_SNMPVersion := 0, sn_SNMP := None\<rparr>"

definition deriveCIDR :: "Subnet \<Rightarrow> Subnet res" where
  "deriveCIDR s = (case Parse (sn_CIDR s) of
       Inl _ \<Rightarrow> Inl (SubnetsValidation ''invalid cidr %q'' [sn_CIDR s])
     | Inr info \<Rightarrow> Inr (s\<lparr>sn_NetworkAddress := IP_String (Network info),
          sn_BroadcastAddr := IP_String (Broadcast info), sn_Mask := IP_String (Mask info),
          sn_PrefixLength := PrefixLen info, sn_IPVersion := Version info, sn_TotalAddresses := Total info\<rparr>))"

definition checkGateway :: "string \<Rightarrow> string \<Rightarrow> unit res" where
  "checkGateway cidr gateway =
     (if gateway = [] then Inr ()
      else if GatewayInRange cidr gateway = Inr True then Inr ()
      else Inl (SubnetsValidation ''gateway %q not in range of %q'' [gateway, cidr]))"

text \<open>\<open>byID[id].ParentID\<close>; a missing row reads as the zero value.\<close>

definition parent_of :: "Subnet tbl \<Rightarrow> string \<Rightarrow> string" where
  "parent_of byID i = (case tget byID i of Some s \<Rightarrow> sn_ParentID s | None \<Rightarrow> [])"

lemma parent_of_unknown: "i \<notin> fst ` set byID \<Longrightarrow> parent_of byID i = []"
  by (simp add: parent_of_def tget_def map_of_eq_None_iff [THEN iffD2])

lemma chain_measure:
  assumes "i \<noteq> []" and "i \<notin> set seen"
  shows "card (fst ` set byID - insert i (set seen)) + (if parent_of byID i = [] then 0 else 1) <
    card (fst ` set byID - set seen) + 1"
proof (cases "i \<in> fst ` set byID")
  case True
  then have "card (fst ` set byID - insert i (set seen)) < card (fst ` set byID - set seen)"
    using assms(2) by (intro psubset_card_mono) auto
  then show ?thesis
    by simp
qed (simp add: parent_of_unknown)

text \<open>The first loop of \<open>nestedWith\<close>: \<open>parentID\<close> and everything above it.\<close>

function above :: "Subnet tbl \<Rightarrow> string list \<Rightarrow> string \<Rightarrow> string list" where
  "above byID seen i =
     (if i = [] \<or> i \<in> set seen then seen else above byID (i # seen) (parent_of byID i))"
  by pat_completeness auto
termination
  by (relation "measure (\<lambda>(byID, seen, i). card (fst ` set byID - set seen) + (if i = [] then 0 else 1))")
    (use chain_measure in auto)

text \<open>The inner loop of the second: whether \<open>selfID\<close> is met on the way up.\<close>

function descends :: "Subnet tbl \<Rightarrow> string \<Rightarrow> string list \<Rightarrow> string \<Rightarrow> bool" where
  "descends byID selfID seen p =
     (if p = [] \<or> p \<in> set seen then False
      else if p = selfID then True
      else descends byID selfID (p # seen) (parent_of byID p))"
  by pat_completeness auto
termination
  by (relation "measure (\<lambda>(byID, selfID, seen, p). card (fst ` set byID - set seen) + (if p = [] then 0 else 1))")
    (use chain_measure in auto)

declare above.simps [simp del] descends.simps [simp del]

definition nestedWith :: "Subnet tbl \<Rightarrow> string \<Rightarrow> string \<Rightarrow> string \<Rightarrow> string list res" where
  "nestedWith byID cidr selfID parentID =
     (case (if parentID = [] then Inr []
            else case tget byID parentID of
                None \<Rightarrow> Inl (SubnetsValidation ''parent subnet %s not found'' [parentID])
              | Some parent \<Rightarrow>
                  if \<not> Within cidr (sn_CIDR parent)
                  then Inl (SubnetsValidation ''cidr %q is not inside parent %s'' [cidr, sn_CIDR parent])
                  else Inr (above byID [] parentID)) of
        Inl err \<Rightarrow> Inl err
      | Inr out \<Rightarrow>
          if selfID = [] then Inr out
          else Inr (map fst (filter (\<lambda>(i, s). descends byID selfID [] (sn_ParentID s)) byID) @ out))"

fun overlap_scan :: "string \<Rightarrow> string \<Rightarrow> string list \<Rightarrow> Subnet list \<Rightarrow> unit res" where
  "overlap_scan cidr selfID nested [] = Inr ()"
| "overlap_scan cidr selfID nested (ex # exs) =
     (if sn_ID ex = selfID \<or> sn_CIDR ex = [] \<or> sn_ID ex \<in> set nested then overlap_scan cidr selfID nested exs
      else if Overlaps cidr (sn_CIDR ex) = Inr True
      then Inl (SubnetsValidation ''cidr %q overlaps existing subnet %s (%s)'' [cidr, sn_ID ex, sn_CIDR ex])
      else overlap_scan cidr selfID nested exs)"

definition by_id :: "Subnet list \<Rightarrow> Subnet tbl" where
  "by_id subs = fold (\<lambda>s. tput (sn_ID s) s) subs []"

definition check_overlap :: "Subnet list \<Rightarrow> string \<Rightarrow> string \<Rightarrow> string \<Rightarrow> unit res" where
  "check_overlap existing cidr selfID parentID =
     (case nestedWith (by_id existing) cidr selfID parentID of
        Inl err \<Rightarrow> Inl err
      | Inr nested \<Rightarrow> overlap_scan cidr selfID nested existing)"

definition checkOverlap :: "'m Store \<Rightarrow> string \<Rightarrow> string \<Rightarrow> string \<Rightarrow> string \<Rightarrow> ('m World, unit) op" where
  "checkOverlap st tenantID cidr selfID parentID =
     bind_op (on_store (s_AllSubnetCIDRs st tenantID)) (\<lambda>existing.
     check (check_overlap existing cidr selfID parentID))"

section \<open>Reads\<close>

definition SNMPIndex :: "'m Store \<Rightarrow> string \<Rightarrow> ('m World, Index) op" where
  "SNMPIndex st tenantID =
     bind_op (on_store (s_AllSubnetCIDRs st tenantID)) (\<lambda>subs.
     bind_op (on_store (s_ListSubnetSNMP st tenantID)) (\<lambda>rows.
     ret (NewIndex subs rows)))"

definition with_effective :: "Index \<Rightarrow> Subnet \<Rightarrow> Subnet" where
  "with_effective idx s = (let eff = fst (Effective idx (sn_ID s)) in
     s\<lparr>sn_SNMP := Some eff, sn_SNMPVersion := sum_Version eff, sn_SNMPSecretRef := []\<rparr>)"

definition withSNMP :: "'m Store \<Rightarrow> string \<Rightarrow> Subnet list \<Rightarrow> ('m World, Subnet list) op" where
  "withSNMP st tenantID subs =
     bind_op (SNMPIndex st tenantID) (\<lambda>idx. ret (map (with_effective idx) subs))"

definition fill_counts :: "int \<Rightarrow> Subnet \<Rightarrow> Subnet" where
  "fill_counts used s =
     (let total = (case Parse (sn_CIDR s) of Inr info \<Rightarrow> Total info | Inl _ \<Rightarrow> 0) in
      s\<lparr>sn_TotalAddresses := total, sn_UsedAddresses := used,
        sn_AvailableAddresses := (if total - used > 0 then total - used else 0)\<rparr>)"

text \<open>The error of the count is ignored.\<close>

definition subnets_fill :: "'m Store \<Rightarrow> string \<Rightarrow> Subnet \<Rightarrow> ('m World, Subnet) op" where
  "subnets_fill st tenantID s w =
     (case on_store (s_CountAddressesInSubnet st tenantID (sn_ID s)) w of
        (Inl _, w') \<Rightarrow> (Inr (fill_counts 0 s), w')
      | (Inr used, w') \<Rightarrow> (Inr (fill_counts used s), w'))"

fun fill_all :: "'m Store \<Rightarrow> string \<Rightarrow> Subnet list \<Rightarrow> ('m World, Subnet list) op" where
  "fill_all st tenantID [] = ret []"
| "fill_all st tenantID (s # subs) =
     bind_op (subnets_fill st tenantID s) (\<lambda>s'.
     bind_op (fill_all st tenantID subs) (\<lambda>subs'. ret (s' # subs')))"

definition subnets_Get :: "'m Store \<Rightarrow> Subjects \<Rightarrow> string \<Rightarrow> ('m World, Subnet) op" where
  "subnets_Get st subj i =
     bind_op (check (RequireTenant subj (su_TenantID subj))) (\<lambda>_.
     bind_op (map_err subnets_mapErr (on_store (s_GetSubnet st (su_TenantID subj) i))) (\<lambda>sub.
     bind_op (subnets_fill st (su_TenantID subj) sub) (\<lambda>sub.
     bind_op (withSNMP st (su_TenantID subj) [sub]) (\<lambda>subs.
     ret (hd subs)))))"

definition subnets_List :: "'m Store \<Rightarrow> Subjects \<Rightarrow> SubnetFilter \<Rightarrow> ('m World, Subnet list) op" where
  "subnets_List st subj f =
     bind_op (check (RequireTenant subj (su_TenantID subj))) (\<lambda>_.
     bind_op (on_store (s_ListSubnets st (su_TenantID subj) f)) (\<lambda>subs.
     bind_op (fill_all st (su_TenantID subj) subs) (\<lambda>subs.
     withSNMP st (su_TenantID subj) subs)))"

definition subnets_GetTree :: "'m Store \<Rightarrow> Subjects \<Rightarrow> ('m World, Subnet node list) op" where
  "subnets_GetTree st subj =
     bind_op (check (RequireTenant subj (su_TenantID subj))) (\<lambda>_.
     bind_op (on_store (s_ListSubnets st (su_TenantID subj) SubnetFilter0)) (\<lambda>subs.
     bind_op (fill_all st (su_TenantID subj) subs) (\<lambda>subs.
     bind_op (withSNMP st (su_TenantID subj) subs) (\<lambda>subs.
     ret (forest sn_ID sn_ParentID subs)))))"

record SubnetStats =
  ts_TotalSubnets :: int
  ts_TotalAddresses :: int
  ts_UsedAddresses :: int
  ts_AvailableAddresses :: int
  ts_ReservedAddresses :: int

fun stats_loop :: "'m Store \<Rightarrow> string \<Rightarrow> Subnet list \<Rightarrow> SubnetStats \<Rightarrow> ('m World, SubnetStats) op" where
  "stats_loop st tenantID [] acc = ret acc"
| "stats_loop st tenantID (s # subs) acc =
     bind_op (on_store (s_CountAddressesInSubnet st tenantID (sn_ID s))) (\<lambda>used.
     stats_loop st tenantID subs
       (acc\<lparr>ts_TotalSubnets := wrap64 (ts_TotalSubnets acc + 1),
          ts_TotalAddresses := wrap64 (ts_TotalAddresses acc +
            (case Parse (sn_CIDR s) of Inr info \<Rightarrow> Total info | Inl _ \<Rightarrow> 0)),
          ts_UsedAddresses := wrap64 (ts_UsedAddresses acc + used)\<rparr>))"

definition subnets_GetStats :: "'m Store \<Rightarrow> Subjects \<Rightarrow> ('m World, SubnetStats) op" where
  "subnets_GetStats st subj =
     bind_op (check (RequireTenant subj (su_TenantID subj))) (\<lambda>_.
     bind_op (on_store (s_ListSubnets st (su_TenantID subj) SubnetFilter0)) (\<lambda>subs.
     bind_op (stats_loop st (su_TenantID subj) subs
       \<lparr>ts_TotalSubnets = 0, ts_TotalAddresses = 0, ts_UsedAddresses = 0, ts_AvailableAddresses = 0,
        ts_ReservedAddresses = 0\<rparr>) (\<lambda>acc.
     bind_op (on_store (s_ListAddresses st (su_TenantID subj) (AddressFilter0\<lparr>af_Status := IPReserved\<rparr>))) (\<lambda>reserved.
     let avail = wrap64 (ts_TotalAddresses acc - ts_UsedAddresses acc) in
     ret (acc\<lparr>ts_ReservedAddresses := int (length reserved),
        ts_AvailableAddresses := (if avail > 0 then avail else 0)\<rparr>)))))"

section \<open>Writes\<close>

definition create_subnet_defaults :: "env \<Rightarrow> Subjects \<Rightarrow> Subnet \<Rightarrow> Subnet" where
  "create_subnet_defaults e subj s = s\<lparr>
     sn_ID := (if sn_ID s = [] then env_ids e 0 else sn_ID s),
     sn_Status := (if sn_Status s = [] then SubnetActive else sn_Status s),
     sn_CreatedBy := (if sn_CreatedBy s = [] then ActorID subj else sn_CreatedBy s),
     sn_CreatedAt := (if sn_CreatedAt s = 0 then env_now e else sn_CreatedAt s)\<rparr>"

definition subnets_Create :: "'m Store \<Rightarrow> env \<Rightarrow> Subjects \<Rightarrow> Subnet \<Rightarrow> bool \<Rightarrow> ('m World, Subnet) op" where
  "subnets_Create st e subj in0 allowOverlap =
     bind_op (check (RequireTenant subj (su_TenantID subj))) (\<lambda>_.
     bind_op (check (if sn_Name in0 = [] then Inl (SubnetsValidation ''name required'' [])
       else deriveCIDR (dropLegacySNMP (in0\<lparr>sn_TenantID := su_TenantID subj\<rparr>)))) (\<lambda>in1.
     bind_op (check (checkGateway (sn_CIDR in1) (sn_Gateway in1))) (\<lambda>_.
     bind_op (if allowOverlap then ret ()
       else checkOverlap st (su_TenantID subj) (sn_CIDR in1) [] (sn_ParentID in1)) (\<lambda>_.
     let in2 = create_subnet_defaults e subj in1 in
     bind_op (map_err subnets_mapErr (on_store (s_CreateSubnet st (env_skip 1 e) in2))) (\<lambda>_.
     subnets_Get st subj (sn_ID in2))))))"

definition subnets_Update :: "'m Store \<Rightarrow> env \<Rightarrow> Subjects \<Rightarrow> Subnet \<Rightarrow> bool \<Rightarrow> ('m World, Subnet) op" where
  "subnets_Update st e subj in0 allowOverlap =
     bind_op (check (RequireTenant subj (su_TenantID subj))) (\<lambda>_.
     bind_op (map_err subnets_mapErr (on_store (s_GetSubnet st (su_TenantID subj) (sn_ID in0)))) (\<lambda>ex.
     bind_op (check (deriveCIDR (dropLegacySNMP (in0\<lparr>sn_TenantID := su_TenantID subj,
         sn_Name := (if sn_Name in0 = [] then sn_Name ex else sn_Name in0),
         sn_CIDR := (if sn_CIDR in0 = [] then sn_CIDR ex else sn_CIDR in0)\<rparr>)))) (\<lambda>in1.
     bind_op (check (checkGateway (sn_CIDR in1) (sn_Gateway in1))) (\<lambda>_.
     bind_op (if allowOverlap then ret ()
       else checkOverlap st (su_TenantID subj) (sn_CIDR in1) (sn_ID in1) (sn_ParentID in1)) (\<lambda>_.
     let in2 = in1\<lparr>sn_CreatedBy := sn_CreatedBy ex, sn_CreatedAt := sn_CreatedAt ex,
           sn_Status := (if sn_Status in1 = [] then sn_Status ex else sn_Status in1)\<rparr> in
     bind_op (map_err subnets_mapErr (on_store (s_UpdateSubnet st e in2))) (\<lambda>_.
     subnets_Get st subj (sn_ID in2)))))))"

definition subnets_Delete :: "'m Store \<Rightarrow> Subjects \<Rightarrow> string \<Rightarrow> bool \<Rightarrow> ('m World, unit) op" where
  "subnets_Delete st subj i force =
     bind_op (check (RequireTenant subj (su_TenantID subj))) (\<lambda>_.
     bind_op (if force then ret ()
       else bind_op (on_store (s_CountAddressesInSubnet st (su_TenantID subj) i)) (\<lambda>n.
         if n > 0 then throw SubnetsNotEmpty else ret ())) (\<lambda>_.
     map_err subnets_mapErr (on_store (s_DeleteSubnet st (su_TenantID subj) i force))))"

section \<open>Split\<close>

record SkippedBlock =
  sk_CIDR :: string
  sk_Reason :: string

record SplitResult =
  sp_Parent :: Subnet
  sp_Created :: "Subnet list"
  sp_Skipped :: "SkippedBlock list"

definition overlapsAny :: "string \<Rightarrow> string \<Rightarrow> Subnet list \<Rightarrow> string option" where
  "overlapsAny block parentID existing =
     map_option sn_CIDR (find (\<lambda>ex. \<not> (sn_ID ex = parentID \<or> sn_CIDR ex = []) \<and>
       Overlaps block (sn_CIDR ex) = Inr True) existing)"

definition split_child :: "Subnet \<Rightarrow> string \<Rightarrow> nat \<Rightarrow> nat \<Rightarrow> Subnet" where
  "split_child parent block i n = Subnet0\<lparr>
     sn_Name := sn_Name parent @ '' '' @ [CHR 0xE2, CHR 0x80, CHR 0x94] @ '' '' @ block, sn_CIDR := block,
     sn_Description := ''split '' @ itoa (i + 1) @ '' of '' @ itoa n @ '' from '' @ sn_CIDR parent,
     sn_ParentID := sn_ID parent, sn_VlanID := sn_VlanID parent, sn_LocationID := sn_LocationID parent,
     sn_Status := SubnetActive\<rparr>"

text \<open>The loop over the blocks: the index, the number of identifiers drawn, the known subnets and the
  result so far.\<close>

fun split_loop :: "'m Store \<Rightarrow> env \<Rightarrow> Subjects \<Rightarrow> Subnet \<Rightarrow> bool \<Rightarrow> nat \<Rightarrow> nat \<Rightarrow> Subnet list \<Rightarrow>
   SplitResult \<Rightarrow> string list \<Rightarrow> ('m World, SplitResult) op" where
  "split_loop st e subj parent dryRun n i existing res [] = ret res"
| "split_loop st e subj parent dryRun n i existing res (block # blocks) =
     (case overlapsAny block (sn_ID parent) existing of
        Some by \<Rightarrow> split_loop st e subj parent dryRun n (Suc i) existing
          (res\<lparr>sp_Skipped := sp_Skipped res @ [\<lparr>sk_CIDR = block, sk_Reason = ''overlaps '' @ by\<rparr>]\<rparr>) blocks
      | None \<Rightarrow>
          if dryRun then
            bind_op (check (deriveCIDR (split_child parent block i n))) (\<lambda>child.
            split_loop st e subj parent dryRun n (Suc i) existing
              (res\<lparr>sp_Created := sp_Created res @ [child]\<rparr>) blocks)
          else
            bind_op (subnets_Create st (env_skip (length (sp_Created res)) e) subj (split_child parent block i n) True)
              (\<lambda>created.
            split_loop st e subj parent dryRun n (Suc i)
              (existing @ [Subnet0\<lparr>sn_ID := sn_ID created, sn_CIDR := sn_CIDR created\<rparr>])
              (res\<lparr>sp_Created := sp_Created res @ [created]\<rparr>) blocks))"

definition Split :: "'m Store \<Rightarrow> env \<Rightarrow> Subjects \<Rightarrow> string \<Rightarrow> int \<Rightarrow> bool \<Rightarrow> ('m World, SplitResult \<times> goerr option) op" where
  "Split st e subj i prefixLen dryRun =
     bind_op (subnets_Get st subj i) (\<lambda>parent.
     case Subdivide (sn_CIDR parent) prefixLen of
       Inl _ \<Rightarrow> throw (SubnetsValidation ''cannot split %q into /%d: %v'' [sn_CIDR parent, itoa_int prefixLen])
     | Inr blocks \<Rightarrow>
         bind_op (on_store (s_AllSubnetCIDRs st (su_TenantID subj))) (\<lambda>existing.
         bind_op (split_loop st e subj parent dryRun (length blocks) 0 existing
           \<lparr>sp_Parent = parent, sp_Created = [], sp_Skipped = []\<rparr> blocks) (\<lambda>res.
         ret (res, if sp_Created res = []
           then Some (SubnetsValidation ''no free /%d block inside %s'' [itoa_int prefixLen, sn_CIDR parent])
           else None))))"

section \<open>Credentials\<close>

record SNMPOwn =
  so_Version :: int
  so_SecurityLevel :: string
  so_AuthProtocol :: string
  so_PrivProtocol :: string
  so_Weak :: bool
  so_UpdatedBy :: string
  so_UpdatedAt :: time

record SNMPStatus =
  sst_Own :: "SNMPOwn option"
  sst_Effective :: SNMPSummary

definition GetSNMP :: "'m Store \<Rightarrow> Subjects \<Rightarrow> string \<Rightarrow> ('m World, SNMPStatus) op" where
  "GetSNMP st subj subnetID =
     bind_op (check (RequireTenant subj (su_TenantID subj))) (\<lambda>_.
     bind_op (map_err subnets_mapErr (on_store (s_GetSubnet st (su_TenantID subj) subnetID))) (\<lambda>_.
     bind_op (SNMPIndex st (su_TenantID subj)) (\<lambda>idx.
     ret \<lparr>sst_Own = map_option (\<lambda>r. \<lparr>so_Version = sc_Version r, so_SecurityLevel = sc_SecurityLevel r,
            so_AuthProtocol = sc_AuthProtocol r, so_PrivProtocol = sc_PrivProtocol r,
            so_Weak = Meta_Weak (MetaOf r), so_UpdatedBy = sc_UpdatedBy r, so_UpdatedAt = sc_UpdatedAt r\<rparr>)
            (Own idx subnetID),
          sst_Effective = fst (Effective idx subnetID)\<rparr>)))"

text \<open>The error of \<open>audit.Row\<close> is dropped; the row is then the zero value.\<close>

definition snmpAudit :: "env \<Rightarrow> Subjects \<Rightarrow> string \<Rightarrow> string \<Rightarrow> any tbl \<Rightarrow> AuditRow" where
  "snmpAudit e subj t subnetID detail =
     (case audit_Row e \<lparr>ae_TenantID = su_TenantID subj, ae_EventType = t, ae_ActorKind = ''user'',
         ae_ActorID = ActorID subj, ae_SubjectKind = ''subnet'', ae_SubjectID = subnetID, ae_Target = [],
         ae_Outcome = ''ok'', ae_Reason = [], ae_Details = detail\<rparr> (env_now e) of
        Inl _ \<Rightarrow> AuditRow0
      | Inr row \<Rightarrow> row)"

definition set_snmp_row :: "Subjects \<Rightarrow> string \<Rightarrow> SnmpInput \<Rightarrow> byte list \<Rightarrow> SubnetSNMP" where
  "set_snmp_row subj subnetID i blob = (let m = Input_Meta i in
     \<lparr>sc_TenantID = su_TenantID subj, sc_SubnetID = subnetID, sc_Version = mt_Version m,
      sc_SecurityLevel = mt_SecurityLevel m, sc_AuthProtocol = mt_AuthProtocol m,
      sc_PrivProtocol = mt_PrivProtocol m, sc_Sealed = blob, sc_UpdatedBy = ActorID subj, sc_UpdatedAt = 0\<rparr>)"

definition set_snmp_audit :: "env \<Rightarrow> Subjects \<Rightarrow> string \<Rightarrow> SnmpInput \<Rightarrow> SubnetSNMP option \<Rightarrow> AuditRow" where
  "set_snmp_audit e subj subnetID i prev =
     (let m = Input_Meta i;
          detail = [(''protocol_version'', AnyInt (mt_Version m)), (''security_level'', AnyStr (mt_SecurityLevel m))] in
      case prev of
        None \<Rightarrow> snmpAudit e subj SNMPCredentialsSet subnetID detail
      | Some p \<Rightarrow> snmpAudit e subj SNMPCredentialsReplaced subnetID
          (detail @ [(''previous_version'', AnyInt (sc_Version p))]))"

text \<open>Reading the previous credentials: not found is not an error.\<close>

definition prev_snmp :: "'m Store \<Rightarrow> string \<Rightarrow> string \<Rightarrow> ('m World, SubnetSNMP option) op" where
  "prev_snmp st tid subnetID w = (case on_store (s_GetSubnetSNMP st tid subnetID) w of
       (Inl err, w') \<Rightarrow> (if err = RepoNotFound then Inr None else Inl err, w')
     | (Inr p, w') \<Rightarrow> (Inr (Some p), w'))"

definition SetSNMP :: "'m Store \<Rightarrow> (string \<Rightarrow> string \<Rightarrow> SnmpInput \<Rightarrow> byte list res) \<Rightarrow> env \<Rightarrow> Subjects \<Rightarrow> string \<Rightarrow>
   SnmpInput \<Rightarrow> ('m World, SNMPStatus) op" where
  "SetSNMP st seal e subj subnetID i =
     bind_op (check (RequireTenant subj (su_TenantID subj))) (\<lambda>_.
     bind_op (check (snmp_Validate i)) (\<lambda>_.
     bind_op (map_err subnets_mapErr (on_store (s_GetSubnet st (su_TenantID subj) subnetID))) (\<lambda>_.
     bind_op (prev_snmp st (su_TenantID subj) subnetID) (\<lambda>prev.
     bind_op (check (seal (su_TenantID subj) subnetID i)) (\<lambda>blob.
     bind_op (map_err subnets_mapErr (on_store (s_PutSubnetSNMP st (env_skip 1 e) (set_snmp_row subj subnetID i blob)
       (set_snmp_audit e subj subnetID i prev)))) (\<lambda>_.
     GetSNMP st subj subnetID))))))"

definition ClearSNMP :: "'m Store \<Rightarrow> env \<Rightarrow> Subjects \<Rightarrow> string \<Rightarrow> ('m World, unit) op" where
  "ClearSNMP st e subj subnetID =
     bind_op (check (RequireTenant subj (su_TenantID subj))) (\<lambda>_.
     bind_op (map_err subnets_mapErr (on_store (s_GetSubnet st (su_TenantID subj) subnetID))) (\<lambda>_.
     bind_op (prev_snmp st (su_TenantID subj) subnetID) (\<lambda>prev.
     case prev of
       None \<Rightarrow> ret ()
     | Some p \<Rightarrow> (\<lambda>w.
         case on_store (s_DeleteSubnetSNMP st (env_skip 1 e) (su_TenantID subj) subnetID
             (snmpAudit e subj SNMPCredentialsCleared subnetID [(''previous_version'', AnyInt (sc_Version p))])) w of
           (Inl err, w') \<Rightarrow> (if err = RepoNotFound then Inr () else Inl err, w')
         | (Inr _, w') \<Rightarrow> (Inr (), w')))))"


section \<open>Parent chains\<close>

fun anc :: "Subnet tbl \<Rightarrow> nat \<Rightarrow> string \<Rightarrow> string" where
  "anc byID 0 i = i"
| "anc byID (Suc k) i = anc byID k (parent_of byID i)"

text \<open>\<open>lies_above byID p x\<close>: going up from \<open>p\<close>, \<open>p\<close> included, one meets \<open>x\<close>.\<close>

definition lies_above :: "Subnet tbl \<Rightarrow> string \<Rightarrow> string \<Rightarrow> bool" where
  "lies_above byID p x = (\<exists>k. anc byID k p = x \<and> (\<forall>j \<le> k. anc byID j p \<noteq> []))"

lemma lies_above_unfold:
  "lies_above byID i x \<longleftrightarrow> i \<noteq> [] \<and> (x = i \<or> lies_above byID (parent_of byID i) x)"
proof
  assume "lies_above byID i x"
  then obtain k where k: "anc byID k i = x" "\<forall>j \<le> k. anc byID j i \<noteq> []"
    by (auto simp: lies_above_def)
  then have "i \<noteq> []"
    using k(2) [rule_format, of 0] by simp
  moreover have "lies_above byID (parent_of byID i) x" if n: "k = Suc n" for n
  proof -
    have "anc byID j (parent_of byID i) \<noteq> []" if "j \<le> n" for j
      using k(2) [rule_format, of "Suc j"] that n by simp
    then show ?thesis
      unfolding lies_above_def using k(1) n by (intro exI [of _ n]) simp
  qed
  ultimately show "i \<noteq> [] \<and> (x = i \<or> lies_above byID (parent_of byID i) x)"
    using k(1) by (cases k) auto
next
  assume r: "i \<noteq> [] \<and> (x = i \<or> lies_above byID (parent_of byID i) x)"
  show "lies_above byID i x"
  proof (cases "x = i")
    case True
    with r show ?thesis
      unfolding lies_above_def by (intro exI [of _ 0]) simp
  next
    case False
    with r obtain k where k: "anc byID k (parent_of byID i) = x" "\<forall>j \<le> k. anc byID j (parent_of byID i) \<noteq> []"
      by (auto simp: lies_above_def)
    have "anc byID j i \<noteq> []" if "j \<le> Suc k" for j
      using that k(2) r by (cases j) auto
    with k(1) show ?thesis
      unfolding lies_above_def by (intro exI [of _ "Suc k"]) simp
  qed
qed

definition chain_closed :: "Subnet tbl \<Rightarrow> string list \<Rightarrow> string \<Rightarrow> bool" where
  "chain_closed byID seen i =
     (\<forall>s \<in> set seen. parent_of byID s \<in> set seen \<or> parent_of byID s = i \<or> parent_of byID s = [])"

lemma chain_in_seen:
  assumes "chain_closed byID seen i" and "i \<in> set seen"
  shows "s \<in> set seen \<Longrightarrow> \<forall>j \<le> k. anc byID j s \<noteq> [] \<Longrightarrow> anc byID k s \<in> set seen"
proof (induction k arbitrary: s)
  case (Suc k)
  have "parent_of byID s \<noteq> []"
    using Suc.prems(2) [rule_format, of 1] by simp
  then have "parent_of byID s \<in> set seen"
    using assms Suc.prems(1) by (auto simp: chain_closed_def)
  moreover have "\<forall>j \<le> k. anc byID j (parent_of byID s) \<noteq> []"
    using Suc.prems(2) by (auto dest: spec [of _ "Suc _"])
  ultimately show ?case
    using Suc.IH by simp
qed simp

lemma above_spec:
  "chain_closed byID seen i \<Longrightarrow> set (above byID seen i) = set seen \<union> {x. lies_above byID i x}"
proof (induction byID seen i rule: above.induct)
  case (1 byID seen i)
  consider "i = []" | "i \<in> set seen" | "i \<noteq> []" "i \<notin> set seen"
    by blast
  then show ?case
  proof cases
    case 1
    then show ?thesis
      by (subst above.simps) (auto simp: lies_above_unfold [of byID "[]"])
  next
    case 2
    then have "x \<in> set seen" if "lies_above byID i x" for x
      using that chain_in_seen [OF "1.prems" 2 2] by (auto simp: lies_above_def)
    with 2 show ?thesis
      by (subst above.simps) auto
  next
    case 3
    then have "chain_closed byID (i # seen) (parent_of byID i)"
      using "1.prems" by (auto simp: chain_closed_def)
    then show ?thesis
      using "1.IH" 3 lies_above_unfold [of byID i] by (subst above.simps) auto
  qed
qed

lemma above_start: "set (above byID [] p) = {x. lies_above byID p x}"
  using above_spec [of byID "[]" p] by (simp add: chain_closed_def)

section \<open>Overlap\<close>

lemma overlap_scan_ok: "overlap_scan cidr selfID nested exs = Inr () \<longleftrightarrow>
    (\<forall>ex \<in> set exs. sn_ID ex \<noteq> selfID \<longrightarrow> sn_CIDR ex \<noteq> [] \<longrightarrow> Overlaps cidr (sn_CIDR ex) = Inr True \<longrightarrow>
       sn_ID ex \<in> set nested)"
  by (induction exs) auto

lemma nestedWith_new:
  "nestedWith byID cidr [] parentID = Inr nested \<Longrightarrow>
     set nested = {x. lies_above byID parentID x} \<and>
     (parentID \<noteq> [] \<longrightarrow> (\<exists>p. tget byID parentID = Some p \<and> Within cidr (sn_CIDR p)))"
  by (auto simp: nestedWith_def above_start lies_above_unfold [of byID "[]"] split: if_splits option.splits)

lemma tget_by_id: "tget (by_id subs) i = Some s \<Longrightarrow> s \<in> set subs \<and> sn_ID s = i"
proof -
  have "tget (fold (\<lambda>s. tput (sn_ID s) s) subs t) i = Some s \<Longrightarrow> s \<in> set subs \<and> sn_ID s = i \<or> tget t i = Some s" for t
  proof (induction subs arbitrary: t)
    case (Cons a subs)
    then show ?case
      using Cons.IH [of "tput (sn_ID a) a t"] by (auto split: if_splits)
  qed simp
  then show "tget (by_id subs) i = Some s \<Longrightarrow> s \<in> set subs \<and> sn_ID s = i"
    unfolding by_id_def by fastforce
qed

lemma deriveCIDR_keeps: "deriveCIDR s = Inr s' \<Longrightarrow> sn_CIDR s' = sn_CIDR s \<and> sn_ParentID s' = sn_ParentID s \<and>
    sn_ID s' = sn_ID s \<and> sn_Name s' = sn_Name s \<and> sn_Gateway s' = sn_Gateway s \<and> sn_TenantID s' = sn_TenantID s"
  by (auto simp: deriveCIDR_def split: sum.splits)

lemma dropLegacySNMP_simps [simp]:
  "sn_CIDR (dropLegacySNMP s) = sn_CIDR s" "sn_ParentID (dropLegacySNMP s) = sn_ParentID s"
  "sn_ID (dropLegacySNMP s) = sn_ID s" "sn_Name (dropLegacySNMP s) = sn_Name s"
  "sn_TenantID (dropLegacySNMP s) = sn_TenantID s" "sn_Gateway (dropLegacySNMP s) = sn_Gateway s"
  by (simp_all add: dropLegacySNMP_def)

lemma subnets_Create_checked:
  assumes "subnets_Create mem_store e subj s False w = (Inr r, w')"
    and "AllSubnetCIDRs (su_TenantID subj) (w_store w) = (Inr existing, w_store w)"
  shows "check_overlap existing (sn_CIDR s) [] (sn_ParentID s) = Inr ()"
  using assms
  by (auto simp: subnets_Create_def op_success checkOverlap_def dest!: deriveCIDR_keeps split: if_splits)

text \<open>C18. A subnet created without the overlap option overlaps no other subnet of the tenant except the
  chain of subnets above its declared parent, and it lies strictly inside that parent, which
  exists.\<close>

theorem Create_respects_hierarchy:
  assumes "subnets_Create mem_store e subj s False w = (Inr r, w')"
    and "AllSubnetCIDRs (su_TenantID subj) (w_store w) = (Inr existing, w_store w)"
  shows "(\<forall>ex \<in> set existing. sn_ID ex \<noteq> [] \<longrightarrow> sn_CIDR ex \<noteq> [] \<longrightarrow> Overlaps (sn_CIDR s) (sn_CIDR ex) = Inr True \<longrightarrow>
      lies_above (by_id existing) (sn_ParentID s) (sn_ID ex)) \<and>
    (sn_ParentID s \<noteq> [] \<longrightarrow> (\<exists>p \<in> set existing. sn_ID p = sn_ParentID s \<and> Within (sn_CIDR s) (sn_CIDR p)))"
proof -
  obtain nested where n: "nestedWith (by_id existing) (sn_CIDR s) [] (sn_ParentID s) = Inr nested"
    and o: "overlap_scan (sn_CIDR s) [] nested existing = Inr ()"
    using subnets_Create_checked [OF assms] by (auto simp: check_overlap_def split: sum.splits)
  show ?thesis
    using nestedWith_new [OF n] o [unfolded overlap_scan_ok] tget_by_id [of existing "sn_ParentID s"] by fastforce
qed

definition example_child :: Subnet where
  "example_child = Subnet0\<lparr>sn_ID := ''c'', sn_Name := ''child'', sn_CIDR := ''10.0.0.4/30'', sn_ParentID := ''net''\<rparr>"

lemma AllSubnetCIDRs_able: "''AllSubnetCIDRs'' \<notin> set (m_failNext m) \<Longrightarrow>
    AllSubnetCIDRs t m = (Inr (sort_desc sn_ID (filter (\<lambda>s. sn_TenantID s = t) (tvals (m_subnets m)))), m)"
  by (simp add: AllSubnetCIDRs_def guarded_def mfail_def paginate_all)

lemma example_mem_able: "m_failNext example_mem = []"
  by code_simp

lemma ListSubnetSNMP_able: "''ListSubnetSNMP'' \<notin> set (m_failNext m) \<Longrightarrow> \<exists>rows. ListSubnetSNMP t m = (Inr rows, m)"
  by (simp add: ListSubnetSNMP_def guarded_def mfail_def)

lemma withSNMP_able: "m_failNext (w_store w) = [] \<Longrightarrow> \<exists>idx. withSNMP mem_store t subs w = (Inr (map (with_effective idx) subs), w)"
  using ListSubnetSNMP_able [of "w_store w" t]
  by (auto simp: withSNMP_def SNMPIndex_def bind_op_def on_store_def ret_def AllSubnetCIDRs_able)

lemma subnets_fill_able: "\<exists>n. subnets_fill mem_store t s w = (Inr (fill_counts n s), w)"
  by (auto simp: subnets_fill_def on_store_def CountAddressesInSubnet_def)

lemma subnets_Get_able:
  assumes "m_failNext (w_store w) = []" and "su_TenantID subj \<noteq> []"
    and "tenant_row sn_TenantID (su_TenantID subj) i (m_subnets (w_store w)) = Some s"
  shows "\<exists>r. subnets_Get mem_store subj i w = (Inr r, w) \<and> sn_CIDR r = sn_CIDR s \<and> sn_ID r = sn_ID s"
proof -
  obtain n where "subnets_fill mem_store (su_TenantID subj) (fillSubnet (w_store w) s) w =
      (Inr (fill_counts n (fillSubnet (w_store w) s)), w)"
    using subnets_fill_able by blast
  moreover obtain idx where "withSNMP mem_store (su_TenantID subj) [fill_counts n (fillSubnet (w_store w) s)] w =
      (Inr (map (with_effective idx) [fill_counts n (fillSubnet (w_store w) s)]), w)"
    using withSNMP_able [OF assms(1)] by blast
  ultimately show ?thesis
    using assms(2,3)
    by (simp add: subnets_Get_def bind_op_def check_def RequireTenant_def map_err_def on_store_def GetSubnet_def ret_def)
      (simp add: fillSubnet_def fill_counts_def with_effective_def Let_def)
qed

lemma subnets_Create_able:
  assumes "m_failNext (w_store w) = []" and "su_TenantID subj \<noteq> []" and "sn_Name s \<noteq> []" and "sn_ID s \<noteq> []"
    and "Parse (sn_CIDR s) = Inr info" and "sn_Gateway s = []"
    and "\<not> list_ex (\<lambda>ex. sn_TenantID ex = su_TenantID subj \<and> sn_Name ex = sn_Name s) (tvals (m_subnets (w_store w)))"
    and "AllSubnetCIDRs (su_TenantID subj) (w_store w) = (Inr existing, w_store w)"
    and "check_overlap existing (sn_CIDR s) [] (sn_ParentID s) = Inr ()"
  shows "\<exists>r w'. subnets_Create mem_store e subj s False w = (Inr r, w')"
proof -
  obtain s1 where s1: "deriveCIDR (dropLegacySNMP (s\<lparr>sn_TenantID := su_TenantID subj\<rparr>)) = Inr s1"
    using assms(5) by (simp add: deriveCIDR_def)
  have keeps: "sn_CIDR s1 = sn_CIDR s" "sn_ParentID s1 = sn_ParentID s" "sn_ID s1 = sn_ID s" "sn_Name s1 = sn_Name s"
      "sn_Gateway s1 = []" "sn_TenantID s1 = su_TenantID subj"
    using deriveCIDR_keeps [OF s1] assms(6) by simp_all
  define s2 where "s2 = create_subnet_defaults e subj s1"
  have s2: "sn_ID s2 = sn_ID s" "sn_Name s2 = sn_Name s" "sn_TenantID s2 = su_TenantID subj"
    using keeps assms(4) by (simp_all add: s2_def create_subnet_defaults_def)
  obtain row where c: "CreateSubnet (env_skip 1 e) s2 (w_store w) =
      (Inr (), w_store w\<lparr>m_subnets := tput (sn_ID s) row (m_subnets (w_store w))\<rparr>)" and "sn_TenantID row = su_TenantID subj"
    using assms(1,4,7) s2 by (simp add: CreateSubnet_def guarded_def mfail_def Let_def)
  then obtain r where "subnets_Get mem_store subj (sn_ID s)
      (w\<lparr>w_store := w_store w\<lparr>m_subnets := tput (sn_ID s) row (m_subnets (w_store w))\<rparr>\<rparr>) =
      (Inr r, w\<lparr>w_store := w_store w\<lparr>m_subnets := tput (sn_ID s) row (m_subnets (w_store w))\<rparr>\<rparr>)"
    using subnets_Get_able [of "w\<lparr>w_store := w_store w\<lparr>m_subnets := tput (sn_ID s) row (m_subnets (w_store w))\<rparr>\<rparr>" subj "sn_ID s" row]
      assms(1,2) by (auto simp: tenant_row_def)
  then show ?thesis
    using assms(2,3,8,9) s1 keeps c s2(1)
    by (simp add: subnets_Create_def bind_op_def check_def RequireTenant_def checkGateway_def checkOverlap_def on_store_def
        map_err_def ret_def flip: s2_def)
qed

lemma example_child_fits: "check_overlap (sort_desc sn_ID (filter (\<lambda>s. sn_TenantID s = ''t'') (tvals (m_subnets example_mem))))
    ''10.0.0.4/30'' [] ''net'' = Inr ()"
  by code_simp

lemma example_child_parses: "\<exists>info. Parse ''10.0.0.4/30'' = Inr info"
proof -
  have "\<not> isl (Parse ''10.0.0.4/30'')"
    by code_simp
  then show ?thesis
    by (cases "Parse ''10.0.0.4/30''") auto
qed

lemma example_child_new: "\<not> list_ex (\<lambda>ex. sn_TenantID ex = ''t'' \<and> sn_Name ex = ''child'') (tvals (m_subnets example_mem))"
  by code_simp

theorem Create_respects_hierarchy_witness:
  "\<exists>p \<in> set (tvals (m_subnets example_mem)). sn_ID p = ''net'' \<and> Within ''10.0.0.4/30'' (sn_CIDR p)"
proof -
  let ?all = "sort_desc sn_ID (filter (\<lambda>s. sn_TenantID s = ''t'') (tvals (m_subnets example_mem)))"
  have all: "AllSubnetCIDRs ''t'' example_mem = (Inr ?all, example_mem)"
    by (simp add: AllSubnetCIDRs_able example_mem_able)
  obtain info where info: "Parse ''10.0.0.4/30'' = Inr info"
    using example_child_parses by blast
  obtain r w' where "subnets_Create mem_store env0 example_subjects example_child False example_world = (Inr r, w')"
    using subnets_Create_able [of example_world example_subjects example_child info ?all env0] all info example_child_fits
      example_child_new
    by (auto simp: example_mem_able example_subjects_def example_child_def Subnet0_def)
  from Create_respects_hierarchy [OF this, of ?all] show ?thesis
    using all by (auto simp: example_subjects_def example_child_def)
qed

section \<open>The tree\<close>

lemma fill_counts_simps [simp]: "sn_ID (fill_counts n s) = sn_ID s" "sn_ParentID (fill_counts n s) = sn_ParentID s"
  "sn_CIDR (fill_counts n s) = sn_CIDR s"
  by (simp_all add: fill_counts_def Let_def)

lemma with_effective_simps [simp]: "sn_ID (with_effective idx s) = sn_ID s"
  "sn_ParentID (with_effective idx s) = sn_ParentID s" "sn_CIDR (with_effective idx s) = sn_CIDR s"
  by (simp_all add: with_effective_def Let_def)

lemma subnets_fill_keys: "subnets_fill st t s w = (Inr s', w') \<Longrightarrow>
    sn_ID s' = sn_ID s \<and> sn_ParentID s' = sn_ParentID s \<and> sn_CIDR s' = sn_CIDR s"
  by (auto simp: subnets_fill_def split: prod.splits sum.splits)

definition subnet_keys :: "Subnet \<Rightarrow> string \<times> string" where
  "subnet_keys s = (sn_ID s, sn_ParentID s)"

lemma with_effective_keys [simp]: "subnet_keys (with_effective idx s) = subnet_keys s"
  by (simp add: subnet_keys_def)

lemma fill_all_keys: "fill_all st t subs w = (Inr subs', w') \<Longrightarrow> map subnet_keys subs' = map subnet_keys subs"
  by (induction subs arbitrary: w subs' w')
    (auto simp: op_success subnet_keys_def dest!: subnets_fill_keys)

text \<open>Whether a row is below a root depends on the identifiers and parents only.\<close>

lemma rooted_map:
  assumes "\<And>x. idf (f x) = idg x" and "\<And>x. par (f x) = pag x"
  shows "rooted idf par (map f rows) (f n) \<longleftrightarrow> f n \<in> f ` set rows \<and> (\<exists>d r. up idg pag rows d n = Some r \<and>
    parent_row idg pag rows r = None)"
proof -
  have find: "find_row idf (map f rows) i = map_option f (find_row idg rows i)" for i
    by (induction rows) (simp_all add: find_row_def assms)
  then have par: "parent_row idf par (map f rows) (f x) = map_option f (parent_row idg pag rows x)" for x
    by (simp add: parent_row_def assms)
  have up: "up idf par (map f rows) d (f x) = map_option f (up idg pag rows d x)" for d x
    by (induction d arbitrary: x) (auto simp: par split: option.splits)
  have "(\<exists>r. up idf par (map f rows) d (f n) = Some r \<and> parent_row idf par (map f rows) r = None) \<longleftrightarrow>
      (\<exists>r. up idg pag rows d n = Some r \<and> parent_row idg pag rows r = None)" for d
    unfolding up by (cases "up idg pag rows d n") (simp_all add: par)
  then show ?thesis
    by (simp add: rooted_def at_depth_def)
qed

lemma rooted_keys:
  "rooted sn_ID sn_ParentID subs s \<Longrightarrow> rooted fst snd (map subnet_keys subs) (subnet_keys s)"
  "s \<in> set subs \<Longrightarrow> rooted fst snd (map subnet_keys subs) (subnet_keys s) \<Longrightarrow> rooted sn_ID sn_ParentID subs s"
  using rooted_map [of fst subnet_keys sn_ID snd sn_ParentID subs s]
  by (auto simp: subnet_keys_def rooted_def at_depth_def)

lemma forest_ids:
  assumes keys: "map subnet_keys all = map subnet_keys rows" and dist: "distinct (map sn_ID rows)"
  shows "distinct (map sn_ID (rows_in (forest sn_ID sn_ParentID all))) \<and>
    sn_ID ` set (rows_in (forest sn_ID sn_ParentID all)) =
      {sn_ID s | s. s \<in> set rows \<and> rooted sn_ID sn_ParentID rows s}"
proof -
  have "map sn_ID all = map sn_ID rows"
    using arg_cong [OF keys, of "map fst"] by (simp add: subnet_keys_def comp_def)
  then have d: "distinct (map sn_ID all)"
    using dist by simp
  have mem: "(\<exists>n \<in> set all. subnet_keys n = x) \<longleftrightarrow> (\<exists>s \<in> set rows. subnet_keys s = x)" for x
  proof -
    have "(\<exists>n \<in> set l. subnet_keys n = x) \<longleftrightarrow> x \<in> set (map subnet_keys l)" for l
      by auto
    then show ?thesis
      by (simp only: keys)
  qed
  have "sn_ID ` {n \<in> set all. rooted sn_ID sn_ParentID all n} =
      fst ` {x. (\<exists>n \<in> set all. subnet_keys n = x) \<and> rooted fst snd (map subnet_keys all) x}"
    by (force simp: subnet_keys_def image_iff dest: rooted_keys)
  also have "\<dots> = fst ` {x. (\<exists>s \<in> set rows. subnet_keys s = x) \<and> rooted fst snd (map subnet_keys rows) x}"
    unfolding mem keys ..
  also have "\<dots> = {sn_ID s | s. s \<in> set rows \<and> rooted sn_ID sn_ParentID rows s}"
    by (force simp: subnet_keys_def image_iff dest: rooted_keys)
  finally have "sn_ID ` set (rows_in (forest sn_ID sn_ParentID all)) =
      {sn_ID s | s. s \<in> set rows \<and> rooted sn_ID sn_ParentID rows s}"
    unfolding rows_in_forest(1) [OF d] .
  moreover have "inj_on sn_ID (set (rows_in (forest sn_ID sn_ParentID all)))"
    using d by (auto simp: rows_in_forest(1) [OF d] distinct_map inj_on_def)
  ultimately show ?thesis
    using rows_in_forest(2) [OF d, of sn_ParentID] by (simp add: distinct_map)
qed

lemma distinct_ids_sort_desc: "distinct (map idf xs) \<Longrightarrow> distinct (map idf (sort_desc idf xs))"
  by (simp add: sort_desc_def distinct_map)

lemma distinct_ids_paginate:
  assumes "distinct (map idf xs)"
  shows "distinct (map idf (paginate idf cursor limit xs))"
proof -
  have "distinct (map idf (filter P (sort_desc idf xs)))" for P
    by (rule distinct_map_filter [OF distinct_ids_sort_desc [OF assms]])
  moreover have "distinct (map idf (take n ys))" if "distinct (map idf ys)" for n ys
    using distinct_take [OF that, of n] by (simp add: take_map)
  ultimately show ?thesis
    using distinct_ids_sort_desc [OF assms] by (simp add: paginate_def Let_def)
qed

lemma ListSubnets_distinct:
  assumes "mem_wf m" and "ListSubnets t f m = (Inr rows, m')"
  shows "distinct (map sn_ID rows)"
proof -
  let ?p = "paginate sn_ID (sf_CursorID f) (sf_Limit f) (filter (\<lambda>s. sn_TenantID s = t \<and> subnet_matches f s) (tvals (m_subnets m)))"
  have "distinct (map sn_ID (tvals (m_subnets m)))"
    using assms(1) by (intro distinct_ids) (auto simp: wf_defs)
  then have "distinct (map sn_ID ?p)"
    by (intro distinct_ids_paginate distinct_map_filter)
  moreover have "rows = map (fillSubnet m) ?p"
    using assms(2) by (auto simp: ListSubnets_def)
  moreover have "sn_ID \<circ> fillSubnet m = sn_ID"
    by (rule ext) (simp add: fillSubnet_def Let_def)
  ultimately show ?thesis
    by simp
qed

lemma fill_all_able: "\<exists>subs'. fill_all mem_store t subs w = (Inr subs', w)"
proof (induction subs)
  case (Cons s subs)
  then show ?case
    using subnets_fill_able [of t s w] by (auto simp: bind_op_def ret_def)
qed (simp add: ret_def)

lemma GetTree_run:
  assumes "m_failNext (w_store w) = []" and "su_TenantID subj \<noteq> []"
    and list: "ListSubnets (su_TenantID subj) SubnetFilter0 (w_store w) = (Inr rows, w_store w)"
  shows "\<exists>all. subnets_GetTree mem_store subj w = (Inr (forest sn_ID sn_ParentID all), w) \<and>
    map subnet_keys all = map subnet_keys rows"
proof -
  obtain filled where f: "fill_all mem_store (su_TenantID subj) rows w = (Inr filled, w)"
    using fill_all_able by blast
  obtain idx where w: "withSNMP mem_store (su_TenantID subj) filled w = (Inr (map (with_effective idx) filled), w)"
    using withSNMP_able [OF assms(1)] by blast
  have "subnets_GetTree mem_store subj w = (Inr (forest sn_ID sn_ParentID (map (with_effective idx) filled)), w)"
    using f w list assms(2)
    by (simp add: subnets_GetTree_def bind_op_def check_def RequireTenant_def on_store_def ret_def)
  moreover have "map subnet_keys (map (with_effective idx) filled) = map subnet_keys rows"
    using fill_all_keys [OF f] by (simp add: comp_def)
  ultimately show ?thesis
    by blast
qed

text \<open>C22. The tree shows every subnet of the tenant whose chain of parents ends, once: the call returns,
  the identifiers in the tree are distinct, and they are exactly those of the listed subnets from
  which following the parents reaches a subnet without a parent in the list.\<close>

theorem GetTree_complete:
  assumes "mem_wf (w_store w)" and "m_failNext (w_store w) = []" and "su_TenantID subj \<noteq> []"
    and "ListSubnets (su_TenantID subj) SubnetFilter0 (w_store w) = (Inr rows, w_store w)"
  shows "\<exists>ns. subnets_GetTree mem_store subj w = (Inr ns, w) \<and> distinct (map sn_ID (rows_in ns)) \<and>
    sn_ID ` set (rows_in ns) = {sn_ID s | s. s \<in> set rows \<and> rooted sn_ID sn_ParentID rows s}"
  using GetTree_run [OF assms(2-4)] forest_ids [OF _ ListSubnets_distinct [OF assms(1,4)]] by blast

lemma example_list: "\<exists>s. ListSubnets ''t'' SubnetFilter0 example_mem = (Inr [s], example_mem) \<and> sn_ID s = ''net'' \<and>
    sn_ParentID s = []"
proof -
  have "(case ListSubnets ''t'' SubnetFilter0 example_mem of
      (Inr [s], _) \<Rightarrow> sn_ID s = ''net'' \<and> sn_ParentID s = [] | _ \<Rightarrow> False)"
    by code_simp
  then show ?thesis
    by (auto simp: ListSubnets_def split: list.splits)
qed

theorem GetTree_complete_witness:
  "\<exists>ns. subnets_GetTree mem_store example_subjects example_world = (Inr ns, example_world) \<and>
     sn_ID ` set (rows_in ns) = {''net''}"
proof -
  obtain s where s: "ListSubnets ''t'' SubnetFilter0 example_mem = (Inr [s], example_mem)" "sn_ID s = ''net''"
      "sn_ParentID s = []"
    using example_list by blast
  have "rooted sn_ID sn_ParentID [s] s"
    unfolding rooted_def at_depth_def by (intro exI [of _ 0]) (simp add: s parent_row_def)
  then have "{sn_ID s' | s'. s' \<in> set [s] \<and> rooted sn_ID sn_ParentID [s] s'} = {''net''}"
    using s(2) by auto
  then show ?thesis
    using GetTree_complete [of example_world example_subjects "[s]"] s(1)
    by (auto simp: example_mem_wf example_mem_able example_subjects_def)
qed

section \<open>A cycle of parents\<close>

lemma subnets_Update_able:
  assumes able: "m_failNext (w_store w) = []" "su_TenantID subj \<noteq> []"
    and ex: "tenant_row sn_TenantID (su_TenantID subj) (sn_ID s) (m_subnets (w_store w)) = Some ex"
    and s: "sn_Name s \<noteq> []" "sn_CIDR s \<noteq> []" "Parse (sn_CIDR s) = Inr info" "sn_Gateway s = []"
    and new: "\<not> list_ex (\<lambda>x. sn_ID x \<noteq> sn_ID s \<and> sn_TenantID x = su_TenantID subj \<and> sn_Name x = sn_Name s)
      (tvals (m_subnets (w_store w)))"
    and fits: "AllSubnetCIDRs (su_TenantID subj) (w_store w) = (Inr existing, w_store w)"
      "check_overlap existing (sn_CIDR s) (sn_ID s) (sn_ParentID s) = Inr ()"
  shows "\<exists>r row. subnets_Update mem_store e subj s False w =
      (Inr r, w\<lparr>w_store := w_store w\<lparr>m_subnets := tput (sn_ID s) row (m_subnets (w_store w))\<rparr>\<rparr>) \<and>
    sn_ID row = sn_ID s \<and> sn_ParentID row = sn_ParentID s \<and> sn_TenantID row = su_TenantID subj"
proof -
  obtain s1 where s1: "deriveCIDR (dropLegacySNMP (s\<lparr>sn_TenantID := su_TenantID subj\<rparr>)) = Inr s1"
    using s(3) by (simp add: deriveCIDR_def)
  have keeps: "sn_CIDR s1 = sn_CIDR s" "sn_ParentID s1 = sn_ParentID s" "sn_ID s1 = sn_ID s" "sn_Name s1 = sn_Name s"
      "sn_Gateway s1 = []" "sn_TenantID s1 = su_TenantID subj"
    using deriveCIDR_keeps [OF s1] s(4) by simp_all
  let ?ex = "fillSubnet (w_store w) ex"
  define s2 where "s2 = s1\<lparr>sn_CreatedBy := sn_CreatedBy ?ex, sn_CreatedAt := sn_CreatedAt ?ex,
           sn_Status := (if sn_Status s1 = [] then sn_Status ?ex else sn_Status s1)\<rparr>"
  have s2: "sn_ID s2 = sn_ID s" "sn_Name s2 = sn_Name s" "sn_TenantID s2 = su_TenantID subj" "sn_ParentID s2 = sn_ParentID s"
    using keeps by (simp_all add: s2_def)
  define row where "row = s2\<lparr>sn_CreatedAt := sn_CreatedAt ex, sn_Origin := sn_Origin ex, sn_UpdatedAt := env_mnow e\<rparr>"
  have row: "sn_ID row = sn_ID s" "sn_ParentID row = sn_ParentID s" "sn_TenantID row = su_TenantID subj"
    using s2 by (simp_all add: row_def)
  let ?w' = "w\<lparr>w_store := w_store w\<lparr>m_subnets := tput (sn_ID s) row (m_subnets (w_store w))\<rparr>\<rparr>"
  have u: "UpdateSubnet e s2 (w_store w) = (Inr (), w_store ?w')"
    using able(1) ex new s2 by (simp add: UpdateSubnet_def guarded_def mfail_def row_def)
  have same: "s\<lparr>sn_TenantID := t, sn_Name := sn_Name s, sn_CIDR := sn_CIDR s\<rparr> = s\<lparr>sn_TenantID := t\<rparr>" for t
    by simp
  obtain r where "subnets_Get mem_store subj (sn_ID s) ?w' = (Inr r, ?w')"
    using subnets_Get_able [of ?w' subj "sn_ID s" row] able row(3) by (auto simp: tenant_row_def)
  then have "subnets_Update mem_store e subj s False w = (Inr r, ?w')"
    using able(2) ex s(1,2) fits s1 keeps u s2(1)
    by (simp add: subnets_Update_def bind_op_def check_def RequireTenant_def checkGateway_def checkOverlap_def on_store_def
        map_err_def ret_def GetSubnet_def same flip: s2_def)
  then show ?thesis
    using row by blast
qed

definition cycle_a :: Subnet where
  "cycle_a = Subnet0\<lparr>sn_ID := ''a'', sn_TenantID := ''t'', sn_Name := ''outer'', sn_CIDR := ''10.0.0.0/16''\<rparr>"

definition cycle_b :: Subnet where
  "cycle_b = Subnet0\<lparr>sn_ID := ''b'', sn_TenantID := ''t'', sn_Name := ''inner'', sn_CIDR := ''10.0.0.0/24'', sn_ParentID := ''a''\<rparr>"

definition cycle_change :: Subnet where
  "cycle_change = cycle_a\<lparr>sn_CIDR := ''10.0.0.0/25'', sn_ParentID := ''b''\<rparr>"

definition cycle_world :: "Mem World" where
  "cycle_world = \<lparr>w_store = New\<lparr>m_subnets := [(''a'', cycle_a), (''b'', cycle_b)]\<rparr>, w_events = []\<rparr>"

lemma cycle_fields [simp]:
  "sn_ID cycle_a = ''a''" "sn_TenantID cycle_a = ''t''" "sn_ID cycle_b = ''b''" "sn_TenantID cycle_b = ''t''"
  "sn_ParentID cycle_b = ''a''" "sn_Name cycle_b = ''inner''" "sn_ID cycle_change = ''a''" "sn_Name cycle_change = ''outer''"
  "sn_CIDR cycle_change = ''10.0.0.0/25''" "sn_ParentID cycle_change = ''b''" "sn_Gateway cycle_change = []"
  by (simp_all add: cycle_change_def cycle_a_def cycle_b_def Subnet0_def)

lemma cycle_fits: "check_overlap [cycle_b, cycle_a] ''10.0.0.0/25'' ''a'' ''b'' = Inr ()"
  by code_simp

lemma cycle_parses: "\<exists>info. Parse ''10.0.0.0/25'' = Inr info"
proof -
  have "\<not> isl (Parse ''10.0.0.0/25'')"
    by code_simp
  then show ?thesis
    by (cases "Parse ''10.0.0.0/25''") auto
qed

lemma cycle_all: "AllSubnetCIDRs ''t'' (w_store cycle_world) = (Inr [cycle_b, cycle_a], w_store cycle_world)"
proof -
  have "m_failNext (w_store cycle_world) = []"
    by code_simp
  moreover have "sort_desc sn_ID (filter (\<lambda>s. sn_TenantID s = ''t'') (tvals (m_subnets (w_store cycle_world)))) = [cycle_b, cycle_a]"
    by code_simp
  ultimately show ?thesis
    by (simp add: AllSubnetCIDRs_able)
qed

lemma two_cycle_unrooted:
  assumes "map subnet_keys rows = [(''b'', ''a''), (''a'', ''b'')]"
  shows "forest sn_ID sn_ParentID rows = []"
proof -
  obtain x y where "rows = [x, y]" "subnet_keys x = (''b'', ''a'')" "subnet_keys y = (''a'', ''b'')"
    using assms by (cases rows rule: list.exhaust; cases "tl rows" rule: list.exhaust) auto
  then show ?thesis
    by (simp add: forest_def roots_of_def sort_nodes_def subnet_keys_def parent_row_def find_row_def)
qed

lemma cycle_list:
  assumes "m_subnets m = [(''a'', row), (''b'', cycle_b)]" "sn_ID row = ''a''" "sn_ParentID row = ''b''" "sn_TenantID row = ''t''"
  shows "\<exists>listed. ListSubnets ''t'' SubnetFilter0 m = (Inr listed, m) \<and>
    map subnet_keys listed = [(''b'', ''a''), (''a'', ''b'')]"
proof -
  have "''a'' \<le> (''b'' :: string)" "\<not> ''b'' \<le> (''a'' :: string)"
    by code_simp+
  then show ?thesis
    using assms by (simp add: ListSubnets_def SubnetFilter0_def subnet_matches_def paginate_all tvals_def sort_desc_def
        subnet_keys_def fillSubnet_def Let_def)
qed

text \<open>C37. An update that is refused nothing can close a cycle of parents: shrinking a subnet and moving it
  under its own child passes the overlap check, since the child's range holds the new one and every
  subnet above the new parent is exempt. Both subnets then have the other as their parent and the
  tree of the tenant is empty.\<close>

theorem Update_closes_cycle:
  "\<exists>r w'. subnets_Update mem_store env0 example_subjects cycle_change False cycle_world = (Inr r, w') \<and>
     map sn_ParentID (tvals (m_subnets (w_store w'))) = [''b'', ''a''] \<and>
     subnets_GetTree mem_store example_subjects w' = (Inr [], w')"
proof -
  obtain info where info: "Parse ''10.0.0.0/25'' = Inr info"
    using cycle_parses by blast
  have able: "m_failNext (w_store cycle_world) = []"
    by code_simp
  have rows: "m_subnets (w_store cycle_world) = [(''a'', cycle_a), (''b'', cycle_b)]"
    by (simp add: cycle_world_def)
  obtain r row where run: "subnets_Update mem_store env0 example_subjects cycle_change False cycle_world =
        (Inr r, cycle_world\<lparr>w_store := w_store cycle_world\<lparr>m_subnets := tput ''a'' row (m_subnets (w_store cycle_world))\<rparr>\<rparr>)"
      (is "_ = (_, ?w')")
    and row: "sn_ID row = ''a''" "sn_ParentID row = ''b''" "sn_TenantID row = ''t''"
    using subnets_Update_able [OF able, of example_subjects cycle_change cycle_a info "[cycle_b, cycle_a]" env0]
      info cycle_fits cycle_all
    by (auto simp: rows example_subjects_def tenant_row_def tget_def tvals_def)
  have rows': "m_subnets (w_store ?w') = [(''a'', row), (''b'', cycle_b)]"
    by (simp add: rows tput_def)
  obtain listed where l: "ListSubnets ''t'' SubnetFilter0 (w_store ?w') = (Inr listed, w_store ?w')"
      "map subnet_keys listed = [(''b'', ''a''), (''a'', ''b'')]"
    using cycle_list [OF rows' row] by (elim exE conjE) (rule that)
  obtain all where "subnets_GetTree mem_store example_subjects ?w' = (Inr (forest sn_ID sn_ParentID all), ?w')"
      "map subnet_keys all = map subnet_keys listed"
    using GetTree_run [of ?w' example_subjects listed] able l(1) by (auto simp: example_subjects_def)
  then show ?thesis
    using run rows' row two_cycle_unrooted [of all] l(2) by (auto simp: tvals_def)
qed

end
