(* ===== verification/Arpplan.thy ===== *)
theory Arpplan
  imports Ipnet Mac Audit_Event
begin

text \<open>
  The planner of ARP-based MAC linking (\<open>internal/arpplan\<close>): it turns the ARP tables a scan
  read into operations on addresses. Entries are filtered one by one (\<open>entry_step\<close>), then by
  the number of addresses a MAC answers for (\<open>filterProxy\<close>); the remaining candidates are placed
  in the tenant's subnets, the last one of an address winning (\<open>place\<close>), and each winning
  candidate becomes one operation or none under the provenance rules (\<open>plan_address\<close>).
  The identifiers of created addresses are the function \<open>ai_NewID\<close> of the input, applied to the
  number of addresses created before; those of audit rows come from the environment.
\<close>

section \<open>Definitions\<close>

record ARPEntry =
  en_IP :: string
  en_MAC :: string
  en_IfIndex :: int

record Observation =
  ob_DeviceID :: string
  ob_Entries :: "ARPEntry list"

record ArpInput =
  ai_TenantID :: string
  ai_JobID :: string
  ai_Now :: time
  ai_NewID :: "nat \<Rightarrow> string"
  ai_Observations :: "Observation list"
  ai_Subnets :: "Subnet list"
  ai_Addresses :: "IPAddress list"
  ai_NetworkMACs :: "bool tbl"
  ai_ProxyThreshold :: int
  ai_ExcludedDevices :: "string list"

record Plan =
  pn_Ops :: "ARPOp list"
  pn_Ignored :: "int tbl"
  pn_Entries :: int
  pn_Applied :: int
  pn_Created :: int
  pn_Conflicts :: int

definition Plan0 :: Plan where
  "Plan0 = \<lparr>pn_Ops = [], pn_Ignored = [], pn_Entries = 0, pn_Applied = 0, pn_Created = 0, pn_Conflicts = 0\<rparr>"

record candidate =
  cd_ip :: Addr
  cd_mac :: string
  cd_device :: string

definition candidate0 :: candidate where
  "candidate0 = \<lparr>cd_ip = AddrInvalid, cd_mac = [], cd_device = []\<rparr>"

subsection \<open>The order of addresses\<close>

text \<open>\<open>netip.Addr.Less\<close>: by length, then by value, then by zone.\<close>

instantiation Addr :: linorder
begin

definition less_eq_Addr :: "Addr \<Rightarrow> Addr \<Rightarrow> bool" where
  "less_eq_Addr a b =
     (Addr_BitLen a < Addr_BitLen b \<or> Addr_BitLen a = Addr_BitLen b \<and>
        (Addr_val a < Addr_val b \<or> Addr_val a = Addr_val b \<and> Addr_Zone a \<le> Addr_Zone b))"

definition less_Addr :: "Addr \<Rightarrow> Addr \<Rightarrow> bool" where
  "less_Addr a b = (a \<le> b \<and> \<not> b \<le> (a :: Addr))"

instance
proof
  fix a b c :: Addr
  show "a < b \<longleftrightarrow> a \<le> b \<and> \<not> b \<le> a"
    by (rule less_Addr_def)
  show "a \<le> a"
    by (simp add: less_eq_Addr_def)
  show "a \<le> b \<Longrightarrow> b \<le> c \<Longrightarrow> a \<le> c"
    unfolding less_eq_Addr_def by (elim disjE conjE; simp)
  show "a \<le> b \<or> b \<le> a"
    unfolding less_eq_Addr_def by (meson linear linorder_neqE_nat)
  assume "a \<le> b" and "b \<le> a"
  then have "Addr_BitLen a = Addr_BitLen b \<and> Addr_val a = Addr_val b \<and> Addr_Zone a = Addr_Zone b"
    unfolding less_eq_Addr_def by force
  then show "a = b"
    by (cases a; cases b) (simp_all add: Addr_BitLen_def Addr_val_def Addr_Zone_def word_unat_eq_iff)
qed

end

subsection \<open>Filters\<close>

definition virtualRouter :: "byte list \<Rightarrow> bool" where
  "virtualRouter hw =
     (if hw ! 0 = 0 \<and> hw ! 1 = 0 \<and> hw ! 2 = 0x5e \<and> hw ! 3 = 0 then hw ! 4 = 1 \<or> hw ! 4 = 2
      else if hw ! 0 = 0 \<and> hw ! 1 = 0 \<and> hw ! 2 = 0x0c
      then hw ! 3 = 0x07 \<and> hw ! 4 = 0xac \<or> hw ! 3 = 0x9f \<and> and (hw ! 4) 0xf0 = 0xf0
      else False)"

definition classifyMAC :: "string \<Rightarrow> bool tbl \<Rightarrow> string \<times> string" where
  "classifyMAC s network = (case ParseMAC s of
       None \<Rightarrow> ([], ARPIgnoredInvalid)
     | Some hw \<Rightarrow>
        if length hw \<noteq> 6 then ([], ARPIgnoredInvalid)
        else if or (or (or (or (or (hw ! 0) (hw ! 1)) (hw ! 2)) (hw ! 3)) (hw ! 4)) (hw ! 5) = 0 then ([], ARPIgnoredInvalid)
        else if and (hw ! 0) 1 = 1 then ([], ARPIgnoredMulticast)
        else if virtualRouter hw then ([], ARPIgnoredVirtualRouter)
        else if tget network (HardwareAddr_String hw) = Some True then ([], ARPIgnoredNetworkDevice)
        else (HardwareAddr_String hw, []))"

definition bump :: "string \<Rightarrow> int tbl \<Rightarrow> int tbl" where
  "bump reason t = tput reason ((case tget t reason of Some n \<Rightarrow> n | None \<Rightarrow> 0) + 1) t"

definition ignore :: "string \<Rightarrow> Plan \<Rightarrow> Plan" where
  "ignore reason p = p\<lparr>pn_Ignored := bump reason (pn_Ignored p)\<rparr>"

definition plain_ip :: "Addr \<Rightarrow> Addr" where
  "plain_ip ip = Addr_WithoutZone (Addr_Unmap ip)"

definition entry_step :: "ArpInput \<Rightarrow> string \<Rightarrow> ARPEntry \<Rightarrow> Plan \<times> candidate list \<Rightarrow> Plan \<times> candidate list" where
  "entry_step inp device en st =
     (let p = (fst st)\<lparr>pn_Entries := pn_Entries (fst st) + 1\<rparr>; cands = snd st in
      if device \<in> set (ai_ExcludedDevices inp) then (ignore ARPIgnoredExcluded p, cands)
      else case ParseAddr (en_IP en) of
        None \<Rightarrow> (ignore ARPIgnoredInvalid p, cands)
      | Some ip \<Rightarrow>
         (case classifyMAC (en_MAC en) (ai_NetworkMACs inp) of (mac, reason) \<Rightarrow>
            if reason \<noteq> [] then (ignore reason p, cands)
            else (p, cands @ [\<lparr>cd_ip = plain_ip ip, cd_mac = mac, cd_device = device\<rparr>])))"

definition collect :: "ArpInput \<Rightarrow> Plan \<times> candidate list" where
  "collect inp =
     fold (\<lambda>ob. fold (entry_step inp (ob_DeviceID ob)) (ob_Entries ob))
       (sort_key ob_DeviceID (ai_Observations inp)) (Plan0, [])"

text \<open>The distinct addresses a MAC answers for.\<close>

definition answers_for :: "candidate list \<Rightarrow> string \<Rightarrow> Addr list" where
  "answers_for cands mac = remdups (map cd_ip (filter (\<lambda>c. cd_mac c = mac) cands))"

definition filterProxy :: "candidate list \<Rightarrow> int \<Rightarrow> int tbl \<Rightarrow> candidate list \<times> int tbl" where
  "filterProxy cands threshold ignored =
     fold (\<lambda>c (kept, ign).
         if int (length (answers_for cands (cd_mac c))) > threshold then (kept, bump ARPIgnoredProxy ign)
         else (kept @ [c], ign))
       cands ([], ignored)"

definition subnetOf :: "Candidate list \<Rightarrow> Addr \<Rightarrow> string option" where
  "subnetOf subnets ip = map_option cand_ID (MostSpecific subnets ip)"

subsection \<open>Planning\<close>

definition tenant_candidates :: "ArpInput \<Rightarrow> Candidate list" where
  "tenant_candidates inp =
     map (\<lambda>s. \<lparr>cand_ID = sn_ID s, cand_CIDR = sn_CIDR s\<rparr>)
       (filter (\<lambda>s. sn_TenantID s = ai_TenantID inp) (ai_Subnets inp))"

record placing =
  pc_plan :: Plan
  pc_winner :: "(Addr \<times> candidate) list"
  pc_placed :: "(Addr \<times> string) list"
  pc_disagree :: "(Addr \<times> bool) list"

definition place :: "Candidate list \<Rightarrow> candidate \<Rightarrow> placing \<Rightarrow> placing" where
  "place subnets c st = (case subnetOf subnets (cd_ip c) of
       None \<Rightarrow> st\<lparr>pc_plan := ignore ARPIgnoredOutside (pc_plan st)\<rparr>
     | Some sid \<Rightarrow> st\<lparr>
         pc_disagree := (case tget (pc_winner st) (cd_ip c) of
             Some prev \<Rightarrow> if cd_mac prev \<noteq> cd_mac c then tput (cd_ip c) True (pc_disagree st) else pc_disagree st
           | None \<Rightarrow> pc_disagree st),
         pc_winner := tput (cd_ip c) c (pc_winner st),
         pc_placed := tput (cd_ip c) sid (pc_placed st)\<rparr>)"

definition address_index :: "ArpInput \<Rightarrow> (Addr \<times> IPAddress) list" where
  "address_index inp =
     fold (\<lambda>a t. case ParseAddr (ip_Address a) of
         Some ip \<Rightarrow> if ip_TenantID a = ai_TenantID inp then tput (plain_ip ip) a t else t
       | None \<Rightarrow> t)
       (ai_Addresses inp) []"

definition plan_row :: "env \<Rightarrow> ArpInput \<Rightarrow> Plan \<Rightarrow> string \<Rightarrow> string \<Rightarrow> any tbl \<Rightarrow> AuditRow" where
  "plan_row e inp p t subjectID detail =
     (case audit_Row (env_skip (length (pn_Ops p)) e)
        \<lparr>ae_TenantID = ai_TenantID inp, ae_EventType = t, ae_ActorKind = ''system'', ae_ActorID = ''scan'',
          ae_SubjectKind = ''address'', ae_SubjectID = subjectID, ae_Target = [], ae_Outcome = ''ok'', ae_Reason = [],
          ae_Details = detail\<rparr> (ai_Now inp) of
        Inl _ \<Rightarrow> AuditRow0
      | Inr row \<Rightarrow> row)"

definition plan_op :: "ArpInput \<Rightarrow> string \<Rightarrow> string \<Rightarrow> string \<Rightarrow> candidate \<Rightarrow> AuditRow list \<Rightarrow> Plan \<Rightarrow> Plan" where
  "plan_op inp kind addressID subnetID c rows p =
     p\<lparr>pn_Ops := pn_Ops p @ [\<lparr>ao_Kind = kind, ao_AddressID = addressID, ao_Address = Addr_String (cd_ip c),
         ao_SubnetID = subnetID, ao_MAC = cd_mac c, ao_SourceDeviceID = cd_device c, ao_At = ai_Now inp,
         ao_Audit = rows\<rparr>]\<rparr>"

definition plan_create :: "env \<Rightarrow> ArpInput \<Rightarrow> candidate \<Rightarrow> string \<Rightarrow> string \<Rightarrow> Plan \<Rightarrow> Plan" where
  "plan_create e inp c subnetID i p =
     (plan_op inp ARPCreate i subnetID c [plan_row e inp p ''address_created'' i
        [(''address'', AnyStr (Addr_String (cd_ip c))), (''origin'', AnyStr OriginARP), (''mac'', AnyStr (cd_mac c)),
         (''subnet_id'', AnyStr subnetID), (''source_device_id'', AnyStr (cd_device c))]] p)
     \<lparr>pn_Created := pn_Created p + 1\<rparr>"

definition plan_address :: "env \<Rightarrow> ArpInput \<Rightarrow> IPAddress \<Rightarrow> candidate \<Rightarrow> Plan \<Rightarrow> Plan" where
  "plan_address e inp a c p =
     (let addr = Addr_String (cd_ip c);
          stored = (case NormalizeMAC (ip_MACAddress a) of Some m \<Rightarrow> m | None \<Rightarrow> []);
          op = (\<lambda>kind rows. plan_op inp kind (ip_ID a) (ip_SubnetID a) c rows p) in
      if ip_MACAddress a = [] then
        (op ARPFill [plan_row e inp p ''mac_learned'' (ip_ID a)
           [(''address'', AnyStr addr), (''mac'', AnyStr (cd_mac c)), (''source_device_id'', AnyStr (cd_device c)),
            (''job_id'', AnyStr (ai_JobID inp))]])\<lparr>pn_Applied := pn_Applied p + 1\<rparr>
      else if stored = cd_mac c \<and> ip_MACConflict a \<noteq> [] then op ARPClearConflict []
      else if stored = cd_mac c then op ARPTouch []
      else if ip_MACSource a = MACSourceARP then
        (op ARPUpdate [plan_row e inp p ''mac_changed'' (ip_ID a)
           [(''address'', AnyStr addr), (''mac'', AnyStr (cd_mac c)), (''previous_mac'', AnyStr (ip_MACAddress a)),
            (''source_device_id'', AnyStr (cd_device c)), (''job_id'', AnyStr (ai_JobID inp))]])
        \<lparr>pn_Applied := pn_Applied p + 1\<rparr>
      else if ip_MACConflict a \<noteq> cd_mac c then
        (op ARPConflict [plan_row e inp p ''mac_conflict'' (ip_ID a)
           [(''address'', AnyStr addr), (''mac'', AnyStr (ip_MACAddress a)), (''observed_mac'', AnyStr (cd_mac c)),
            (''source_device_id'', AnyStr (cd_device c))]])\<lparr>pn_Conflicts := pn_Conflicts p + 1\<rparr>
      else p\<lparr>pn_Conflicts := pn_Conflicts p + 1\<rparr>)"

definition plan_ip :: "env \<Rightarrow> ArpInput \<Rightarrow> placing \<Rightarrow> Addr \<Rightarrow> Plan \<Rightarrow> Plan" where
  "plan_ip e inp st ip p =
     (let c = (case tget (pc_winner st) ip of Some c \<Rightarrow> c | None \<Rightarrow> candidate0) in
      case tget (address_index inp) ip of
        None \<Rightarrow> plan_create e inp c (case tget (pc_placed st) ip of Some sid \<Rightarrow> sid | None \<Rightarrow> [])
                  (ai_NewID inp (nat (pn_Created p))) p
      | Some a \<Rightarrow> plan_address e inp a c p)"

definition ARPDefaultProxyThreshold :: int where
  "ARPDefaultProxyThreshold = 8"

definition proxy_threshold :: "ArpInput \<Rightarrow> int" where
  "proxy_threshold inp = (if ai_ProxyThreshold inp < 1 then ARPDefaultProxyThreshold else ai_ProxyThreshold inp)"

definition placed_all :: "ArpInput \<Rightarrow> placing" where
  "placed_all inp =
     (let (p, cands) = collect inp; (kept, ign) = filterProxy cands (proxy_threshold inp) (pn_Ignored p) in
      fold (place (tenant_candidates inp)) kept
        \<lparr>pc_plan = p\<lparr>pn_Ignored := ign\<rparr>, pc_winner = [], pc_placed = [], pc_disagree = []\<rparr>)"

definition Build :: "env \<Rightarrow> ArpInput \<Rightarrow> Plan" where
  "Build e inp =
     (let st = placed_all inp; p = pc_plan st;
          p' = p\<lparr>pn_Conflicts := pn_Conflicts p + int (length (pc_disagree st))\<rparr> in
      fold (plan_ip e inp st) (sort (map fst (pc_winner st))) p')"

section \<open>What is planned\<close>

text \<open>The candidate of one entry, the candidates of a scan in the order they are met, and those that
  survive every filter.\<close>

definition cand_of :: "ArpInput \<Rightarrow> string \<Rightarrow> ARPEntry \<Rightarrow> candidate option" where
  "cand_of inp device en =
     (if device \<in> set (ai_ExcludedDevices inp) then None
      else case ParseAddr (en_IP en) of
        None \<Rightarrow> None
      | Some ip \<Rightarrow>
         (case classifyMAC (en_MAC en) (ai_NetworkMACs inp) of (mac, reason) \<Rightarrow>
            if reason = [] then Some \<lparr>cd_ip = plain_ip ip, cd_mac = mac, cd_device = device\<rparr> else None))"

definition scan_entries :: "ArpInput \<Rightarrow> (string \<times> ARPEntry) list" where
  "scan_entries inp = concat (map (\<lambda>ob. map (Pair (ob_DeviceID ob)) (ob_Entries ob)) (sort_key ob_DeviceID (ai_Observations inp)))"

definition all_cands :: "ArpInput \<Rightarrow> candidate list" where
  "all_cands inp = List.map_filter (\<lambda>(d, en). cand_of inp d en) (scan_entries inp)"

definition kept :: "ArpInput \<Rightarrow> candidate list" where
  "kept inp = filter (\<lambda>c. int (length (answers_for (all_cands inp) (cd_mac c))) \<le> proxy_threshold inp \<and>
     subnetOf (tenant_candidates inp) (cd_ip c) \<noteq> None) (all_cands inp)"

definition ignored_total :: "int tbl \<Rightarrow> int" where
  "ignored_total t = sum_list (map snd t)"

lemma sum_tput: "sum_list (map snd (tput k v t)) = sum_list (map snd t) - (case tget t k of Some n \<Rightarrow> n | None \<Rightarrow> 0) + (v :: int)"
  by (induction t) (auto simp: tput_def tget_def)

lemma ignored_bump [simp]: "ignored_total (bump r t) = ignored_total t + 1"
  by (simp add: ignored_total_def bump_def sum_tput)

text \<open>The filters only count.\<close>

definition only_counted :: "int \<Rightarrow> Plan \<Rightarrow> bool" where
  "only_counted n p = (pn_Ops p = [] \<and> pn_Applied p = 0 \<and> pn_Created p = 0 \<and> pn_Conflicts p = 0 \<and> pn_Entries p = n)"

lemma only_counted_ignore [simp]: "only_counted n (ignore r p) = only_counted n p"
  by (simp add: only_counted_def ignore_def)

lemma entry_step_cand:
  "snd (entry_step inp d en st) = snd st @ (case cand_of inp d en of None \<Rightarrow> [] | Some c \<Rightarrow> [c])"
  "only_counted n (fst st) \<Longrightarrow> only_counted (n + 1) (fst (entry_step inp d en st))"
  "ignored_total (pn_Ignored (fst (entry_step inp d en st))) =
     ignored_total (pn_Ignored (fst st)) + (case cand_of inp d en of None \<Rightarrow> 1 | Some c \<Rightarrow> 0)"
  by (auto simp: entry_step_def cand_of_def only_counted_def ignore_def Let_def split: option.splits prod.splits)

lemma entries_fold:
  fixes inp :: ArpInput and ens :: "(string \<times> ARPEntry) list"
  assumes "only_counted n (fst st)"
  defines "st' \<equiv> fold (\<lambda>(d, en). entry_step inp d en) ens st"
  shows "snd st' = snd st @ List.map_filter (\<lambda>(d, en). cand_of inp d en) ens \<and>
    only_counted (n + int (length ens)) (fst st') \<and>
    ignored_total (pn_Ignored (fst st')) + int (length (snd st')) =
      ignored_total (pn_Ignored (fst st)) + int (length (snd st)) + int (length ens)"
  unfolding st'_def using assms(1)
proof (induction ens arbitrary: st n)
  case (Cons x ens)
  obtain d en where x: "x = (d, en)"
    by (cases x)
  show ?case
    using Cons.IH [OF entry_step_cand(2) [OF Cons.prems, where inp = inp and d = d and en = en]] entry_step_cand(1,3) [of inp d en st]
    by (auto simp: x map_filter_simps ac_simps split: option.splits)
qed (simp add: map_filter_simps)

lemma collect_entries: "collect inp = fold (\<lambda>(d, en). entry_step inp d en) (scan_entries inp) (Plan0, [])"
proof -
  have "fold (\<lambda>ob. fold (entry_step inp (ob_DeviceID ob)) (ob_Entries ob)) obs st =
      fold (\<lambda>(d, en). entry_step inp d en) (concat (map (\<lambda>ob. map (Pair (ob_DeviceID ob)) (ob_Entries ob)) obs)) st" for obs st
    by (induction obs arbitrary: st) (simp_all add: fold_map comp_def)
  then show ?thesis
    by (simp add: collect_def scan_entries_def)
qed

lemma collect_spec:
  "snd (collect inp) = all_cands inp" "only_counted (int (length (scan_entries inp))) (fst (collect inp))"
  "ignored_total (pn_Ignored (fst (collect inp))) + int (length (all_cands inp)) = int (length (scan_entries inp))"
proof -
  have "only_counted 0 (fst (Plan0, [] :: candidate list))"
    by (simp add: only_counted_def Plan0_def)
  from entries_fold [OF this, where ens = "scan_entries inp" and inp = inp] show
    "snd (collect inp) = all_cands inp" "only_counted (int (length (scan_entries inp))) (fst (collect inp))"
    "ignored_total (pn_Ignored (fst (collect inp))) + int (length (all_cands inp)) = int (length (scan_entries inp))"
    by (auto simp: collect_entries all_cands_def Plan0_def ignored_total_def)
qed

lemma filterProxy_fold:
  "fold (\<lambda>c (kp, ign). if P c then (kp, bump r ign) else (kp @ [c], ign)) cs (kp0, ign0) =
     (kp0 @ filter (\<lambda>c. \<not> P c) cs, snd (fold (\<lambda>c (kp, ign). if P c then (kp, bump r ign) else (kp @ [c], ign)) cs (kp0, ign0))) \<and>
   ignored_total (snd (fold (\<lambda>c (kp, ign). if P c then (kp, bump r ign) else (kp @ [c], ign)) cs (kp0, ign0))) +
     int (length (filter (\<lambda>c. \<not> P c) cs)) = ignored_total ign0 + int (length cs)"
proof (induction cs arbitrary: kp0 ign0)
  case (Cons c cs)
  show ?case
    using Cons.IH [of kp0 "bump r ign0"] Cons.IH [of "kp0 @ [c]" ign0] by (cases "P c") simp_all
qed simp

lemma filterProxy_spec:
  "fst (filterProxy cands th ign) = filter (\<lambda>c. int (length (answers_for cands (cd_mac c))) \<le> th) cands"
  "ignored_total (snd (filterProxy cands th ign)) + int (length (fst (filterProxy cands th ign))) =
     ignored_total ign + int (length cands)"
proof -
  let ?P = "\<lambda>c. int (length (answers_for cands (cd_mac c))) > th"
  note f = filterProxy_fold [of ?P ARPIgnoredProxy cands "[]" ign]
  show "fst (filterProxy cands th ign) = filter (\<lambda>c. int (length (answers_for cands (cd_mac c))) \<le> th) cands"
    using f unfolding filterProxy_def by (metis (no_types, lifting) append_Nil fst_conv not_less filter_cong)
  show "ignored_total (snd (filterProxy cands th ign)) + int (length (fst (filterProxy cands th ign))) =
     ignored_total ign + int (length cands)"
    using f unfolding filterProxy_def by (metis (no_types, lifting) append_Nil fst_conv)
qed

text \<open>Placement: the last kept candidate of an address wins, in the subnet of that address.\<close>

definition last_of :: "candidate list \<Rightarrow> Addr \<Rightarrow> candidate option" where
  "last_of cs ip = (if filter (\<lambda>c. cd_ip c = ip) cs = [] then None else Some (last (filter (\<lambda>c. cd_ip c = ip) cs)))"

lemma last_of_snoc: "last_of (cs @ [c]) ip = (if cd_ip c = ip then Some c else last_of cs ip)"
  by (simp add: last_of_def)

lemma last_of_Some:
  assumes "last_of cs ip = Some c"
  shows "\<exists>ys zs. cs = ys @ c # zs \<and> (\<forall>z \<in> set zs. cd_ip z \<noteq> ip)" and "cd_ip c = ip"
proof -
  have "(\<exists>ys zs. cs = ys @ c # zs \<and> (\<forall>z \<in> set zs. cd_ip z \<noteq> ip)) \<and> cd_ip c = ip"
    using assms
  proof (induction cs rule: rev_induct)
    case (snoc x cs)
    show ?case
    proof (cases "cd_ip x = ip")
      case True
      then show ?thesis
        using snoc.prems by (intro conjI exI [of _ cs] exI [of _ "[]"]) (auto simp: last_of_snoc)
    next
      case False
      then obtain ys zs where "cs = ys @ c # zs" "\<forall>z \<in> set zs. cd_ip z \<noteq> ip" "cd_ip c = ip"
        using snoc by (auto simp: last_of_snoc)
      then show ?thesis
        using False by (intro conjI exI [of _ ys] exI [of _ "zs @ [x]"]) auto
    qed
  qed (simp add: last_of_def)
  then show "\<exists>ys zs. cs = ys @ c # zs \<and> (\<forall>z \<in> set zs. cd_ip z \<noteq> ip)" and "cd_ip c = ip"
    by blast+
qed

lemma last_of_None: "last_of cs ip = None \<longleftrightarrow> ip \<notin> cd_ip ` set cs"
  by (auto simp: last_of_def filter_empty_conv)

definition placement_ok :: "Candidate list \<Rightarrow> candidate list \<Rightarrow> placing \<Rightarrow> bool" where
  "placement_ok subnets placeable st =
     ((\<forall>ip. tget (pc_winner st) ip = last_of placeable ip) \<and>
      (\<forall>ip. last_of placeable ip \<noteq> None \<longrightarrow> tget (pc_placed st) ip = subnetOf subnets ip) \<and>
      distinct (map fst (pc_winner st)))"

lemma place_ok:
  assumes "placement_ok subnets cs st" and "subnetOf subnets (cd_ip c) = Some sid"
  shows "placement_ok subnets (cs @ [c]) (place subnets c st)"
  using assms by (auto simp: placement_ok_def place_def last_of_snoc tput_def tget_def update_conv' distinct_update)

lemma place_fold:
  assumes "only_counted n p0"
  defines "st0 \<equiv> \<lparr>pc_plan = p0, pc_winner = [], pc_placed = [], pc_disagree = []\<rparr>"
  shows "placement_ok subnets (filter (\<lambda>c. subnetOf subnets (cd_ip c) \<noteq> None) cs) (fold (place subnets) cs st0) \<and>
    only_counted n (pc_plan (fold (place subnets) cs st0)) \<and>
    ignored_total (pn_Ignored (pc_plan (fold (place subnets) cs st0))) +
      int (length (filter (\<lambda>c. subnetOf subnets (cd_ip c) \<noteq> None) cs)) =
      ignored_total (pn_Ignored p0) + int (length cs)"
proof (induction cs rule: rev_induct)
  case Nil
  then show ?case
    using assms(1) by (simp add: st0_def placement_ok_def last_of_def tget_def)
next
  case (snoc c cs)
  let ?st = "fold (place subnets) cs st0"
  show ?case
  proof (cases "subnetOf subnets (cd_ip c)")
    case None
    then have "place subnets c ?st = ?st\<lparr>pc_plan := ignore ARPIgnoredOutside (pc_plan ?st)\<rparr>"
      by (simp add: place_def)
    then show ?thesis
      using snoc None by (simp add: placement_ok_def) (simp add: ignore_def)
  next
    case (Some sid)
    have "pc_plan (place subnets c ?st) = pc_plan ?st"
      by (simp add: place_def Some)
    then show ?thesis
      using snoc Some place_ok [of subnets _ ?st c sid] by simp
  qed
qed

lemma placed_all_spec:
  "placement_ok (tenant_candidates inp) (kept inp) (placed_all inp)"
  "only_counted (int (length (scan_entries inp))) (pc_plan (placed_all inp))"
  "ignored_total (pn_Ignored (pc_plan (placed_all inp))) + int (length (kept inp)) = int (length (scan_entries inp))"
proof -
  obtain p cands where c: "collect inp = (p, cands)"
    by (cases "collect inp")
  obtain kp ign where f: "filterProxy cands (proxy_threshold inp) (pn_Ignored p) = (kp, ign)"
    by (cases "filterProxy cands (proxy_threshold inp) (pn_Ignored p)")
  note cs = collect_spec [of inp, unfolded c fst_conv snd_conv]
  have k: "filter (\<lambda>c. subnetOf (tenant_candidates inp) (cd_ip c) \<noteq> None) kp = kept inp"
    using filterProxy_spec(1) [of cands "proxy_threshold inp" "pn_Ignored p", unfolded f fst_conv]
    by (simp add: cs(1) kept_def conj_commute)
  have only: "only_counted (int (length (scan_entries inp))) (p\<lparr>pn_Ignored := ign\<rparr>)"
    using cs(2) by (simp add: only_counted_def)
  have st: "placed_all inp = fold (place (tenant_candidates inp)) kp
      \<lparr>pc_plan = p\<lparr>pn_Ignored := ign\<rparr>, pc_winner = [], pc_placed = [], pc_disagree = []\<rparr>"
    by (simp add: placed_all_def c f)
  note pf = place_fold [OF only, of "tenant_candidates inp" kp, folded st, unfolded k]
  show "placement_ok (tenant_candidates inp) (kept inp) (placed_all inp)"
    and "only_counted (int (length (scan_entries inp))) (pc_plan (placed_all inp))"
    using pf by blast+
  show "ignored_total (pn_Ignored (pc_plan (placed_all inp))) + int (length (kept inp)) = int (length (scan_entries inp))"
    using pf filterProxy_spec(2) [of cands "proxy_threshold inp" "pn_Ignored p", unfolded f fst_conv snd_conv] cs(1,3) by simp
qed

section \<open>One operation per address\<close>

text \<open>An address whose MAC was set by an agent or a user and whose conflict is already recorded needs
  nothing.\<close>

definition stored_mac :: "IPAddress \<Rightarrow> string" where
  "stored_mac a = (case NormalizeMAC (ip_MACAddress a) of Some m \<Rightarrow> m | None \<Rightarrow> [])"

definition standing :: "ArpInput \<Rightarrow> placing \<Rightarrow> Addr \<Rightarrow> bool" where
  "standing inp st ip = (case (tget (address_index inp) ip, tget (pc_winner st) ip) of
       (Some a, Some c) \<Rightarrow> ip_MACAddress a \<noteq> [] \<and> stored_mac a \<noteq> cd_mac c \<and> ip_MACSource a \<noteq> MACSourceARP \<and>
         ip_MACConflict a = cd_mac c
     | _ \<Rightarrow> False)"

definition row_rule :: "IPAddress \<Rightarrow> string \<Rightarrow> string \<Rightarrow> bool" where
  "row_rule a mac kind =
     ((ip_MACAddress a = [] \<longleftrightarrow> kind = ARPFill) \<and>
      (kind = ARPTouch \<longrightarrow> stored_mac a = mac \<and> ip_MACConflict a = []) \<and>
      (kind = ARPClearConflict \<longrightarrow> stored_mac a = mac \<and> ip_MACConflict a \<noteq> []) \<and>
      (kind = ARPUpdate \<longrightarrow> ip_MACSource a = MACSourceARP \<and> stored_mac a \<noteq> mac) \<and>
      (kind = ARPConflict \<longrightarrow> ip_MACSource a \<noteq> MACSourceARP \<and> stored_mac a \<noteq> mac \<and> ip_MACConflict a \<noteq> mac) \<and>
      kind \<in> {ARPFill, ARPTouch, ARPClearConflict, ARPUpdate, ARPConflict})"

definition planned :: "ArpInput \<Rightarrow> Addr \<Rightarrow> candidate \<Rightarrow> ARPOp \<Rightarrow> bool" where
  "planned inp ip c opn =
     (ao_Address opn = Addr_String (cd_ip c) \<and> ao_MAC opn = cd_mac c \<and> ao_SourceDeviceID opn = cd_device c \<and>
      (case tget (address_index inp) ip of
         None \<Rightarrow> ao_Kind opn = ARPCreate \<and> subnetOf (tenant_candidates inp) ip = Some (ao_SubnetID opn)
       | Some a \<Rightarrow> ao_AddressID opn = ip_ID a \<and> row_rule a (cd_mac c) (ao_Kind opn)))"

definition counts :: "Plan \<Rightarrow> bool" where
  "counts p = (pn_Created p = int (length (filter (\<lambda>opn. ao_Kind opn = ARPCreate) (pn_Ops p))) \<and>
     pn_Applied p = int (length (filter (\<lambda>opn. ao_Kind opn = ARPFill \<or> ao_Kind opn = ARPUpdate) (pn_Ops p))))"

lemma plan_op_simps [simp]:
  "pn_Ignored (plan_op inp k i s c rows p) = pn_Ignored p" "pn_Entries (plan_op inp k i s c rows p) = pn_Entries p"
  "pn_Applied (plan_op inp k i s c rows p) = pn_Applied p" "pn_Created (plan_op inp k i s c rows p) = pn_Created p"
  "pn_Ops (plan_op inp k i s c rows p) = pn_Ops p @ [\<lparr>ao_Kind = k, ao_AddressID = i, ao_Address = Addr_String (cd_ip c),
     ao_SubnetID = s, ao_MAC = cd_mac c, ao_SourceDeviceID = cd_device c, ao_At = ai_Now inp, ao_Audit = rows\<rparr>]"
  by (simp_all add: plan_op_def)

lemma plan_address_step:
  assumes "tget (address_index inp) ip = Some a"
  shows "pn_Ignored (plan_address e inp a c p) = pn_Ignored p \<and> pn_Entries (plan_address e inp a c p) = pn_Entries p \<and>
    (counts p \<longrightarrow> counts (plan_address e inp a c p)) \<and>
    (if ip_MACAddress a \<noteq> [] \<and> stored_mac a \<noteq> cd_mac c \<and> ip_MACSource a \<noteq> MACSourceARP \<and> ip_MACConflict a = cd_mac c
     then pn_Ops (plan_address e inp a c p) = pn_Ops p
     else \<exists>opn. pn_Ops (plan_address e inp a c p) = pn_Ops p @ [opn] \<and> planned inp ip c opn)"
  by (auto simp: plan_address_def counts_def planned_def row_rule_def stored_mac_def assms Let_def)

lemma plan_ip_step:
  assumes "placement_ok (tenant_candidates inp) (kept inp) st" and "last_of (kept inp) ip = Some c"
  shows "pn_Ignored (plan_ip e inp st ip p) = pn_Ignored p \<and> pn_Entries (plan_ip e inp st ip p) = pn_Entries p \<and>
    (counts p \<longrightarrow> counts (plan_ip e inp st ip p)) \<and>
    (if standing inp st ip then pn_Ops (plan_ip e inp st ip p) = pn_Ops p
     else \<exists>opn. pn_Ops (plan_ip e inp st ip p) = pn_Ops p @ [opn] \<and> planned inp ip c opn)"
proof -
  have w: "tget (pc_winner st) ip = Some c" "tget (pc_placed st) ip = subnetOf (tenant_candidates inp) ip"
    using assms by (auto simp: placement_ok_def)
  have "c \<in> set (kept inp)" "cd_ip c = ip"
    using last_of_Some [OF assms(2)] by auto
  then have "subnetOf (tenant_candidates inp) ip \<noteq> None"
    by (auto simp: kept_def)
  then obtain sid where sid: "subnetOf (tenant_candidates inp) ip = Some sid"
    by blast
  show ?thesis
  proof (cases "tget (address_index inp) ip")
    case None
    then show ?thesis
      using w sid by (auto simp: plan_ip_def standing_def plan_create_def counts_def planned_def)
  next
    case (Some a)
    then show ?thesis
      using plan_address_step [OF Some, of e c p] w by (simp add: plan_ip_def standing_def)
  qed
qed

lemma plan_ips:
  assumes "placement_ok (tenant_candidates inp) (kept inp) st" and "\<forall>ip \<in> set ips. last_of (kept inp) ip \<noteq> None"
    and "counts p"
  shows "pn_Ignored (fold (plan_ip e inp st) ips p) = pn_Ignored p \<and> pn_Entries (fold (plan_ip e inp st) ips p) = pn_Entries p \<and>
    counts (fold (plan_ip e inp st) ips p) \<and>
    (\<exists>ops. pn_Ops (fold (plan_ip e inp st) ips p) = pn_Ops p @ ops \<and>
       list_all2 (\<lambda>ip opn. \<exists>c. last_of (kept inp) ip = Some c \<and> planned inp ip c opn) (filter (\<lambda>ip. \<not> standing inp st ip) ips) ops)"
  using assms(2,3)
proof (induction ips arbitrary: p)
  case (Cons ip ips)
  obtain c where c: "last_of (kept inp) ip = Some c"
    using Cons.prems(1) by auto
  note step = plan_ip_step [OF assms(1) c, of e p]
  have "counts (plan_ip e inp st ip p)"
    using step Cons.prems(2) by blast
  then obtain ops where ops: "pn_Ops (fold (plan_ip e inp st) ips (plan_ip e inp st ip p)) = pn_Ops (plan_ip e inp st ip p) @ ops"
      "list_all2 (\<lambda>ip opn. \<exists>c. last_of (kept inp) ip = Some c \<and> planned inp ip c opn) (filter (\<lambda>ip. \<not> standing inp st ip) ips) ops"
      "counts (fold (plan_ip e inp st) ips (plan_ip e inp st ip p))"
      "pn_Ignored (fold (plan_ip e inp st) ips (plan_ip e inp st ip p)) = pn_Ignored (plan_ip e inp st ip p)"
      "pn_Entries (fold (plan_ip e inp st) ips (plan_ip e inp st ip p)) = pn_Entries (plan_ip e inp st ip p)"
    using Cons.IH [of "plan_ip e inp st ip p"] Cons.prems(1) by auto
  show ?case
  proof (cases "standing inp st ip")
    case True
    then show ?thesis
      using step ops by simp
  next
    case False
    then obtain opn where "pn_Ops (plan_ip e inp st ip p) = pn_Ops p @ [opn]" "planned inp ip c opn"
      using step by auto
    then show ?thesis
      using step ops False c by (auto intro!: exI [of _ "opn # ops"])
  qed
qed simp

lemma winners_sorted:
  assumes "placement_ok subnets cs st"
  shows "sorted_wrt (<) (sort (map fst (pc_winner st)))" "set (sort (map fst (pc_winner st))) = cd_ip ` set cs"
proof -
  have "distinct (map fst (pc_winner st))" "\<And>ip. tget (pc_winner st) ip = last_of cs ip"
    using assms by (auto simp: placement_ok_def)
  then show "sorted_wrt (<) (sort (map fst (pc_winner st)))"
    by (intro strict_sorted_iff [THEN iffD2] conjI) simp_all
  have "tget (pc_winner st) ip = None \<longleftrightarrow> ip \<notin> set (map fst (pc_winner st))" for ip
    by (auto simp: tget_def map_of_eq_None_iff)
  then show "set (sort (map fst (pc_winner st))) = cd_ip ` set cs"
    using last_of_None [of cs] \<open>\<And>ip. tget (pc_winner st) ip = last_of cs ip\<close> by (simp add: set_eq_iff)
qed

lemma Build_ops:
  fixes inp :: ArpInput
  defines "st \<equiv> placed_all inp"
  shows "pn_Entries (Build e inp) = int (length (scan_entries inp)) \<and> counts (Build e inp) \<and>
    pn_Ignored (Build e inp) = pn_Ignored (pc_plan st) \<and>
    list_all2 (\<lambda>ip opn. \<exists>c. last_of (kept inp) ip = Some c \<and> planned inp ip c opn)
      (filter (\<lambda>ip. \<not> standing inp st ip) (sort (map fst (pc_winner st)))) (pn_Ops (Build e inp))"
proof -
  let ?p = "(pc_plan st)\<lparr>pn_Conflicts := pn_Conflicts (pc_plan st) + int (length (pc_disagree st))\<rparr>"
  note spec = placed_all_spec [of inp, folded st_def]
  have "counts ?p" and empty: "pn_Ops ?p = []" "pn_Entries ?p = int (length (scan_entries inp))"
    using spec(2) by (simp_all add: only_counted_def counts_def)
  moreover have "\<forall>ip \<in> set (sort (map fst (pc_winner st))). last_of (kept inp) ip \<noteq> None"
    unfolding winners_sorted(2) [OF spec(1)] last_of_None by simp
  ultimately show ?thesis
    using plan_ips [OF spec(1), of "sort (map fst (pc_winner st))" ?p e]
    by (auto simp: Build_def Let_def simp flip: st_def)
qed

section \<open>Properties\<close>

text \<open>C12. The plan accounts for every entry of the scan: the entries read are the ignored ones plus the kept
  candidates, at most one operation is planned for an address, in the order of the addresses, every
  one of them an address of a kept candidate, and the counters of created and changed addresses are
  the numbers of the operations that do so.\<close>

theorem Build_accounts:
  "pn_Entries (Build e inp) = int (length (scan_entries inp)) \<and>
   pn_Entries (Build e inp) = sum_list (map snd (pn_Ignored (Build e inp))) + int (length (kept inp)) \<and>
   pn_Created (Build e inp) = int (length (filter (\<lambda>opn. ao_Kind opn = ARPCreate) (pn_Ops (Build e inp)))) \<and>
   pn_Applied (Build e inp) =
     int (length (filter (\<lambda>opn. ao_Kind opn = ARPFill \<or> ao_Kind opn = ARPUpdate) (pn_Ops (Build e inp)))) \<and>
   (\<exists>ips. sorted_wrt (<) ips \<and> set ips \<subseteq> cd_ip ` set (kept inp) \<and>
      map ao_Address (pn_Ops (Build e inp)) = map Addr_String ips)"
proof (intro conjI)
  note spec = placed_all_spec [of inp] and ops = Build_ops [of e inp]
  let ?ips = "filter (\<lambda>ip. \<not> standing inp (placed_all inp) ip) (sort (map fst (pc_winner (placed_all inp))))"
  have "map ao_Address (pn_Ops (Build e inp)) = map Addr_String ?ips"
    using ops by (intro nth_equalityI)
      (auto simp: list_all2_conv_all_nth planned_def dest!: last_of_Some(2))
  moreover have "sorted_wrt (<) ?ips" "set ?ips \<subseteq> cd_ip ` set (kept inp)"
    using winners_sorted [OF spec(1)] by (auto intro: sorted_wrt_filter)
  ultimately show "\<exists>ips. sorted_wrt (<) ips \<and> set ips \<subseteq> cd_ip ` set (kept inp) \<and>
      map ao_Address (pn_Ops (Build e inp)) = map Addr_String ips"
    by blast
  show "pn_Entries (Build e inp) = sum_list (map snd (pn_Ignored (Build e inp))) + int (length (kept inp))"
    using ops spec(3) by (simp add: ignored_total_def)
qed (use Build_ops [of e inp] in \<open>simp_all add: counts_def\<close>)

lemma classifyMAC_usable: "classifyMAC s network = (mac, []) \<longleftrightarrow>
    (\<exists>hw. ParseMAC s = Some hw \<and> length hw = 6 \<and>
       or (or (or (or (or (hw ! 0) (hw ! 1)) (hw ! 2)) (hw ! 3)) (hw ! 4)) (hw ! 5) \<noteq> 0 \<and> and (hw ! 0) 1 \<noteq> 1 \<and>
       \<not> virtualRouter hw \<and> mac = HardwareAddr_String hw \<and> tget network mac \<noteq> Some True)"
  by (auto simp: classifyMAC_def split: option.splits)

lemma all_or_zero: "length hw = 6 \<Longrightarrow>
    or (or (or (or (or (hw ! 0) (hw ! 1)) (hw ! 2)) (hw ! 3)) (hw ! 4)) (hw ! 5) = 0 \<longleftrightarrow> hw = replicate 6 (0 :: byte)"
  by (auto simp: or_eq_0_iff numeral_eq_Suc length_Suc_conv)

lemma even_byte: "and (b :: byte) 1 \<noteq> 1 \<longleftrightarrow> even b"
  by (simp add: and_one_eq odd_iff_mod_2_eq_one even_iff_mod_2_eq_zero)

text \<open>An entry a candidate may come from: of a device that is not excluded, with an address and a
  usable MAC address.\<close>

definition trusted :: "ArpInput \<Rightarrow> candidate \<Rightarrow> bool" where
  "trusted inp c =
     (\<exists>ob \<in> set (ai_Observations inp). \<exists>en \<in> set (ob_Entries ob). \<exists>ip hw.
        cd_device c = ob_DeviceID ob \<and> ob_DeviceID ob \<notin> set (ai_ExcludedDevices inp) \<and>
        ParseAddr (en_IP en) = Some ip \<and> cd_ip c = plain_ip ip \<and>
        ParseMAC (en_MAC en) = Some hw \<and> length hw = 6 \<and> hw \<noteq> replicate 6 0 \<and> even (hw ! 0) \<and>
        \<not> virtualRouter hw \<and> cd_mac c = HardwareAddr_String hw \<and> tget (ai_NetworkMACs inp) (cd_mac c) \<noteq> Some True)"

lemma all_cands_trusted:
  assumes "c \<in> set (all_cands inp)"
  shows "trusted inp c"
proof -
  obtain d en where "(d, en) \<in> set (scan_entries inp)" and c: "cand_of inp d en = Some c"
    using assms by (auto simp: all_cands_def map_filter_def)
  then obtain ob where ob: "ob \<in> set (ai_Observations inp)" "en \<in> set (ob_Entries ob)" "d = ob_DeviceID ob"
    by (auto simp: scan_entries_def)
  obtain ip where ip: "ParseAddr (en_IP en) = Some ip" "d \<notin> set (ai_ExcludedDevices inp)" "cd_ip c = plain_ip ip" "cd_device c = d"
      "classifyMAC (en_MAC en) (ai_NetworkMACs inp) = (cd_mac c, [])"
    using c by (auto simp: cand_of_def split: option.splits prod.splits if_splits)
  then obtain hw where hw: "ParseMAC (en_MAC en) = Some hw" "length hw = 6" "hw \<noteq> replicate 6 0" "even (hw ! 0)"
      "\<not> virtualRouter hw" "cd_mac c = HardwareAddr_String hw" "tget (ai_NetworkMACs inp) (cd_mac c) \<noteq> Some True"
    unfolding classifyMAC_usable even_byte using all_or_zero by blast
  show ?thesis
    unfolding trusted_def
    using ob ip(1-4) hw by (intro bexI [of _ ob] bexI [of _ en] exI [of _ ip] exI [of _ hw]) simp_all
qed

lemma address_index_row: "tget (address_index inp) ip = Some a \<Longrightarrow>
    a \<in> set (ai_Addresses inp) \<and> ip_TenantID a = ai_TenantID inp \<and> (\<exists>x. ParseAddr (ip_Address a) = Some x \<and> plain_ip x = ip)"
proof -
  let ?f = "\<lambda>a t. case ParseAddr (ip_Address a) of
         Some ip \<Rightarrow> if ip_TenantID a = ai_TenantID inp then tput (plain_ip ip) a t else t | None \<Rightarrow> t"
  have "tget (fold ?f as t) ip = Some a \<Longrightarrow> tget t ip = Some a \<or>
      a \<in> set as \<and> ip_TenantID a = ai_TenantID inp \<and> (\<exists>x. ParseAddr (ip_Address a) = Some x \<and> plain_ip x = ip)" for as t
    by (induction as arbitrary: t) (fastforce split: option.splits if_splits)+
  from this [of "ai_Addresses inp" "[]"] show "tget (address_index inp) ip = Some a \<Longrightarrow>
    a \<in> set (ai_Addresses inp) \<and> ip_TenantID a = ai_TenantID inp \<and> (\<exists>x. ParseAddr (ip_Address a) = Some x \<and> plain_ip x = ip)"
    by (simp add: address_index_def)
qed

text \<open>C11. Every planned operation has a trustworthy source and respects who set a MAC address. It carries
  the last kept candidate of its address, reported by a device that is not excluded, with a unicast
  MAC address that is neither zero, a virtual router's nor a network device's and that answers for
  at most as many addresses as the threshold allows. It creates an address only in a subnet of the
  tenant that contains it and only if the tenant has no record of it; otherwise it concerns the
  tenant's record: it fills the MAC address exactly if there is none and changes it only if ARP set
  it.\<close>

theorem Build_provenance:
  assumes "opn \<in> set (pn_Ops (Build e inp))"
  shows "\<exists>c. (\<exists>ys zs. kept inp = ys @ c # zs \<and> (\<forall>z \<in> set zs. cd_ip z \<noteq> cd_ip c)) \<and> trusted inp c \<and>
    int (length (answers_for (all_cands inp) (cd_mac c))) \<le> proxy_threshold inp \<and>
    ao_Address opn = Addr_String (cd_ip c) \<and> ao_MAC opn = cd_mac c \<and> ao_SourceDeviceID opn = cd_device c \<and>
    (case tget (address_index inp) (cd_ip c) of
       None \<Rightarrow> ao_Kind opn = ARPCreate \<and> subnetOf (tenant_candidates inp) (cd_ip c) = Some (ao_SubnetID opn)
     | Some a \<Rightarrow> a \<in> set (ai_Addresses inp) \<and> ip_TenantID a = ai_TenantID inp \<and> ao_AddressID opn = ip_ID a \<and>
         (ip_MACAddress a = [] \<longleftrightarrow> ao_Kind opn = ARPFill) \<and>
         (ao_Kind opn = ARPUpdate \<longrightarrow> ip_MACSource a = MACSourceARP) \<and>
         ao_Kind opn \<in> {ARPFill, ARPTouch, ARPClearConflict, ARPUpdate, ARPConflict})"
proof -
  obtain ip c where c: "last_of (kept inp) ip = Some c" and p: "planned inp ip c opn"
    using Build_ops [of e inp] assms by (auto simp: list_all2_conv_all_nth in_set_conv_nth)
  note l = last_of_Some [OF c]
  have "c \<in> set (kept inp)"
    using l(1) by auto
  then have k: "trusted inp c" "int (length (answers_for (all_cands inp) (cd_mac c))) \<le> proxy_threshold inp"
    using all_cands_trusted [of c inp] by (simp_all add: kept_def)
  show ?thesis
    using l k p address_index_row [of inp ip]
    by (intro exI [of _ c]) (auto simp: planned_def row_rule_def split: option.splits)
qed

definition example_scan :: ArpInput where
  "example_scan = \<lparr>ai_TenantID = ''t'', ai_JobID = ''job'', ai_Now = 7, ai_NewID = (\<lambda>n. ''new''),
     ai_Observations = [\<lparr>ob_DeviceID = ''router'', ob_Entries = [\<lparr>en_IP = ''10.0.0.5'', en_MAC = ''02:00:00:00:00:01'',
       en_IfIndex = 1\<rparr>]\<rparr>],
     ai_Subnets = [Subnet0\<lparr>sn_ID := ''net'', sn_TenantID := ''t'', sn_CIDR := ''10.0.0.0/24''\<rparr>],
     ai_Addresses = [], ai_NetworkMACs = [], ai_ProxyThreshold = 0, ai_ExcludedDevices = []\<rparr>"

lemma example_scan_plan: "map ao_Kind (pn_Ops (Build env0 example_scan)) = [ARPCreate]"
  by code_simp

theorem Build_provenance_witness:
  "\<exists>c. trusted example_scan c \<and> ao_MAC (hd (pn_Ops (Build env0 example_scan))) = cd_mac c"
proof -
  have "hd (pn_Ops (Build env0 example_scan)) \<in> set (pn_Ops (Build env0 example_scan))"
    using example_scan_plan by (intro hd_in_set) auto
  from Build_provenance [OF this] show ?thesis
    by blast
qed

end
