(* ===== verification/Scan_Arp.thy ===== *)
theory Scan_Arp
  imports Arpplan Memstore_Contracts
begin

text \<open>
  The ARP phase of a scan (\<open>internal/scan/arp.go\<close>): it loads the tenant's subnets, addresses and
  network MAC addresses, builds the plan and hands its operations to the store. Errors never leave
  the phase, they only show in the status of the job; logging is not modelled. The identifiers drawn
  during one phase (addresses, rows of the plan, the summary row, rows of the store) are taken from
  four interleaved lanes of the environment.

  The theorem of this theory joins the planner, the phase and the memory store: a second scan that
  reads the same tables finds nothing left to do.
\<close>

section \<open>Definitions\<close>

record arpRead =
  rd_obs :: "Observation list"
  rd_partial :: int

definition arpRead_add :: "string \<Rightarrow> bool \<Rightarrow> ARPEntry list \<Rightarrow> arpRead \<Rightarrow> arpRead" where
  "arpRead_add deviceID partial entries r =
     (let r' = (if partial then r\<lparr>rd_partial := rd_partial r + 1\<rparr> else r) in
      if entries \<noteq> [] then r'\<lparr>rd_obs := rd_obs r' @ [\<lparr>ob_DeviceID = deviceID, ob_Entries = entries\<rparr>]\<rparr> else r')"

definition env_lane :: "nat \<Rightarrow> env \<Rightarrow> env" where
  "env_lane k e = e\<lparr>env_ids := (\<lambda>n. env_ids e (4 * n + k))\<rparr>"

definition arp_input ::
  "env \<Rightarrow> IPScanJob \<Rightarrow> ARPSettings \<Rightarrow> arpRead \<Rightarrow> Subnet list \<Rightarrow> IPAddress list \<Rightarrow> string list \<Rightarrow> ArpInput" where
  "arp_input e job cfg read subnets addrs network =
     \<lparr>ai_TenantID = sj_TenantID job, ai_JobID = sj_ID job, ai_Now = env_now e, ai_NewID = env_ids (env_lane 0 e),
      ai_Observations = rd_obs read, ai_Subnets = subnets, ai_Addresses = addrs,
      ai_NetworkMACs = map (\<lambda>mac. (mac, True)) network, ai_ProxyThreshold = as_ProxyThreshold cfg,
      ai_ExcludedDevices = as_ExcludedDevices cfg\<rparr>"

definition planARP :: "'m Store \<Rightarrow> env \<Rightarrow> IPScanJob \<Rightarrow> ARPSettings \<Rightarrow> arpRead \<Rightarrow> ('m World, Plan) op" where
  "planARP st e job cfg read =
     bind_op (on_store (s_AllSubnetCIDRs st (sj_TenantID job))) (\<lambda>subnets.
     bind_op (on_store (s_ListAddresses st (sj_TenantID job) AddressFilter0)) (\<lambda>addrs.
     bind_op (on_store (s_NetworkMACs st (sj_TenantID job))) (\<lambda>network.
     ret (Build (env_lane 1 e) (arp_input e job cfg read subnets addrs network)))))"

definition arpRunRow :: "env \<Rightarrow> IPScanJob \<Rightarrow> AuditRow" where
  "arpRunRow e job =
     (case audit_Row e \<lparr>ae_TenantID = sj_TenantID job, ae_EventType = ''arp_run'', ae_ActorKind = ''system'',
         ae_ActorID = ''scan'', ae_SubjectKind = ''scan'', ae_SubjectID = sj_ID job, ae_Target = [], ae_Outcome = ''ok'',
         ae_Reason = [], ae_Details = [(''devices'', AnyInt (sj_ARPDevices job)), (''partial'', AnyInt (sj_ARPPartial job)),
           (''entries'', AnyInt (sj_ARPEntries job)), (''applied'', AnyInt (sj_ARPApplied job)),
           (''created'', AnyInt (sj_ARPCreated job)), (''conflicts'', AnyInt (sj_ARPConflicts job)),
           (''ignored'', AnyMap (map (\<lambda>(k, v). (k, AnyInt v)) (sj_ARPIgnored job)))]\<rparr> (env_now e) of
        Inl _ \<Rightarrow> AuditRow0
      | Inr row \<Rightarrow> row)"

definition job_planned :: "Plan \<Rightarrow> IPScanJob \<Rightarrow> IPScanJob" where
  "job_planned plan job = job\<lparr>sj_ARPEntries := pn_Entries plan, sj_ARPApplied := pn_Applied plan,
     sj_ARPCreated := pn_Created plan, sj_ARPConflicts := pn_Conflicts plan, sj_ARPIgnored := pn_Ignored plan\<rparr>"

definition arpPhase ::
  "'m Store \<Rightarrow> env \<Rightarrow> ARPSettings res \<Rightarrow> arpRead \<Rightarrow> IPScanJob \<Rightarrow> 'm World \<Rightarrow> IPScanJob \<times> 'm World" where
  "arpPhase st e cfg read job w = (case cfg of
       Inl _ \<Rightarrow> (job\<lparr>sj_ARPStatus := ARPFailed\<rparr>, w)
     | Inr c \<Rightarrow>
        if \<not> as_Enabled c then (job\<lparr>sj_ARPStatus := ARPDisabled\<rparr>, w)
        else (let job1 = job\<lparr>sj_ARPDevices := int (length (rd_obs read)), sj_ARPPartial := rd_partial read\<rparr> in
          case planARP st e job1 c read w of
            (Inl _, w1) \<Rightarrow> (job1\<lparr>sj_ARPStatus := ARPFailed\<rparr>, w1)
          | (Inr plan, w1) \<Rightarrow> (let job2 = job_planned plan job1 in
              case on_store (s_ApplyARP st (env_lane 3 e) (sj_TenantID job) (pn_Ops plan) [arpRunRow (env_lane 2 e) job2]) w1 of
                (Inl _, w2) \<Rightarrow> (job2\<lparr>sj_ARPStatus := ARPFailed\<rparr>, w2)
              | (Inr _, w2) \<Rightarrow> (job2\<lparr>sj_ARPStatus := ARPRan\<rparr>, w2))))"

section \<open>A settled plan\<close>

text \<open>A record agrees with what was observed: the MAC address is the observed one and no conflict is
  noted, or somebody else set another one and the conflict is noted.\<close>

definition agrees :: "IPAddress \<Rightarrow> string \<Rightarrow> bool" where
  "agrees a mac = (ip_MACAddress a \<noteq> [] \<and>
     (stored_mac a = mac \<and> ip_MACConflict a = [] \<or>
      stored_mac a \<noteq> mac \<and> ip_MACSource a \<noteq> MACSourceARP \<and> ip_MACConflict a = mac))"

definition settled :: "ArpInput \<Rightarrow> bool" where
  "settled inp = (\<forall>ip c. last_of (kept inp) ip = Some c \<longrightarrow>
     (\<exists>a. tget (address_index inp) ip = Some a \<and> agrees a (cd_mac c)))"

lemma standing_iff: "standing inp (placed_all inp) ip \<longleftrightarrow>
    (\<exists>a c. tget (address_index inp) ip = Some a \<and> last_of (kept inp) ip = Some c \<and> ip_MACAddress a \<noteq> [] \<and>
       stored_mac a \<noteq> cd_mac c \<and> ip_MACSource a \<noteq> MACSourceARP \<and> ip_MACConflict a = cd_mac c)"
  using placed_all_spec(1) [of inp] by (auto simp: standing_def placement_ok_def split: option.splits)

lemma plan_pairs:
  "\<exists>ips. distinct ips \<and>
     list_all2 (\<lambda>ip opn. \<exists>c. last_of (kept inp) ip = Some c \<and> planned inp ip c opn) ips (pn_Ops (Build e inp)) \<and>
     (\<forall>ip. ip \<in> set ips \<longleftrightarrow> last_of (kept inp) ip \<noteq> None \<and> \<not> standing inp (placed_all inp) ip)"
proof -
  note w = winners_sorted [OF placed_all_spec(1) [of inp]]
  let ?ips = "filter (\<lambda>ip. \<not> standing inp (placed_all inp) ip) (sort (map fst (pc_winner (placed_all inp))))"
  have "distinct ?ips"
    using w(1) by (auto simp: strict_sorted_iff)
  moreover have "ip \<in> set ?ips \<longleftrightarrow> last_of (kept inp) ip \<noteq> None \<and> \<not> standing inp (placed_all inp) ip" for ip
    using w(2) by (auto simp: last_of_None)
  ultimately show ?thesis
    using Build_ops [of e inp] by blast
qed

lemma list_all2_right: "list_all2 P xs ys \<Longrightarrow> y \<in> set ys \<Longrightarrow> \<exists>x \<in> set xs. P x y"
  by (induction rule: list_all2_induct) auto

lemma list_all2_left: "list_all2 P xs ys \<Longrightarrow> x \<in> set xs \<Longrightarrow> \<exists>y \<in> set ys. P x y"
  by (induction rule: list_all2_induct) auto

lemma settled_idle:
  assumes "settled inp"
  shows "pn_Applied (Build e inp) = 0 \<and> pn_Created (Build e inp) = 0"
proof -
  obtain ips where "distinct ips"
      and ips: "list_all2 (\<lambda>ip opn. \<exists>c. last_of (kept inp) ip = Some c \<and> planned inp ip c opn) ips (pn_Ops (Build e inp))"
      "\<forall>ip. ip \<in> set ips \<longleftrightarrow> last_of (kept inp) ip \<noteq> None \<and> \<not> standing inp (placed_all inp) ip"
    using plan_pairs [of inp e] by blast
  have "ao_Kind opn \<noteq> ARPCreate \<and> ao_Kind opn \<noteq> ARPFill \<and> ao_Kind opn \<noteq> ARPUpdate" if opn: "opn \<in> set (pn_Ops (Build e inp))" for opn
  proof -
    obtain ip c where ip: "ip \<in> set ips" "last_of (kept inp) ip = Some c" "planned inp ip c opn"
      using list_all2_right [OF ips(1) opn] by blast
    obtain a where a: "tget (address_index inp) ip = Some a" "agrees a (cd_mac c)"
      using assms ip(2) by (auto simp: settled_def)
    then have "stored_mac a = cd_mac c" "ip_MACAddress a \<noteq> []"
      using ip(1,2) ips(2) by (auto simp: agrees_def standing_iff)
    then show ?thesis
      using ip(3) a(1) by (auto simp: planned_def row_rule_def)
  qed
  then show ?thesis
    using Build_ops [of e inp] by (simp add: counts_def filter_empty_conv)
qed

section \<open>The identifiers of created addresses\<close>

definition created_ids :: "ArpInput \<Rightarrow> Plan \<Rightarrow> bool" where
  "created_ids inp p = (pn_Created p \<ge> 0 \<and>
     map ao_AddressID (filter (\<lambda>opn. ao_Kind opn = ARPCreate) (pn_Ops p)) = map (ai_NewID inp) [0..<nat (pn_Created p)])"

lemma plan_ip_created: "created_ids inp p \<Longrightarrow> created_ids inp (plan_ip e inp st ip p)"
  by (auto simp: created_ids_def plan_ip_def plan_create_def plan_address_def Let_def nat_add_distrib split: option.splits)

lemma Build_created: "created_ids inp (Build e inp)"
proof -
  have "created_ids inp p \<Longrightarrow> created_ids inp (fold (plan_ip e inp st) ips p)" for st ips p
    by (induction ips arbitrary: p) (simp_all add: plan_ip_created)
  then show ?thesis
    using placed_all_spec(2) [of inp] by (auto simp: Build_def Let_def only_counted_def created_ids_def)
qed
section \<open>Applying operations that fit\<close>

text \<open>An operation fits a store when the store will carry it out, and the record it then writes.\<close>

definition op_fits :: "string \<Rightarrow> Mem \<Rightarrow> ARPOp \<Rightarrow> bool" where
  "op_fits t m opn =
     (if ao_Kind opn = ARPCreate
      then findAddrLocked t (ao_Address opn) m = None \<and> tenant_row sn_TenantID t (ao_SubnetID opn) (m_subnets m) \<noteq> None \<and>
        tget (m_addrs m) (ao_AddressID opn) = None
      else \<exists>a. tenant_row ip_TenantID t (ao_AddressID opn) (m_addrs m) = Some a \<and> ip_ID a = ao_AddressID opn \<and>
        arp_change opn a \<noteq> None)"

definition op_row :: "env \<Rightarrow> string \<Rightarrow> Mem \<Rightarrow> ARPOp \<Rightarrow> IPAddress" where
  "op_row e t m opn =
     (if ao_Kind opn = ARPCreate then arp_created e t opn
      else (the (arp_change opn (the (tget (m_addrs m) (ao_AddressID opn)))))\<lparr>ip_UpdatedAt := env_mnow e\<rparr>)"

lemma op_fits_apply:
  assumes "op_fits t m opn"
  shows "applyARPOpLocked e t opn m = (True, m\<lparr>m_addrs := tput (ao_AddressID opn) (op_row e t m opn) (m_addrs m)\<rparr>)"
proof (cases "ao_Kind opn = ARPCreate")
  case True
  then show ?thesis
    using assms by (simp add: op_fits_def op_row_def applyARPOpLocked_def)
next
  case False
  then obtain a a' where a: "tenant_row ip_TenantID t (ao_AddressID opn) (m_addrs m) = Some a" "ip_ID a = ao_AddressID opn"
      "arp_change opn a = Some a'"
    using assms by (auto simp: op_fits_def)
  moreover from a(1) have "tget (m_addrs m) (ao_AddressID opn) = Some a"
    by (simp add: tenant_row_Some)
  ultimately show ?thesis
    using False by (simp add: op_row_def applyARPOpLocked_def)
qed

lemma op_row_keeps:
  assumes "op_fits t m opn" and "ao_Kind opn \<noteq> ARPCreate"
  obtains a where "tget (m_addrs m) (ao_AddressID opn) = Some a" "ip_Address (op_row e t m opn) = ip_Address a"
    "ip_TenantID (op_row e t m opn) = ip_TenantID a" "ip_ID (op_row e t m opn) = ip_ID a" "ip_TenantID a = t"
proof -
  obtain a a' where a: "tget (m_addrs m) (ao_AddressID opn) = Some a" "ip_TenantID a = t" "arp_change opn a = Some a'"
    using assms by (auto simp: op_fits_def tenant_row_Some)
  then show ?thesis
    using that arp_change_keys [of opn a a'] assms(2) by (auto simp: op_row_def)
qed

lemma findAddr_absent: "twf (m_addrs m) \<Longrightarrow> findAddrLocked t x m = None \<longleftrightarrow>
    (\<forall>i a. tget (m_addrs m) i = Some a \<longrightarrow> ip_TenantID a = t \<longrightarrow> ip_Address a \<noteq> x)"
  by (simp add: findAddrLocked_def tfind_None Ball_def tvals_mem_iff) blast

text \<open>Operations on different records and addresses do not disturb each other.\<close>

lemma op_fits_other:
  fixes e :: env
  assumes wf: "twf (m_addrs m)" and one: "op_fits t m o1" and two: "op_fits t m o2"
    and ids: "ao_AddressID o1 \<noteq> ao_AddressID o2" and addrs: "ao_Address o1 \<noteq> ao_Address o2"
  defines "m' \<equiv> m\<lparr>m_addrs := tput (ao_AddressID o1) (op_row e t m o1) (m_addrs m)\<rparr>"
  shows "op_fits t m' o2 \<and> op_row f t m' o2 = op_row f t m o2"
proof (cases "ao_Kind o2 = ARPCreate")
  case True
  have free: "ip_Address (op_row e t m o1) \<noteq> ao_Address o2 \<or> ip_TenantID (op_row e t m o1) \<noteq> t"
  proof (cases "ao_Kind o1 = ARPCreate")
    case True
    then show ?thesis
      using addrs by (simp add: op_row_def arp_created_def)
  next
    case False
    from op_row_keeps [OF one this, of e] show ?thesis
      using two True wf by (metis findAddr_absent op_fits_def)
  qed
  have wf': "twf (m_addrs m')"
    using wf by (simp add: m'_def)
  have "findAddrLocked t (ao_Address o2) m' = None"
    unfolding findAddr_absent [OF wf'] using two True free wf
    by (auto simp: m'_def op_fits_def findAddr_absent simp del: not_None_eq split: if_splits)
  then show ?thesis
    using True two ids by (simp add: op_fits_def op_row_def m'_def del: not_None_eq)
next
  case False
  then show ?thesis
    using two ids by (simp add: op_fits_def op_row_def m'_def tenant_row_Some)
qed

lemma op_fits_cong: "m_addrs m' = m_addrs m \<Longrightarrow> m_subnets m' = m_subnets m \<Longrightarrow> op_fits t m' opn = op_fits t m opn"
  "m_addrs m' = m_addrs m \<Longrightarrow> op_row e t m' opn = op_row e t m opn"
  by (simp_all add: op_fits_def op_row_def findAddrLocked_def)

lemma op_row_skip [simp]: "op_row (env_skip n e) t m opn = op_row e t m opn"
  by (simp add: op_row_def arp_created_def env_skip_def)

lemma applyARPOps_all:
  assumes "twf (m_addrs m)" and "\<forall>opn \<in> set ops. op_fits t m opn"
    and "distinct (map ao_AddressID ops)" and "distinct (map ao_Address ops)"
  shows "(\<forall>opn \<in> set ops. tget (m_addrs (applyARPOps e t ops m)) (ao_AddressID opn) = Some (op_row e t m opn)) \<and>
    (\<forall>i. i \<notin> ao_AddressID ` set ops \<longrightarrow> tget (m_addrs (applyARPOps e t ops m)) i = tget (m_addrs m) i)"
  using assms
proof (induction ops arbitrary: e m)
  case (Cons o1 ops)
  let ?m1 = "m\<lparr>m_addrs := tput (ao_AddressID o1) (op_row e t m o1) (m_addrs m)\<rparr>"
  let ?m2 = "appendAudits e t (ao_Audit o1) ?m1"
  have o1: "op_fits t m o1"
    using Cons.prems(2) by simp
  have same: "op_fits t ?m2 o2 \<and> op_row f t ?m2 o2 = op_row f t m o2" if "o2 \<in> set ops" for o2 f
  proof -
    have "ao_AddressID o1 \<noteq> ao_AddressID o2" "ao_Address o1 \<noteq> ao_Address o2" "op_fits t m o2"
      using Cons.prems that by auto
    from op_fits_other [OF Cons.prems(1) o1 this(3,1,2), of e f] show ?thesis
      using op_fits_cong [of ?m2 ?m1] by simp
  qed
  have "applyARPOps e t (o1 # ops) m = applyARPOps (env_skip (length (ao_Audit o1)) e) t ops ?m2"
    by (simp add: op_fits_apply [OF o1])
  moreover note Cons.IH [of ?m2 "env_skip (length (ao_Audit o1)) e"]
  ultimately show ?case
    using Cons.prems same by auto
qed simp

lemma applyARPOps_rest:
  "m_subnets (applyARPOps e t ops m) = m_subnets m \<and> m_ifaces (applyARPOps e t ops m) = m_ifaces m \<and>
   m_devices (applyARPOps e t ops m) = m_devices m \<and> m_failNext (applyARPOps e t ops m) = m_failNext m"
proof (induction ops arbitrary: e m)
  case (Cons o1 ops)
  obtain b m' where "applyARPOpLocked e t o1 m = (b, m')"
    by (cases "applyARPOpLocked e t o1 m")
  moreover from this have "m_subnets m' = m_subnets m \<and> m_ifaces m' = m_ifaces m \<and> m_devices m' = m_devices m \<and> m_failNext m' = m_failNext m"
    by (auto simp: applyARPOpLocked_def split: if_splits option.splits)
  ultimately show ?case
    using Cons.IH by (cases b) simp_all
qed simp

section \<open>Addresses of records\<close>

definition ip_key :: "IPAddress \<Rightarrow> Addr option" where
  "ip_key a = map_option plain_ip (ParseAddr (ip_Address a))"

lemma plain_ip_plain: "plain_ip (plain_ip a) = plain_ip a" "a \<noteq> AddrInvalid \<Longrightarrow> plain_ip a \<noteq> AddrInvalid"
  by (cases a; simp add: plain_ip_def Addr_Unmap_def Addr_Is4In6_def)+

lemma kept_ip:
  assumes "last_of (kept inp) ip = Some c"
  shows "cd_ip c = ip" and "ip \<noteq> AddrInvalid" and "plain_ip ip = ip" and "trusted inp c"
    and "\<exists>sid. subnetOf (tenant_candidates inp) ip = Some sid"
proof -
  show ip: "cd_ip c = ip"
    by (rule last_of_Some(2) [OF assms])
  have "c \<in> set (kept inp)"
    using last_of_Some(1) [OF assms] by auto
  then show tr: "trusted inp c" and "\<exists>sid. subnetOf (tenant_candidates inp) ip = Some sid"
    using all_cands_trusted ip by (auto simp: kept_def)
  then show "ip \<noteq> AddrInvalid" "plain_ip ip = ip"
    using ip ParseAddr_valid plain_ip_plain unfolding trusted_def by metis+
qed

lemma Addr_String_inj: "a \<noteq> AddrInvalid \<Longrightarrow> b \<noteq> AddrInvalid \<Longrightarrow> Addr_String a = Addr_String b \<Longrightarrow> a = b"
  by (metis ParseAddr_String option.inject)

lemma even_unat_byte: "even (unat (b :: byte)) \<longleftrightarrow> even b"
  by transfer (simp add: even_take_bit_eq even_nat_iff)

lemma trusted_mac:
  assumes "trusted inp c"
  shows "cd_mac c \<noteq> []" and "NormalizeMAC (cd_mac c) = Some (cd_mac c)"
proof -
  obtain hw where hw: "length hw = 6" "hw \<noteq> replicate 6 0" "even (hw ! 0)" "cd_mac c = HardwareAddr_String hw"
    using assms by (auto simp: trusted_def)
  then have "hw \<noteq> []"
    by auto
  then show "cd_mac c \<noteq> []"
    using hw(4) length_HardwareAddr_String [of hw] hw(1) by auto
  have "even (unat (hd hw))"
    using hw(3) \<open>hw \<noteq> []\<close> by (simp add: hd_conv_nth even_unat_byte)
  moreover have "\<not> list_all (\<lambda>b. b = 0) hw"
  proof
    assume "list_all (\<lambda>b. b = 0) hw"
    then have "hw = replicate 6 0"
      by (intro replicate_eqI hw(1)) (simp add: list_all_iff)
    with hw(2) show False ..
  qed
  moreover have "ParseMAC (trim_space (cd_mac c)) = Some hw"
    unfolding hw(4) trim_space_graphic [OF graphic_HardwareAddr_String] by (rule ParseMAC_String [OF hw(1)])
  ultimately show "NormalizeMAC (cd_mac c) = Some (cd_mac c)"
    using hw(1,4) by (simp add: NormalizeMAC_def)
qed

text \<open>The index holds, for each address, the record with the least identifier.\<close>

lemma index_last:
  "tget (address_index inp) ip =
     (let rs = filter (\<lambda>a. ip_TenantID a = ai_TenantID inp \<and> ip_key a = Some ip) (ai_Addresses inp) in
      if rs = [] then None else Some (last rs))"
proof -
  have "tget (fold (\<lambda>a t. case ParseAddr (ip_Address a) of
         Some ip \<Rightarrow> if ip_TenantID a = ai_TenantID inp then tput (plain_ip ip) a t else t
       | None \<Rightarrow> t) as []) ip =
     (let rs = filter (\<lambda>a. ip_TenantID a = ai_TenantID inp \<and> ip_key a = Some ip) as in
      if rs = [] then None else Some (last rs))" for as
    by (induction as rule: rev_induct) (auto simp: ip_key_def Let_def split: option.splits)
  then show ?thesis
    by (simp add: address_index_def)
qed

lemma last_least:
  assumes "xs \<noteq> []" and "sorted_wrt (\<lambda>x y. idf y \<le> (idf x :: string)) xs" and "x \<in> set xs"
  shows "idf (last xs) \<le> idf x"
  using assms by (cases xs rule: rev_cases) (auto simp: sorted_wrt_append)

section \<open>The phase on the memory store\<close>

definition mem_input :: "env \<Rightarrow> IPScanJob \<Rightarrow> ARPSettings \<Rightarrow> arpRead \<Rightarrow> Mem \<Rightarrow> ArpInput" where
  "mem_input e job cfg read m = arp_input e job cfg read
     (sort_desc sn_ID (filter (\<lambda>s. sn_TenantID s = sj_TenantID job) (tvals (m_subnets m))))
     (sort_desc ip_ID (map (decorateAddrLocked m) (filter (\<lambda>a. ip_TenantID a = sj_TenantID job) (tvals (m_addrs m)))))
     (networkMACsLocked m (sj_TenantID job))"

lemma planARP_mem:
  assumes "m_failNext (w_store w) = []"
  shows "planARP mem_store e job cfg read w = (Inr (Build (env_lane 1 e) (mem_input e job cfg read (w_store w))), w)"
  using assms
  by (simp add: planARP_def bind_op_def on_store_def ret_def mem_input_def AllSubnetCIDRs_def ListAddresses_def NetworkMACs_def
      guarded_def mfail_def paginate_all AddressFilter0_def address_matches_def)

lemma decorate_keeps [simp]:
  "ip_ID (decorateAddrLocked m a) = ip_ID a" "ip_TenantID (decorateAddrLocked m a) = ip_TenantID a"
  "ip_Address (decorateAddrLocked m a) = ip_Address a" "ip_MACAddress (decorateAddrLocked m a) = ip_MACAddress a"
  "ip_MACSource (decorateAddrLocked m a) = ip_MACSource a" "ip_MACConflict (decorateAddrLocked m a) = ip_MACConflict a"
  by (simp_all add: decorateAddrLocked_def split: option.splits)

lemma decorate_derived [simp]:
  "ip_key (decorateAddrLocked m a) = ip_key a" "stored_mac (decorateAddrLocked m a) = stored_mac a"
  "agrees (decorateAddrLocked m a) mac = agrees a mac"
  by (simp_all add: ip_key_def stored_mac_def agrees_def)

text \<open>The records of a tenant for an address.\<close>

definition rec_at :: "string \<Rightarrow> Mem \<Rightarrow> Addr \<Rightarrow> IPAddress \<Rightarrow> bool" where
  "rec_at t m ip r = (tget (m_addrs m) (ip_ID r) = Some r \<and> ip_TenantID r = t \<and> ip_key r = Some ip)"

lemma addrs_ok: "mem_wf m \<Longrightarrow> twf (m_addrs m)" "mem_wf m \<Longrightarrow> tget (m_addrs m) i = Some r \<Longrightarrow> ip_ID r = i"
  by (auto simp: wf_defs row_ok_def)

lemma mem_index:
  assumes wf: "mem_wf m"
  shows "tget (address_index (mem_input e job cfg read m)) ip = None \<longleftrightarrow> (\<forall>r. \<not> rec_at (sj_TenantID job) m ip r)"
    and "tget (address_index (mem_input e job cfg read m)) ip = Some a \<Longrightarrow>
      \<exists>r. rec_at (sj_TenantID job) m ip r \<and> a = decorateAddrLocked m r \<and>
        (\<forall>r'. rec_at (sj_TenantID job) m ip r' \<longrightarrow> ip_ID r \<le> ip_ID r')"
proof -
  let ?t = "sj_TenantID job"
  let ?all = "sort_desc ip_ID (map (decorateAddrLocked m) (filter (\<lambda>a. ip_TenantID a = ?t) (tvals (m_addrs m))))"
  define rs where "rs = filter (\<lambda>a. ip_TenantID a = ?t \<and> ip_key a = Some ip) ?all"
  have mem: "x \<in> set rs \<longleftrightarrow> (\<exists>r. rec_at ?t m ip r \<and> x = decorateAddrLocked m r)" for x
  proof -
    have "r \<in> set (tvals (m_addrs m)) \<longleftrightarrow> tget (m_addrs m) (ip_ID r) = Some r" for r
      using tvals_mem_iff [OF addrs_ok(1) [OF wf]] addrs_ok(2) [OF wf] by metis
    then show ?thesis
      by (auto simp: rs_def rec_at_def)
  qed
  have idx: "tget (address_index (mem_input e job cfg read m)) ip = (if rs = [] then None else Some (last rs))"
    unfolding index_last mem_input_def arp_input_def Let_def by (simp flip: rs_def)
  show "tget (address_index (mem_input e job cfg read m)) ip = None \<longleftrightarrow> (\<forall>r. \<not> rec_at ?t m ip r)"
  proof -
    have "rs = [] \<longleftrightarrow> (\<forall>x. x \<notin> set rs)"
      by auto
    also have "\<dots> \<longleftrightarrow> (\<forall>r. \<not> rec_at ?t m ip r)"
      unfolding mem by blast
    finally show ?thesis
      unfolding idx by simp
  qed
  have sorted: "sorted_wrt (\<lambda>x y. ip_ID y \<le> ip_ID x) rs"
    unfolding rs_def by (intro sorted_wrt_filter sorted_sort_desc)
  show "\<exists>r. rec_at ?t m ip r \<and> a = decorateAddrLocked m r \<and> (\<forall>r'. rec_at ?t m ip r' \<longrightarrow> ip_ID r \<le> ip_ID r')"
    if "tget (address_index (mem_input e job cfg read m)) ip = Some a"
  proof -
    have a: "rs \<noteq> []" "a = last rs"
      using that by (auto simp: idx split: if_splits)
    then obtain r where r: "rec_at ?t m ip r" "a = decorateAddrLocked m r"
      using mem [of a] last_in_set by blast
    moreover have "ip_ID r \<le> ip_ID r'" if "rec_at ?t m ip r'" for r'
    proof -
      have "decorateAddrLocked m r' \<in> set rs"
        unfolding mem using that by blast
      from last_least [OF a(1) sorted this] show ?thesis
        unfolding a(2) [symmetric] r(2) by simp
    qed
    ultimately show ?thesis
      by blast
  qed
qed

section \<open>Every planned operation fits\<close>

text \<open>The hypotheses of a phase: a well-formed store and identifiers nobody uses yet.\<close>

definition phase_ready :: "env \<Rightarrow> Mem \<Rightarrow> bool" where
  "phase_ready e m = (mem_wf m \<and> m_failNext m = [] \<and> inj (env_ids e) \<and> (\<forall>n. tget (m_addrs m) (env_ids e n) = None))"

lemma row_rule_changes:
  assumes "row_rule a mac (ao_Kind opn)" and "stored_mac a = stored_mac r" and "ip_MACAddress a = ip_MACAddress r"
    and "ip_MACSource a = ip_MACSource r"
  shows "\<exists>r'. arp_change opn r = Some r'"
  using assms by (auto simp: row_rule_def arp_change_def arpOwned_def)

lemma MostSpecific_mem: "MostSpecific cs ip = Some c \<Longrightarrow> c \<in> set cs"
proof -
  have "most_specific_scan a best cs = Some (c, n) \<Longrightarrow> best = Some (c, n) \<or> c \<in> set cs" for a best n
  proof (induction cs arbitrary: best)
    case (Cons d cs)
    then show ?case
      by (auto simp: Let_def split: option.splits if_splits prod.splits dest!: Cons.IH)
  qed simp
  then show "MostSpecific cs ip = Some c \<Longrightarrow> c \<in> set cs"
    by (auto simp: MostSpecific_def)
qed

lemma subnet_exists:
  assumes wf: "mem_wf m" and "subnetOf (tenant_candidates (mem_input e job cfg read m)) ip = Some sid"
  shows "tenant_row sn_TenantID (sj_TenantID job) sid (m_subnets m) \<noteq> None"
proof -
  obtain c where "MostSpecific (tenant_candidates (mem_input e job cfg read m)) ip = Some c" "cand_ID c = sid"
    using assms(2) by (auto simp: subnetOf_def)
  then have "c \<in> set (tenant_candidates (mem_input e job cfg read m))"
    using MostSpecific_mem by blast
  then obtain s where "s \<in> set (tvals (m_subnets m))" "sn_TenantID s = sj_TenantID job" "sn_ID s = sid"
    using \<open>cand_ID c = sid\<close> by (auto simp: tenant_candidates_def mem_input_def arp_input_def)
  moreover have "twf (m_subnets m)" "\<forall>k v. tget (m_subnets m) k = Some v \<longrightarrow> sn_ID v = k"
    using wf by (auto simp: wf_defs row_ok_def)
  ultimately show ?thesis
    by (auto simp: tvals_mem_iff tenant_row_Some)
qed

lemma planned_fits:
  assumes ready: "phase_ready e m" and c: "last_of (kept (mem_input e job cfg read m)) ip = Some c"
    and p: "planned (mem_input e job cfg read m) ip c opn"
    and new: "ao_Kind opn = ARPCreate \<Longrightarrow> \<exists>n. ao_AddressID opn = env_ids e n"
    and wf: "mem_wf m"
  shows "op_fits (sj_TenantID job) m opn"
proof (cases "tget (address_index (mem_input e job cfg read m)) ip")
  case None
  have k: "ao_Kind opn = ARPCreate" "ao_Address opn = Addr_String ip"
      "subnetOf (tenant_candidates (mem_input e job cfg read m)) ip = Some (ao_SubnetID opn)"
    using p None kept_ip(1) [OF c] by (simp_all add: planned_def)
  have "ip_Address r \<noteq> Addr_String ip" if "tget (m_addrs m) i = Some r" "ip_TenantID r = sj_TenantID job" for i r
  proof
    assume "ip_Address r = Addr_String ip"
    then have "rec_at (sj_TenantID job) m ip r"
      unfolding rec_at_def ip_key_def
      using that addrs_ok(2) [OF wf that(1)] by (simp add: ParseAddr_String [OF kept_ip(2) [OF c]] kept_ip(3) [OF c])
    then show False
      using None mem_index(1) [OF wf, of e job cfg read ip] by simp
  qed
  then have "findAddrLocked (sj_TenantID job) (ao_Address opn) m = None"
    unfolding findAddr_absent [OF addrs_ok(1) [OF wf]] k(2) by blast
  moreover have "tget (m_addrs m) (ao_AddressID opn) = None"
    using new [OF k(1)] ready by (auto simp: phase_ready_def)
  ultimately show ?thesis
    using k(1) subnet_exists [OF wf k(3)] by (simp add: op_fits_def del: not_None_eq)
next
  case (Some a)
  then obtain r where r: "rec_at (sj_TenantID job) m ip r" "a = decorateAddrLocked m r"
    using mem_index(2) [OF wf Some] by blast
  have k: "ao_AddressID opn = ip_ID r" "row_rule a (cd_mac c) (ao_Kind opn)"
    using p Some r(2) by (simp_all add: planned_def)
  have "ao_Kind opn \<noteq> ARPCreate"
    using k(2) by (auto simp: row_rule_def)
  moreover have "\<exists>r'. arp_change opn r = Some r'"
    using row_rule_changes [OF k(2)] r(2) by simp
  ultimately show ?thesis
    using r(1) k(1) by (simp add: op_fits_def rec_at_def tenant_row_Some)
qed

section \<open>A plan as a whole\<close>

lemma distinct_related:
  assumes "list_all2 R xs ys" and "distinct xs"
    and "\<And>x y x' y'. R x y \<Longrightarrow> R x' y' \<Longrightarrow> P y \<Longrightarrow> P y' \<Longrightarrow> g y = g y' \<Longrightarrow> x = x'"
  shows "distinct (map g (filter P ys))"
  using assms(1,2)
proof (induction rule: list_all2_induct)
  case (Cons x xs y ys)
  have "g y \<noteq> g y'" if y': "y' \<in> set ys" "P y" "P y'" for y'
  proof
    assume eq: "g y = g y'"
    obtain x' where "x' \<in> set xs" "R x' y'"
      using list_all2_right [OF Cons.hyps(2) y'(1)] by blast
    then show False
      using assms(3) [OF Cons.hyps(1) \<open>R x' y'\<close> y'(2,3) eq] Cons.prems by simp
  qed
  then show ?case
    using Cons by auto
qed simp

lemma distinct_split:
  "distinct (map g (filter P ys)) \<Longrightarrow> distinct (map g (filter (\<lambda>y. \<not> P y) ys)) \<Longrightarrow>
    (\<And>y y'. y \<in> set ys \<Longrightarrow> y' \<in> set ys \<Longrightarrow> P y \<Longrightarrow> \<not> P y' \<Longrightarrow> g y \<noteq> g y') \<Longrightarrow> distinct (map g ys)"
  by (induction ys) (force split: if_splits)+

lemma planned_create: "planned inp ip c opn \<Longrightarrow> ao_Kind opn = ARPCreate \<longleftrightarrow> tget (address_index inp) ip = None"
  by (auto simp: planned_def row_rule_def split: option.splits)

lemma rec_at_unique: "rec_at t m ip r \<Longrightarrow> rec_at t m ip' r' \<Longrightarrow> ip_ID r = ip_ID r' \<Longrightarrow> r = r' \<and> ip = ip'"
  by (simp add: rec_at_def)

lemma mem_input_NewID: "ai_NewID (mem_input e job cfg read m) = (\<lambda>n. env_ids e (4 * n))"
  by (simp add: mem_input_def arp_input_def env_lane_def)

text \<open>The pairs of addresses and operations of a plan for a store.\<close>

definition pairs_of :: "Mem \<Rightarrow> env \<Rightarrow> ArpInput \<Rightarrow> string \<Rightarrow> Addr \<Rightarrow> ARPOp \<Rightarrow> bool" where
  "pairs_of m e inp t ip opn = (\<exists>c. last_of (kept inp) ip = Some c \<and> planned inp ip c opn \<and> op_fits t m opn \<and>
     (if ao_Kind opn = ARPCreate then (\<forall>r. \<not> rec_at t m ip r) \<and> (\<exists>n. ao_AddressID opn = env_ids e n)
      else \<exists>r. rec_at t m ip r \<and> ao_AddressID opn = ip_ID r))"

lemma pairs_of_rec:
  assumes ready: "phase_ready e m" and p: "pairs_of m e inp t ip0 opn" and r: "rec_at t m ip r" and i: "ao_AddressID opn = ip_ID r"
  shows "ip0 = ip"
proof (cases "ao_Kind opn = ARPCreate")
  case True
  then obtain n where "ip_ID r = env_ids e n"
    using p i by (auto simp: pairs_of_def)
  then show ?thesis
    using ready r by (simp add: phase_ready_def rec_at_def)
next
  case False
  then obtain r0 where "rec_at t m ip0 r0" "ip_ID r0 = ip_ID r"
    using p i by (auto simp: pairs_of_def)
  then show ?thesis
    using rec_at_unique [OF _ r] by blast
qed

lemma plan_shape:
  fixes job :: IPScanJob and cfg :: ARPSettings and read :: arpRead
  assumes ready: "phase_ready e m"
  defines "inp \<equiv> mem_input e job cfg read m"
  shows "\<exists>ips. distinct ips \<and> list_all2 (pairs_of m e inp (sj_TenantID job)) ips (pn_Ops (Build f inp)) \<and>
     (\<forall>ip. ip \<in> set ips \<longleftrightarrow> last_of (kept inp) ip \<noteq> None \<and> \<not> standing inp (placed_all inp) ip)"
proof -
  have wf: "mem_wf m"
    using ready by (simp add: phase_ready_def)
  obtain ips where ips: "distinct ips"
      "list_all2 (\<lambda>ip opn. \<exists>c. last_of (kept inp) ip = Some c \<and> planned inp ip c opn) ips (pn_Ops (Build f inp))"
      "\<forall>ip. ip \<in> set ips \<longleftrightarrow> last_of (kept inp) ip \<noteq> None \<and> \<not> standing inp (placed_all inp) ip"
    using plan_pairs [of inp f] by blast
  have new: "\<exists>n. ao_AddressID opn = env_ids e n" if "opn \<in> set (pn_Ops (Build f inp))" "ao_Kind opn = ARPCreate" for opn
  proof -
    have "ao_AddressID opn \<in> set (map ao_AddressID (filter (\<lambda>opn. ao_Kind opn = ARPCreate) (pn_Ops (Build f inp))))"
      using that by simp
    then have "ao_AddressID opn \<in> set (map (ai_NewID inp) [0..<nat (pn_Created (Build f inp))])"
      using Build_created [of inp f] unfolding created_ids_def by metis
    then show ?thesis
      by (auto simp: inp_def mem_input_NewID)
  qed
  have "pairs_of m e inp (sj_TenantID job) ip opn"
    if "last_of (kept inp) ip = Some c" "planned inp ip c opn" "opn \<in> set (pn_Ops (Build f inp))" for ip opn c
  proof -
    have "op_fits (sj_TenantID job) m opn"
      using planned_fits [OF ready _ _ _ wf] that new [OF that(3)] unfolding inp_def by blast
    moreover have "if ao_Kind opn = ARPCreate then \<forall>r. \<not> rec_at (sj_TenantID job) m ip r
        else \<exists>r. rec_at (sj_TenantID job) m ip r \<and> ao_AddressID opn = ip_ID r"
    proof (cases "tget (address_index inp) ip")
      case None
      then show ?thesis
        using mem_index(1) [OF wf] planned_create [OF that(2)] by (simp add: inp_def)
    next
      case (Some a)
      obtain r where "rec_at (sj_TenantID job) m ip r" "a = decorateAddrLocked m r"
        using mem_index(2) [OF wf Some [unfolded inp_def]] by blast
      then show ?thesis
        using Some planned_create [OF that(2)] that(2) by (auto simp: planned_def)
    qed
    ultimately show ?thesis
      using that(1,2) new [OF that(3)] by (auto simp: pairs_of_def)
  qed
  then have "list_all2 (pairs_of m e inp (sj_TenantID job)) ips (pn_Ops (Build f inp))"
    using ips(2) by (auto simp: list_all2_conv_all_nth)
  then show ?thesis
    using ips(1,3) by blast
qed

lemma plan_distinct:
  fixes job :: IPScanJob and cfg :: ARPSettings and read :: arpRead
  assumes ready: "phase_ready e m"
  defines "inp \<equiv> mem_input e job cfg read m"
  shows "distinct (map ao_AddressID (pn_Ops (Build f inp)))" and "distinct (map ao_Address (pn_Ops (Build f inp)))"
proof -
  let ?t = "sj_TenantID job" and ?ops = "pn_Ops (Build f inp)"
  obtain ips where ips: "distinct ips" "list_all2 (pairs_of m e inp ?t) ips ?ops"
    using plan_shape [OF ready, of job cfg read f] unfolding inp_def by blast
  have "inj (env_ids e)"
    using ready by (simp add: phase_ready_def)
  then have "inj (ai_NewID inp)"
    by (intro injI) (simp add: inp_def mem_input_NewID inj_eq)
  then have "distinct (map ao_AddressID (filter (\<lambda>opn. ao_Kind opn = ARPCreate) ?ops))"
    using Build_created [of inp f] by (simp add: created_ids_def distinct_map inj_on_def inj_def)
  moreover have "distinct (map ao_AddressID (filter (\<lambda>opn. ao_Kind opn \<noteq> ARPCreate) ?ops))"
    by (rule distinct_related [OF ips(2,1)]) (auto simp: pairs_of_def dest: rec_at_unique)
  moreover have "ao_AddressID y \<noteq> ao_AddressID y'"
    if "y \<in> set ?ops" "y' \<in> set ?ops" "ao_Kind y = ARPCreate" "ao_Kind y' \<noteq> ARPCreate" for y y'
    using list_all2_right [OF ips(2) that(1)] list_all2_right [OF ips(2) that(2)] that(3,4) ready
    by (auto simp: pairs_of_def rec_at_def phase_ready_def)
  ultimately show "distinct (map ao_AddressID ?ops)"
    by (rule distinct_split)
  have "distinct (map ao_Address (filter (\<lambda>_. True) ?ops))"
  proof (rule distinct_related [OF ips(2,1)])
    fix x y x' y'
    assume "pairs_of m e inp ?t x y" "pairs_of m e inp ?t x' y'" and eq: "ao_Address y = ao_Address y'"
    then obtain c c' where "last_of (kept inp) x = Some c" "planned inp x c y" "last_of (kept inp) x' = Some c'" "planned inp x' c' y'"
      by (auto simp: pairs_of_def)
    then show "x = x'"
      using kept_ip(1,2) eq Addr_String_inj unfolding planned_def by metis
  qed
  then show "distinct (map ao_Address ?ops)"
    by simp
qed

section \<open>After the phase\<close>

lemma op_row_agrees:
  assumes "op_fits t m opn" and "tget (m_addrs m) (ao_AddressID opn) = Some r" and "ao_Kind opn \<noteq> ARPCreate"
    and "row_rule (decorateAddrLocked m r) (ao_MAC opn) (ao_Kind opn)"
    and "ao_MAC opn \<noteq> []" and "NormalizeMAC (ao_MAC opn) = Some (ao_MAC opn)"
  shows "agrees (op_row e t m opn) (ao_MAC opn)"
proof -
  obtain r' where r': "arp_change opn r = Some r'"
    using assms(1-3) by (auto simp: op_fits_def tenant_row_Some)
  have "op_row e t m opn = r'\<lparr>ip_UpdatedAt := env_mnow e\<rparr>"
    using assms(2,3) r' by (simp add: op_row_def)
  moreover have "agrees r' (ao_MAC opn)"
    using r' assms(4-6)
    by (auto simp: arp_change_def row_rule_def agrees_def stored_mac_def arpOwned_def split: if_splits)
  ultimately show ?thesis
    by (simp add: agrees_def stored_mac_def)
qed

lemma created_agrees:
  assumes "ao_Kind opn = ARPCreate" and "ao_MAC opn \<noteq> []" and "NormalizeMAC (ao_MAC opn) = Some (ao_MAC opn)"
  shows "agrees (op_row e t m opn) (ao_MAC opn)"
  using assms by (simp add: op_row_def arp_created_def agrees_def stored_mac_def IPAddress0_def)

lemma kept_cong:
  assumes "ai_Observations inp' = ai_Observations inp" "ai_ExcludedDevices inp' = ai_ExcludedDevices inp"
    "ai_NetworkMACs inp' = ai_NetworkMACs inp" "ai_ProxyThreshold inp' = ai_ProxyThreshold inp"
    "ai_TenantID inp' = ai_TenantID inp" "ai_Subnets inp' = ai_Subnets inp"
  shows "kept inp' = kept inp"
proof -
  have "cand_of inp' = cand_of inp"
    unfolding cand_of_def assms ..
  then show ?thesis
    by (simp add: kept_def all_cands_def scan_entries_def tenant_candidates_def proxy_threshold_def assms)
qed

text \<open>What a store is after the operations of a plan.\<close>

definition after_plan :: "env \<Rightarrow> string \<Rightarrow> ARPOp list \<Rightarrow> Mem \<Rightarrow> Mem \<Rightarrow> bool" where
  "after_plan f t ops m m' = (mem_wf m' \<and> m_failNext m' = [] \<and>
     (\<forall>opn \<in> set ops. tget (m_addrs m') (ao_AddressID opn) = Some (op_row f t m opn)) \<and>
     (\<forall>i. i \<notin> ao_AddressID ` set ops \<longrightarrow> tget (m_addrs m') i = tget (m_addrs m) i) \<and>
     m_subnets m' = m_subnets m \<and> networkMACsLocked m' = networkMACsLocked m)"

lemma rec_after:
  assumes wf: "mem_wf m" "mem_wf m'" and af: "after_plan f t ops m m'" and pairs: "list_all2 (pairs_of m e inp t) ips ops"
    and r': "rec_at t m' ip r'"
  shows "(\<exists>r. rec_at t m ip r \<and> ip_ID r = ip_ID r') \<or>
    (\<exists>opn \<in> set ops. ao_Kind opn = ARPCreate \<and> pairs_of m e inp t ip opn \<and> r' = op_row f t m opn)"
proof (cases "ip_ID r' \<in> ao_AddressID ` set ops")
  case False
  then show ?thesis
    using r' af by (auto simp: rec_at_def after_plan_def)
next
  case True
  then obtain opn where opn: "opn \<in> set ops" "ip_ID r' = ao_AddressID opn"
    by auto
  then have row: "r' = op_row f t m opn"
    using r' af by (auto simp: rec_at_def after_plan_def)
  obtain ip0 where p: "pairs_of m e inp t ip0 opn"
    using list_all2_right [OF pairs opn(1)] by blast
  then obtain c where c: "last_of (kept inp) ip0 = Some c" "planned inp ip0 c opn" and fits: "op_fits t m opn"
    by (auto simp: pairs_of_def)
  show ?thesis
  proof (cases "ao_Kind opn = ARPCreate")
    case True
    have "ao_Address opn = Addr_String ip0"
      using c kept_ip(1) [OF c(1)] by (simp add: planned_def)
    then have "ip_key r' = Some ip0"
      using True row by (simp add: op_row_def arp_created_def ip_key_def ParseAddr_String [OF kept_ip(2) [OF c(1)]] kept_ip(3) [OF c(1)])
    then have "ip0 = ip"
      using r' by (simp add: rec_at_def)
    then show ?thesis
      using True p opn(1) row by blast
  next
    case False
    obtain a where "tget (m_addrs m) (ao_AddressID opn) = Some a" "ip_Address r' = ip_Address a" "ip_TenantID a = t"
        "ip_ID r' = ip_ID a"
      using op_row_keeps [OF fits False, of f] row by metis
    then have "rec_at t m ip a \<and> ip_ID a = ip_ID r'"
      using r' opn(2) by (simp add: rec_at_def ip_key_def)
    then show ?thesis
      by blast
  qed
qed

lemma rec_stays:
  assumes wf: "mem_wf m" and ready: "phase_ready e m" and af: "after_plan f t ops m m'"
    and pairs: "list_all2 (pairs_of m e inp t) ips ops" and r: "rec_at t m ip r"
  shows "\<exists>r'. rec_at t m' ip r' \<and> ip_ID r' = ip_ID r"
proof (cases "ip_ID r \<in> ao_AddressID ` set ops")
  case False
  then show ?thesis
    using r af by (intro exI [of _ r]) (simp add: rec_at_def after_plan_def)
next
  case True
  then obtain opn where opn: "opn \<in> set ops" "ip_ID r = ao_AddressID opn"
    by auto
  obtain ip0 where p: "pairs_of m e inp t ip0 opn"
    using list_all2_right [OF pairs opn(1)] by blast
  then have fits: "op_fits t m opn" and "ao_Kind opn \<noteq> ARPCreate"
    using r opn(2) ready by (auto simp: pairs_of_def rec_at_def phase_ready_def)
  from op_row_keeps [OF this, of f] obtain a where "tget (m_addrs m) (ao_AddressID opn) = Some a"
      "ip_Address (op_row f t m opn) = ip_Address a" "ip_TenantID (op_row f t m opn) = ip_TenantID a"
      "ip_ID (op_row f t m opn) = ip_ID a"
    by metis
  then have "rec_at t m' ip (op_row f t m opn) \<and> ip_ID (op_row f t m opn) = ip_ID r"
    using r opn af by (simp add: rec_at_def ip_key_def after_plan_def)
  then show ?thesis
    by blast
qed

text \<open>The record the index finds afterwards is the one it found before, or the created one.\<close>

lemma index_after:
  assumes ready: "phase_ready e m" and af: "after_plan f t ops m m'"
    and pairs: "list_all2 (pairs_of m e inp t) ips ops" and t: "t = sj_TenantID job"
    and r: "rec_at t m ip r" "\<forall>r'. rec_at t m ip r' \<longrightarrow> ip_ID r \<le> ip_ID r'"
  shows "\<exists>r'. tget (address_index (mem_input e' job cfg read m')) ip = Some (decorateAddrLocked m' r') \<and>
    tget (m_addrs m') (ip_ID r) = Some r'"
proof -
  have wf: "mem_wf m" "mem_wf m'"
    using ready af by (simp_all add: phase_ready_def after_plan_def)
  obtain r1 where r1: "rec_at t m' ip r1" "ip_ID r1 = ip_ID r"
    using rec_stays [OF wf(1) ready af pairs r(1)] by blast
  then have "tget (address_index (mem_input e' job cfg read m')) ip \<noteq> None"
    using mem_index(1) [OF wf(2), of e' job cfg read ip] t by auto
  then obtain a where a: "tget (address_index (mem_input e' job cfg read m')) ip = Some a"
    by blast
  obtain r2 where r2: "rec_at t m' ip r2" "a = decorateAddrLocked m' r2" "\<forall>r'. rec_at t m' ip r' \<longrightarrow> ip_ID r2 \<le> ip_ID r'"
    using mem_index(2) [OF wf(2) a] t by blast
  from rec_after [OF wf af pairs r2(1)] have "\<exists>r0. rec_at t m ip r0 \<and> ip_ID r0 = ip_ID r2"
    using r(1) by (auto simp: pairs_of_def)
  then have "ip_ID r2 = ip_ID r"
    using r(2) r2(3) r1 by (metis order_antisym)
  then show ?thesis
    using a r2(1,2) by (auto simp: rec_at_def)
qed

lemma created_after:
  assumes ready: "phase_ready e m" and af: "after_plan f t ops m m'" and ids: "distinct ips"
    and pairs: "list_all2 (pairs_of m e inp t) ips ops" and t: "t = sj_TenantID job"
    and opn: "opn \<in> set ops" "pairs_of m e inp t ip opn" "ao_Kind opn = ARPCreate"
    and addrs: "distinct (map ao_Address ops)"
  shows "tget (address_index (mem_input e' job cfg read m')) ip = Some (decorateAddrLocked m' (op_row f t m opn))"
proof -
  have wf: "mem_wf m" "mem_wf m'"
    using ready af by (simp_all add: phase_ready_def after_plan_def)
  obtain c where c: "last_of (kept inp) ip = Some c" "planned inp ip c opn"
    using opn(2) by (auto simp: pairs_of_def)
  have "ao_Address opn = Addr_String ip"
    using c kept_ip(1) [OF c(1)] by (simp add: planned_def)
  then have "rec_at t m' ip (op_row f t m opn)"
    using af opn(1,3) ParseAddr_String [OF kept_ip(2) [OF c(1)]] kept_ip(3) [OF c(1)]
    by (simp add: rec_at_def after_plan_def ip_key_def op_row_def arp_created_def)
  then have "tget (address_index (mem_input e' job cfg read m')) ip \<noteq> None"
    using mem_index(1) [OF wf(2), of e' job cfg read ip] t by auto
  then obtain a where a: "tget (address_index (mem_input e' job cfg read m')) ip = Some a"
    by blast
  obtain r2 where r2: "rec_at t m' ip r2" "a = decorateAddrLocked m' r2"
    using mem_index(2) [OF wf(2) a] t by blast
  from rec_after [OF wf af pairs r2(1)] obtain op2 where op2: "op2 \<in> set ops" "pairs_of m e inp t ip op2" "r2 = op_row f t m op2"
    using opn(2,3) by (auto simp: pairs_of_def)
  have "ao_Address op2 = ao_Address opn"
    using op2(2) c by (auto simp: pairs_of_def planned_def)
  then have "op2 = opn"
    using addrs op2(1) opn(1) by (simp add: distinct_map inj_on_def)
  then show ?thesis
    using a r2(2) op2(3) by simp
qed

lemma planned_mac: "planned inp ip c opn \<Longrightarrow> last_of (kept inp) ip = Some c \<Longrightarrow>
    ao_MAC opn = cd_mac c \<and> ao_MAC opn \<noteq> [] \<and> NormalizeMAC (ao_MAC opn) = Some (ao_MAC opn)"
  using trusted_mac [OF kept_ip(4)] by (simp add: planned_def)

lemma plan_settles:
  fixes cfg :: ARPSettings and read :: arpRead
  assumes ready: "phase_ready e m" and t: "t = sj_TenantID job"
  defines "inp \<equiv> mem_input e job cfg read m"
  assumes af: "after_plan f t (pn_Ops (Build g inp)) m m'" and job': "sj_TenantID job' = t"
  shows "settled (mem_input e' job' cfg read m')"
  unfolding settled_def
proof (intro allI impI)
  let ?inp' = "mem_input e' job' cfg read m'" and ?ops = "pn_Ops (Build g inp)"
  fix ip c
  assume c': "last_of (kept ?inp') ip = Some c"
  have "kept ?inp' = kept inp"
    using af job' t by (intro kept_cong) (simp_all add: inp_def mem_input_def arp_input_def after_plan_def)
  then have c: "last_of (kept inp) ip = Some c"
    using c' by simp
  have wf: "mem_wf m"
    using ready by (simp add: phase_ready_def)
  obtain ips where ips: "distinct ips" "list_all2 (pairs_of m e inp t) ips ?ops"
      "\<forall>ip. ip \<in> set ips \<longleftrightarrow> last_of (kept inp) ip \<noteq> None \<and> \<not> standing inp (placed_all inp) ip"
    using plan_shape [OF ready, of job cfg read g] unfolding inp_def t by blast
  show "\<exists>a. tget (address_index ?inp') ip = Some a \<and> agrees a (cd_mac c)"
  proof (cases "tget (address_index inp) ip")
    case None
    then have "ip \<in> set ips"
      using ips(3) c by (auto simp: standing_iff)
    then obtain opn where opn: "opn \<in> set ?ops" "pairs_of m e inp t ip opn"
      using list_all2_left [OF ips(2)] by blast
    then have p: "planned inp ip c opn"
      using c by (auto simp: pairs_of_def)
    have k: "ao_Kind opn = ARPCreate"
      using planned_create [OF p] None by simp
    have "tget (address_index ?inp') ip = Some (decorateAddrLocked m' (op_row f t m opn))"
      using created_after [OF ready af ips(1,2) job' [symmetric] opn k] plan_distinct(2) [OF ready] unfolding inp_def by blast
    moreover have "agrees (op_row f t m opn) (cd_mac c)"
      using created_agrees [OF k, of f t m] planned_mac [OF p c] by auto
    ultimately show ?thesis
      by simp
  next
    case (Some a)
    obtain r where r: "rec_at t m ip r" "a = decorateAddrLocked m r" "\<forall>r'. rec_at t m ip r' \<longrightarrow> ip_ID r \<le> ip_ID r'"
      using mem_index(2) [OF wf Some [unfolded inp_def]] t by blast
    obtain r' where r': "tget (address_index ?inp') ip = Some (decorateAddrLocked m' r')" "tget (m_addrs m') (ip_ID r) = Some r'"
      using index_after [OF ready af ips(2) job' [symmetric] r(1,3)] by blast
    have "agrees r' (cd_mac c)"
    proof (cases "standing inp (placed_all inp) ip")
      case True
      have "ip_ID r \<notin> ao_AddressID ` set ?ops"
      proof
        assume "ip_ID r \<in> ao_AddressID ` set ?ops"
        then obtain opn where "opn \<in> set ?ops" "ao_AddressID opn = ip_ID r"
          by auto
        moreover from this(1) obtain ip0 where "ip0 \<in> set ips" "pairs_of m e inp t ip0 opn"
          using list_all2_right [OF ips(2)] by blast
        ultimately have "ip0 = ip"
          using pairs_of_rec [OF ready _ r(1)] by blast
        then show False
          using \<open>ip0 \<in> set ips\<close> ips(3) True by blast
      qed
      then have "r' = r"
        using r'(2) af r(1) by (simp add: after_plan_def rec_at_def)
      then show ?thesis
        using True Some c r(2) by (auto simp: standing_iff agrees_def)
    next
      case False
      then have "ip \<in> set ips"
        using ips(3) c by simp
      then obtain opn where opn: "opn \<in> set ?ops" "pairs_of m e inp t ip opn"
        using list_all2_left [OF ips(2)] by blast
      then have p: "planned inp ip c opn" and fits: "op_fits t m opn"
        using c by (auto simp: pairs_of_def)
      have k: "ao_Kind opn \<noteq> ARPCreate" "ao_AddressID opn = ip_ID r" "row_rule (decorateAddrLocked m r) (cd_mac c) (ao_Kind opn)"
        using planned_create [OF p] p Some r(2) by (auto simp: planned_def)
      have "r' = op_row f t m opn"
        using r'(2) af opn(1) k(2) by (auto simp: after_plan_def)
      then show ?thesis
        using op_row_agrees [OF fits _ k(1), of r f] k r(1) planned_mac [OF p c] by (auto simp: rec_at_def)
    qed
    then show ?thesis
      using r'(1) by simp
  qed
qed

lemma arpPhase_mem:
  fixes e :: env and job :: IPScanJob and read :: arpRead
  assumes "m_failNext (w_store w) = []" and "as_Enabled cfg"
  defines "plan \<equiv> Build (env_lane 1 e) (mem_input e job cfg read (w_store w))"
  shows "\<exists>f rows job1. arpPhase mem_store e (Inr cfg) read job w =
      (job1, w\<lparr>w_store := appendAudits f (sj_TenantID job) rows (applyARPOps (env_lane 3 e) (sj_TenantID job) (pn_Ops plan) (w_store w))\<rparr>) \<and>
    sj_ARPStatus job1 = ARPRan \<and> sj_ARPApplied job1 = pn_Applied plan \<and> sj_ARPCreated job1 = pn_Created plan"
proof -
  let ?job = "job\<lparr>sj_ARPDevices := int (length (rd_obs read)), sj_ARPPartial := rd_partial read\<rparr>"
  have "planARP mem_store e ?job cfg read w = (Inr plan, w)"
    using planARP_mem [OF assms(1), of e ?job cfg read] by (simp add: plan_def mem_input_def arp_input_def)
  then show ?thesis
    using assms(1,2)
    by (simp add: arpPhase_def Let_def on_store_def ApplyARP_def guarded_def mfail_def job_planned_def del: appendAudits.simps) blast
qed

section \<open>Property\<close>

text \<open>C10. A scan settles: after the ARP phase has run on a well-formed store with fresh identifiers, a second
  phase of the same tenant that reads the same tables under the same settings, whatever its clock and
  identifiers, changes no MAC address and creates no address.\<close>

theorem arpPhase_settles:
  assumes "phase_ready e (w_store w)" and "as_Enabled cfg" and "sj_TenantID job' = sj_TenantID job"
    and "arpPhase mem_store e (Inr cfg) read job w = (job1, w1)"
  shows "sj_ARPStatus job1 = ARPRan \<and>
    (\<exists>job2 w2. arpPhase mem_store e' (Inr cfg) read job' w1 = (job2, w2) \<and>
       sj_ARPStatus job2 = ARPRan \<and> sj_ARPApplied job2 = 0 \<and> sj_ARPCreated job2 = 0)"
proof -
  let ?m = "w_store w" and ?t = "sj_TenantID job"
  let ?ops = "pn_Ops (Build (env_lane 1 e) (mem_input e job cfg read ?m))"
  have able: "m_failNext ?m = []" and wf: "mem_wf ?m"
    using assms(1) by (simp_all add: phase_ready_def)
  obtain f rows where run: "w1 = w\<lparr>w_store := appendAudits f ?t rows (applyARPOps (env_lane 3 e) ?t ?ops ?m)\<rparr>"
      and "sj_ARPStatus job1 = ARPRan"
    using arpPhase_mem [OF able assms(2), where e = e and job = job and read = read] assms(4) by auto
  obtain ips where pairs: "list_all2 (pairs_of ?m e (mem_input e job cfg read ?m) ?t) ips ?ops"
    using plan_shape [OF assms(1), of job cfg read "env_lane 1 e"] by blast
  have fits: "\<forall>opn \<in> set ?ops. op_fits ?t ?m opn"
    using list_all2_right [OF pairs] by (auto simp: pairs_of_def)
  have "after_plan (env_lane 3 e) ?t ?ops ?m (w_store w1)"
    using applyARPOps_all [OF addrs_ok(1) [OF wf] fits plan_distinct [OF assms(1)], of "env_lane 3 e"]
      applyARPOps_rest [of "env_lane 3 e" ?t ?ops ?m] applyARPOps_wf [OF wf, of "env_lane 3 e" ?t ?ops] able
    by (simp add: after_plan_def run networkMACsLocked_def fun_eq_iff)
  then have "settled (mem_input e' job' cfg read (w_store w1))" "m_failNext (w_store w1) = []"
    using plan_settles [OF assms(1) refl] assms(3) by (auto simp: after_plan_def)
  then show ?thesis
    using settled_idle arpPhase_mem [where w = w1 and cfg = cfg and e = e' and job = job' and read = read] assms(2) \<open>sj_ARPStatus job1 = ARPRan\<close> by auto
qed

definition example_read :: arpRead where
  "example_read = arpRead_add ''router'' False [\<lparr>en_IP = ''10.0.0.5'', en_MAC = ''02:00:00:00:00:01'', en_IfIndex = 1\<rparr>]
     \<lparr>rd_obs = [], rd_partial = 0\<rparr>"

theorem arpPhase_settles_witness:
  "\<exists>job1 w1 job2 w2. arpPhase mem_store env0 (Inr (DefaultARPSettings ''t'')) example_read (IPScanJob0\<lparr>sj_TenantID := ''t''\<rparr>) example_world = (job1, w1) \<and>
     arpPhase mem_store env0 (Inr (DefaultARPSettings ''t'')) example_read (IPScanJob0\<lparr>sj_TenantID := ''t''\<rparr>) w1 = (job2, w2) \<and>
     sj_ARPStatus job1 = ARPRan \<and> sj_ARPCreated job2 = 0"
proof -
  have "m_failNext example_mem = []"
    by code_simp
  then have ready: "phase_ready env0 (w_store example_world)"
    using example_mem_fresh by (simp add: phase_ready_def example_mem_wf addr_fresh_def)
  obtain job1 w1 where "arpPhase mem_store env0 (Inr (DefaultARPSettings ''t'')) example_read (IPScanJob0\<lparr>sj_TenantID := ''t''\<rparr>) example_world = (job1, w1)"
    by fastforce
  from arpPhase_settles [OF ready _ refl this, of env0] this show ?thesis
    by (auto simp: DefaultARPSettings_def)
qed

end
