(* ===== verification/Portlink.thy ===== *)
theory Portlink
  imports "HOL-Library.Product_Lexorder" Mac Audit_Event Repo Service
begin

text \<open>
  Linking hosts to switch ports (\<open>internal/portlink\<close>): \<open>BuildInput\<close> turns the tenant's
  SNMP data into ports and hosts, \<open>Rank\<close> infers at most one link per host and switch and
  names one of them the primary, and the correlator (\<open>Correlate\<close>) compares the ranked links with
  the stored ones and writes what changed. Go maps keyed by MAC address or switch are association
  lists; wherever the code iterates over such a map the order does not reach the result, because
  the collected links are sorted by keys that differ. Case folding is that of ASCII text.
\<close>

section \<open>Ranking\<close>

record Port =
  po_SwitchID :: string
  po_PortID :: string
  po_Name :: string
  po_MACs :: "int tbl"
  po_LLDP :: "(string \<times> string) list"

record Host =
  ho_DeviceID :: string
  ho_DeviceName :: string
  ho_IfaceID :: string
  ho_IfaceName :: string
  ho_MAC :: string
  ho_AddressID :: string
  ho_Related :: "bool tbl"

record RankInput =
  ri_Ports :: "Port list"
  ri_Hosts :: "Host list"
  ri_SwitchMACs :: "string tbl"
  ri_SwitchNames :: "bool tbl"
  ri_MaxMACs :: int

record Link =
  lk_HostIfaceID :: string
  lk_AddressID :: string
  lk_SwitchID :: string
  lk_PortID :: string
  lk_PortName :: string
  lk_VLAN :: int
  lk_Source :: string
  lk_Count :: int
  lk_Primary :: bool

definition facesSwitch :: "Port \<Rightarrow> RankInput \<Rightarrow> bool" where
  "facesSwitch p inp =
     (list_ex (\<lambda>(mac, _). case tget (ri_SwitchMACs inp) mac of Some sw \<Rightarrow> sw \<noteq> po_SwitchID p | None \<Rightarrow> False) (po_MACs p) \<or>
      list_ex (\<lambda>(sys, _). tget (ri_SwitchNames inp) (to_lower sys) = Some True) (po_LLDP p))"

definition foreignMACs :: "Port \<Rightarrow> Host \<Rightarrow> int" where
  "foreignMACs p h = int (length (filter (\<lambda>(mac, _). mac = ho_MAC h \<or> tget (ho_Related h) mac \<noteq> Some True) (po_MACs p)))"

definition primaryBefore :: "Link \<Rightarrow> Link \<Rightarrow> bool" where
  "primaryBefore a b =
     (if (lk_Source a = LinkLLDP) \<noteq> (lk_Source b = LinkLLDP) then lk_Source a = LinkLLDP
      else if lk_Count a \<noteq> lk_Count b then lk_Count a < lk_Count b
      else if lk_SwitchID a \<noteq> lk_SwitchID b then lk_SwitchID a < lk_SwitchID b
      else lk_PortID a < lk_PortID b)"

definition hasMAC :: "Port \<Rightarrow> string \<Rightarrow> bool" where
  "hasMAC p mac = (tget (po_MACs p) mac \<noteq> None)"

definition single :: "Host \<Rightarrow> Host list \<Rightarrow> bool" where
  "single h hosts = (length (filter (\<lambda>x. ho_DeviceID x = ho_DeviceID h) hosts) = 1)"

text \<open>Whether an LLDP neighbour of a port names the host interface.\<close>

definition names_host :: "Host \<Rightarrow> bool \<Rightarrow> Port \<Rightarrow> string \<times> string \<Rightarrow> bool" where
  "names_host h one p nb =
     (let sys = fst nb; port = snd nb;
          pm = (case NormalizeMAC port of Some m \<Rightarrow> m | None \<Rightarrow> []);
          byPort = (pm \<noteq> [] \<and> pm = ho_MAC h \<or>
            port \<noteq> [] \<and> equal_fold port (ho_IfaceName h) \<and> equal_fold sys (ho_DeviceName h));
          bySys = (sys \<noteq> [] \<and> equal_fold sys (ho_DeviceName h)) in
      byPort \<or> bySys \<and> (one \<or> hasMAC p (ho_MAC h)))"

definition lldp_link :: "Host \<Rightarrow> Port \<Rightarrow> Link" where
  "lldp_link h p = \<lparr>lk_HostIfaceID = ho_IfaceID h, lk_AddressID = ho_AddressID h, lk_SwitchID = po_SwitchID p,
     lk_PortID = po_PortID p, lk_PortName = po_Name p,
     lk_VLAN = (case tget (po_MACs p) (ho_MAC h) of Some v \<Rightarrow> v | None \<Rightarrow> 0), lk_Source = LinkLLDP,
     lk_Count = int (length (po_MACs p)), lk_Primary = False\<rparr>"

definition lldpLinks :: "Host \<Rightarrow> Host list \<Rightarrow> Port list \<Rightarrow> Link tbl" where
  "lldpLinks h hosts ports =
     fold (\<lambda>p out.
         if tget out (po_SwitchID p) \<noteq> None then out
         else if list_ex (names_host h (single h hosts) p) (po_LLDP p) then tput (po_SwitchID p) (lldp_link h p) out
         else out)
       ports []"

definition access_ports :: "RankInput \<Rightarrow> Port list" where
  "access_ports inp = filter (\<lambda>p. \<not> facesSwitch p inp) (ri_Ports inp)"

record cand =
  ca_port :: Port
  ca_count :: int
  ca_vlan :: int

text \<open>The ports that learned the MAC address of the host, on switches without an LLDP link and with
  at most \<open>MaxMACs\<close> foreign addresses.\<close>

definition fdb_cands :: "RankInput \<Rightarrow> Host \<Rightarrow> Link tbl \<Rightarrow> cand list" where
  "fdb_cands inp h per =
     List.map_filter (\<lambda>p. case tget (po_MACs p) (ho_MAC h) of
         None \<Rightarrow> None
       | Some vlan \<Rightarrow>
           if tget per (po_SwitchID p) \<noteq> None then None
           else if foreignMACs p h > ri_MaxMACs inp then None
           else Some \<lparr>ca_port = p, ca_count = foreignMACs p h, ca_vlan = vlan\<rparr>)
       (access_ports inp)"

definition cand_less :: "cand \<Rightarrow> cand \<Rightarrow> bool" where
  "cand_less a b = (if ca_count a \<noteq> ca_count b then ca_count a < ca_count b else po_PortID (ca_port a) < po_PortID (ca_port b))"

definition fdb_link :: "Host \<Rightarrow> string \<Rightarrow> cand \<Rightarrow> Link" where
  "fdb_link h sw c = \<lparr>lk_HostIfaceID = ho_IfaceID h, lk_AddressID = ho_AddressID h, lk_SwitchID = sw,
     lk_PortID = po_PortID (ca_port c), lk_PortName = po_Name (ca_port c), lk_VLAN = ca_vlan c, lk_Source = LinkSNMPFDB,
     lk_Count = ca_count c, lk_Primary = False\<rparr>"

definition switch_link :: "Host \<Rightarrow> cand list \<Rightarrow> string \<Rightarrow> Link tbl \<Rightarrow> Link tbl" where
  "switch_link h cands sw per =
     (case sort_by cand_less (filter (\<lambda>c. po_SwitchID (ca_port c) = sw) cands) of
        [] \<Rightarrow> per
      | [c] \<Rightarrow> tput sw (fdb_link h sw c) per
      | c # d # _ \<Rightarrow> if ca_count c = ca_count d then per else tput sw (fdb_link h sw c) per)"

definition host_per :: "RankInput \<Rightarrow> Host \<Rightarrow> Link tbl" where
  "host_per inp h =
     (let per = lldpLinks h (ri_Hosts inp) (access_ports inp); cands = fdb_cands inp h per in
      fold (switch_link h cands) (remdups (map (\<lambda>c. po_SwitchID (ca_port c)) cands)) per)"

definition host_links :: "RankInput \<Rightarrow> Host \<Rightarrow> Link list" where
  "host_links inp h = (case sort_by primaryBefore (tvals (host_per inp h)) of
       [] \<Rightarrow> []
     | l # ls \<Rightarrow> l\<lparr>lk_Primary := True\<rparr> # ls)"

definition link_less :: "Link \<Rightarrow> Link \<Rightarrow> bool" where
  "link_less a b =
     (if lk_HostIfaceID a \<noteq> lk_HostIfaceID b then lk_HostIfaceID a < lk_HostIfaceID b
      else if lk_AddressID a \<noteq> lk_AddressID b then lk_AddressID a < lk_AddressID b
      else if lk_Primary a \<noteq> lk_Primary b then lk_Primary a
      else lk_SwitchID a < lk_SwitchID b)"

definition Rank :: "RankInput \<Rightarrow> Link list" where
  "Rank inp = sort_by link_less (concat (map (host_links inp) (ri_Hosts inp)))"

definition ParseLLDP :: "string \<Rightarrow> string \<times> string" where
  "ParseLLDP s0 = (let s = trim_space s0 in
     case cut_at (CHR '' '') s of (a, b, ok) \<Rightarrow> if ok then (a, trim_space b) else ([], s))"

section \<open>Building the input\<close>

definition add_link :: "DeviceInterfaceLink \<Rightarrow> Port tbl \<Rightarrow> Port tbl" where
  "add_link l ports = (case tget ports (il_InterfaceID l) of
       None \<Rightarrow> ports
     | Some p \<Rightarrow>
        if il_LinkSource l = LinkSNMPFDB then
          (case NormalizeMAC (il_RemotePortName l) of
             Some m \<Rightarrow> tput (il_InterfaceID l) (p\<lparr>po_MACs := tput m (il_LinkVlan l) (po_MACs p)\<rparr>) ports
           | None \<Rightarrow> ports)
        else if il_LinkSource l = LinkLLDP then
          tput (il_InterfaceID l) (p\<lparr>po_LLDP := po_LLDP p @ [ParseLLDP (il_RemotePortName l)]\<rparr>) ports
        else ports)"

definition add_related :: "string \<Rightarrow> string \<Rightarrow> (bool tbl) tbl \<Rightarrow> (bool tbl) tbl" where
  "add_related dev raw rel = (case NormalizeMAC raw of
       None \<Rightarrow> rel
     | Some m \<Rightarrow> if dev = [] then rel
         else tput dev (tput m True (case tget rel dev of Some t \<Rightarrow> t | None \<Rightarrow> [])) rel)"

definition related_of :: "PortLinkData \<Rightarrow> (bool tbl) tbl" where
  "related_of d =
     fold (\<lambda>g. fold (\<lambda>mac. add_related (gu_HostDeviceID g) mac) (gu_MACs g)) (pd_Guests d)
       (fold (\<lambda>i. add_related (if_DeviceID i) (if_MACAddress i)) (pd_HostIfaces d) [])"

definition iface_host :: "PortLinkData \<Rightarrow> DeviceInterface \<Rightarrow> Host option" where
  "iface_host d i = map_option (\<lambda>m. \<lparr>ho_DeviceID = if_DeviceID i,
       ho_DeviceName = (case tget (fold (\<lambda>h. tput (dv_ID h) (dv_Name h)) (pd_Hosts d) []) (if_DeviceID i) of
          Some n \<Rightarrow> n | None \<Rightarrow> []),
       ho_IfaceID = if_ID i, ho_IfaceName = if_Name i, ho_MAC = m, ho_AddressID = [],
       ho_Related = (case tget (related_of d) (if_DeviceID i) of Some t \<Rightarrow> t | None \<Rightarrow> [])\<rparr>) (NormalizeMAC (if_MACAddress i))"

definition address_host :: "PortLinkData \<Rightarrow> string list \<Rightarrow> string tbl \<Rightarrow> IPAddress \<Rightarrow> Host option" where
  "address_host d reported switchMACs a = (case NormalizeMAC (ip_MACAddress a) of
       None \<Rightarrow> None
     | Some m \<Rightarrow>
        if m \<in> set reported \<or> m \<in> set (pd_NetworkMACs d) \<or> (case tget switchMACs m of Some sw \<Rightarrow> sw \<noteq> [] | None \<Rightarrow> False)
        then None
        else Some \<lparr>ho_DeviceID = ''address:'' @ ip_ID a, ho_DeviceName = ip_Hostname a, ho_IfaceID = [], ho_IfaceName = [],
          ho_MAC = m, ho_AddressID = ip_ID a,
          ho_Related = (case tget (related_of d) (ip_DeviceID a) of Some t \<Rightarrow> t | None \<Rightarrow> [])\<rparr>)"

definition BuildInput :: "PortLinkData \<Rightarrow> int \<Rightarrow> RankInput" where
  "BuildInput d maxMACs =
     (let switchMACs = fold (\<lambda>i t. case NormalizeMAC (if_MACAddress i) of Some m \<Rightarrow> tput m (if_DeviceID i) t | None \<Rightarrow> t)
            (pd_SwitchIfaces d) [];
          ports0 = fold (\<lambda>i. tput (if_ID i) \<lparr>po_SwitchID = if_DeviceID i, po_PortID = if_ID i, po_Name = if_Name i,
            po_MACs = [], po_LLDP = []\<rparr>) (pd_SwitchIfaces d) [];
          ports = fold add_link (pd_Links d) ports0;
          reported = List.map_filter (\<lambda>i. NormalizeMAC (if_MACAddress i)) (pd_HostIfaces d) in
      \<lparr>ri_Ports = List.map_filter (\<lambda>i. tget ports (if_ID i)) (pd_SwitchIfaces d),
       ri_Hosts = List.map_filter (iface_host d) (pd_HostIfaces d) @
         List.map_filter (address_host d reported switchMACs) (pd_Addresses d),
       ri_SwitchMACs = switchMACs,
       ri_SwitchNames = fold (\<lambda>s. tput (to_lower (dv_Name s)) True) (pd_Switches d) [],
       ri_MaxMACs = maxMACs\<rparr>)"

section \<open>The correlator\<close>

record Correlator =
  co_maxMACs :: int
  co_staleAge :: int

definition subjectRow :: "env \<Rightarrow> AuditRow list \<Rightarrow> string \<Rightarrow> string \<Rightarrow> string \<Rightarrow> string \<Rightarrow> any tbl \<Rightarrow> time \<Rightarrow> AuditRow" where
  "subjectRow e rows tenantID t kind i detail at =
     (case audit_Row (env_skip (length rows) e)
        \<lparr>ae_TenantID = tenantID, ae_EventType = t, ae_ActorKind = ''system'', ae_ActorID = ''hostsync'',
          ae_SubjectKind = kind, ae_SubjectID = i, ae_Target = [], ae_Outcome = ''ok'', ae_Reason = [],
          ae_Details = detail\<rparr> at of
        Inl _ \<Rightarrow> AuditRow0
      | Inr row \<Rightarrow> row)"

abbreviation linked_detail :: "Link \<Rightarrow> any tbl" where
  "linked_detail l \<equiv> [(''switch_device_id'', AnyStr (lk_SwitchID l)), (''switch_interface_id'', AnyStr (lk_PortID l)),
     (''vlan'', AnyInt (lk_VLAN l)), (''source'', AnyStr (lk_Source l))]"

abbreviation unlinked_detail :: "string \<Rightarrow> string \<Rightarrow> any tbl" where
  "unlinked_detail reason port \<equiv> [(''reason'', AnyStr reason), (''switch_interface_id'', AnyStr port)]"

definition stale :: "Correlator \<Rightarrow> time \<Rightarrow> time option \<Rightarrow> bool" where
  "stale c now seen = (case seen of None \<Rightarrow> True | Some s \<Rightarrow> now - s > co_staleAge c)"

record merge =
  me_existing :: "HostSwitchLink tbl"
  me_set :: "HostSwitchLink list"
  me_rows :: "AuditRow list"
  me_changed :: bool

definition merge_unlink :: "env \<Rightarrow> string \<Rightarrow> string \<Rightarrow> string \<Rightarrow> string \<Rightarrow> time \<Rightarrow> HostSwitchLink \<Rightarrow> string \<Rightarrow> merge \<Rightarrow> merge" where
  "merge_unlink e tenantID kind i oldPrimary now x reason st = st\<lparr>me_changed := True,
     me_rows := me_rows st @ (if hl_PortID x \<noteq> oldPrimary
       then [subjectRow e (me_rows st) tenantID ''port_unlinked'' kind i
         (unlinked_detail reason (hl_PortID x) @ [(''secondary'', AnyBool True)]) now]
       else [])\<rparr>"

definition merge_ranked ::
  "env \<Rightarrow> string \<Rightarrow> string \<Rightarrow> string \<Rightarrow> string \<Rightarrow> string \<Rightarrow> time \<Rightarrow> Link \<Rightarrow> merge \<Rightarrow> merge" where
  "merge_ranked e tenantID kind i oldPrimary newPrimary now l st =
     (let old = tget (me_existing st) (lk_SwitchID l);
          st1 = st\<lparr>me_changed := True, me_existing := tdel (lk_SwitchID l) (me_existing st)\<rparr>;
          st2 = (case old of
              Some x \<Rightarrow> if hl_PortID x \<noteq> lk_PortID l then merge_unlink e tenantID kind i oldPrimary now x ''superseded'' st1 else st1
            | None \<Rightarrow> st1);
          new = (case old of Some x \<Rightarrow> hl_PortID x \<noteq> lk_PortID l | None \<Rightarrow> True);
          st3 = (if new \<and> lk_PortID l \<noteq> newPrimary
            then st2\<lparr>me_rows := me_rows st2 @ [subjectRow e (me_rows st2) tenantID ''port_linked'' kind i
              (linked_detail l @ [(''secondary'', AnyBool True)]) now]\<rparr>
            else st2) in
      st3\<lparr>me_set := me_set st3 @ [HostSwitchLink0\<lparr>hl_SwitchID := lk_SwitchID l, hl_PortID := lk_PortID l,
        hl_PortName := lk_PortName l, hl_VLAN := lk_VLAN l, hl_Source := lk_Source l, hl_LastSeen := Some now\<rparr>]\<rparr>)"

definition merge_old ::
  "Correlator \<Rightarrow> env \<Rightarrow> string \<Rightarrow> string \<Rightarrow> string \<Rightarrow> string \<Rightarrow> time \<Rightarrow> HostSwitchLink \<Rightarrow> merge \<Rightarrow> merge" where
  "merge_old c e tenantID kind i oldPrimary now x st =
     (if tget (me_existing st) (hl_SwitchID x) = None then st
      else if stale c now (hl_LastSeen x) then merge_unlink e tenantID kind i oldPrimary now x ''stale'' st
      else st\<lparr>me_set := me_set st @ [x\<lparr>hl_Primary := False\<rparr>]\<rparr>)"

definition mergeSet ::
  "Correlator \<Rightarrow> env \<Rightarrow> string \<Rightarrow> string \<Rightarrow> string \<Rightarrow> HostSwitchLink list \<Rightarrow> Link list \<Rightarrow> string \<Rightarrow> string \<Rightarrow> time \<Rightarrow>
    AuditRow list \<Rightarrow> merge" where
  "mergeSet c e tenantID kind i cur ranked oldPrimary newPrimary now rows =
     fold (merge_old c e tenantID kind i oldPrimary now) cur
       (fold (merge_ranked e tenantID kind i oldPrimary newPrimary now) ranked
          \<lparr>me_existing = fold (\<lambda>x. tput (hl_SwitchID x) x) cur [], me_set = [], me_rows = rows, me_changed = False\<rparr>)"

text \<open>The flat link columns of an interface: the new columns, the audit rows, and whether they must be
  written.\<close>

definition iface_flat ::
  "Correlator \<Rightarrow> env \<Rightarrow> string \<Rightarrow> time \<Rightarrow> Link list \<Rightarrow> DeviceInterface \<Rightarrow> AuditRow list \<Rightarrow>
    DeviceInterface \<times> AuditRow list \<times> bool" where
  "iface_flat c e tenantID now ls i rows =
     (case ls of
        l # _ \<Rightarrow>
          if if_RemoteInterfaceID i = lk_PortID l \<and> if_LinkSource i = lk_Source l \<and> if_LinkVlan i = lk_VLAN l
          then (i\<lparr>if_LinkLastSeen := Some now\<rparr>, rows, True)
          else (let rows1 = (if if_RemoteInterfaceID i \<noteq> []
                  then rows @ [subjectRow e rows tenantID ''port_unlinked'' ''interface'' (if_ID i)
                    (unlinked_detail ''superseded'' (if_RemoteInterfaceID i)) now]
                  else rows) in
            (i\<lparr>if_RemoteDeviceID := lk_SwitchID l, if_RemoteInterfaceID := lk_PortID l, if_RemotePortName := lk_PortName l,
               if_LinkSource := lk_Source l, if_LinkVlan := lk_VLAN l, if_LinkLastSeen := Some now\<rparr>,
             rows1 @ [subjectRow e rows1 tenantID ''port_linked'' ''interface'' (if_ID i) (linked_detail l) now], True))
      | [] \<Rightarrow>
          if if_RemoteInterfaceID i \<noteq> [] \<and> (if_LinkSource i = LinkSNMPFDB \<or> if_LinkSource i = LinkLLDP) \<and>
             stale c now (if_LinkLastSeen i)
          then (i\<lparr>if_RemoteDeviceID := [], if_RemoteInterfaceID := [], if_RemotePortName := [], if_LinkSource := [],
                 if_LinkVlan := 0, if_LinkLastSeen := None\<rparr>,
               rows @ [subjectRow e rows tenantID ''port_unlinked'' ''interface'' (if_ID i)
                 (unlinked_detail ''stale'' (if_RemoteInterfaceID i)) now], True)
          else (i, rows, False))"

definition iface_links :: "Link list \<Rightarrow> string \<Rightarrow> Link list" where
  "iface_links ranked i = filter (\<lambda>l. lk_AddressID l = [] \<and> lk_HostIfaceID l = i) ranked"

definition correlate_iface ::
  "Correlator \<Rightarrow> env \<Rightarrow> string \<Rightarrow> time \<Rightarrow> Link list \<Rightarrow> DeviceInterface \<Rightarrow> DeviceInterface list \<times> AuditRow list \<Rightarrow>
    DeviceInterface list \<times> AuditRow list" where
  "correlate_iface c e tenantID now ranked i st =
     (let ls = iface_links ranked (if_ID i); (i1, rows1, flat) = iface_flat c e tenantID now ls i (snd st);
          ms = mergeSet c e tenantID ''interface'' (if_ID i) (if_Links i) ls (if_RemoteInterfaceID i)
            (if_RemoteInterfaceID i1) now rows1 in
      (if flat \<or> me_changed ms then fst st @ [i1\<lparr>if_Links := me_set ms\<rparr>] else fst st, me_rows ms))"

definition address_flat ::
  "Correlator \<Rightarrow> env \<Rightarrow> string \<Rightarrow> time \<Rightarrow> Link list \<Rightarrow> IPAddress \<Rightarrow> AuditRow list \<Rightarrow> IPAddress \<times> AuditRow list \<times> bool" where
  "address_flat c e tenantID now ls a rows =
     (case ls of
        l # _ \<Rightarrow>
          (case ip_Link a of
             Some cur \<Rightarrow>
               if al_PortID cur = lk_PortID l \<and> al_Source cur = lk_Source l \<and> al_VLAN cur = lk_VLAN l
               then (a\<lparr>ip_Link := Some (cur\<lparr>al_LastSeen := Some now\<rparr>)\<rparr>, rows, True)
               else (let rows1 = rows @ [subjectRow e rows tenantID ''port_unlinked'' ''address'' (ip_ID a)
                        (unlinked_detail ''superseded'' (al_PortID cur)) now] in
                 (a\<lparr>ip_Link := Some (AddressLink0\<lparr>al_SwitchID := lk_SwitchID l, al_PortID := lk_PortID l,
                     al_PortName := lk_PortName l, al_VLAN := lk_VLAN l, al_Source := lk_Source l, al_LastSeen := Some now\<rparr>)\<rparr>,
                  rows1 @ [subjectRow e rows1 tenantID ''port_linked'' ''address'' (ip_ID a) (linked_detail l) now], True))
           | None \<Rightarrow>
               (a\<lparr>ip_Link := Some (AddressLink0\<lparr>al_SwitchID := lk_SwitchID l, al_PortID := lk_PortID l,
                   al_PortName := lk_PortName l, al_VLAN := lk_VLAN l, al_Source := lk_Source l, al_LastSeen := Some now\<rparr>)\<rparr>,
                rows @ [subjectRow e rows tenantID ''port_linked'' ''address'' (ip_ID a) (linked_detail l) now], True))
      | [] \<Rightarrow>
          (case ip_Link a of
             Some cur \<Rightarrow>
               if stale c now (al_LastSeen cur)
               then (a\<lparr>ip_Link := None\<rparr>, rows @ [subjectRow e rows tenantID ''port_unlinked'' ''address'' (ip_ID a)
                  (unlinked_detail ''stale'' (al_PortID cur)) now], True)
               else (a, rows, False)
           | None \<Rightarrow> (a, rows, False)))"

definition primary_port :: "IPAddress \<Rightarrow> string" where
  "primary_port a = (case ip_Link a of Some l \<Rightarrow> al_PortID l | None \<Rightarrow> [])"

definition address_links :: "PortLinkData \<Rightarrow> Link list \<Rightarrow> IPAddress \<Rightarrow> Link list" where
  "address_links d ranked a =
     (let own = filter (\<lambda>l. lk_AddressID l \<noteq> [] \<and> lk_AddressID l = ip_ID a) ranked;
          byMAC = fold (\<lambda>i t. if iface_links ranked (if_ID i) = [] then t
            else case NormalizeMAC (if_MACAddress i) of Some m \<Rightarrow> tput m (iface_links ranked (if_ID i)) t | None \<Rightarrow> t)
            (pd_HostIfaces d) [] in
      if own \<noteq> [] then own
      else case NormalizeMAC (ip_MACAddress a) of
        Some m \<Rightarrow> (case tget byMAC m of Some ls \<Rightarrow> ls | None \<Rightarrow> [])
      | None \<Rightarrow> [])"

definition correlate_address ::
  "Correlator \<Rightarrow> env \<Rightarrow> string \<Rightarrow> PortLinkData \<Rightarrow> time \<Rightarrow> Link list \<Rightarrow> IPAddress \<Rightarrow> IPAddress list \<times> AuditRow list \<Rightarrow>
    IPAddress list \<times> AuditRow list" where
  "correlate_address c e tenantID d now ranked a st =
     (let ls = address_links d ranked a; (a1, rows1, flat) = address_flat c e tenantID now ls a (snd st);
          ms = mergeSet c e tenantID ''address'' (ip_ID a) (ip_Links a) ls (primary_port a) (primary_port a1) now rows1 in
      (if flat \<or> me_changed ms then fst st @ [a1\<lparr>ip_Links := me_set ms\<rparr>] else fst st, me_rows ms))"

definition correlateAddresses :: "'m Store \<Rightarrow> Correlator \<Rightarrow> env \<Rightarrow> string \<Rightarrow> PortLinkData \<Rightarrow> time \<Rightarrow> Link list \<Rightarrow> ('m World, unit) op" where
  "correlateAddresses st c e tenantID d now ranked =
     (let (changed, rows) = fold (correlate_address c e tenantID d now ranked) (pd_Addresses d) ([], []) in
      if changed = [] then ret () else on_store (s_SetAddressLinks st (env_skip (length rows) e) tenantID changed rows))"

definition Correlate :: "'m Store \<Rightarrow> Correlator \<Rightarrow> env \<Rightarrow> string \<Rightarrow> ('m World, unit) op" where
  "Correlate st c e tenantID =
     bind_op (on_store (s_PortLinkData st tenantID)) (\<lambda>d.
     if pd_Switches d = [] then ret ()
     else (let ranked = Rank (BuildInput d (co_maxMACs c));
               (changed, rows) = fold (correlate_iface c e tenantID (env_now e) ranked) (pd_HostIfaces d) ([], []);
               e' = env_skip (2 * length rows) e in
       bind_op (if changed = [] then ret () else on_store (s_SetInterfaceLinks st (env_skip (length rows) e) tenantID changed rows)) (\<lambda>_.
       correlateAddresses st c e' tenantID d (env_now e) ranked)))"

section \<open>What a ranked link means\<close>

lemma cand_less_order: "\<not> cand_less a b \<Longrightarrow> \<not> cand_less b c \<Longrightarrow> \<not> cand_less a c" "cand_less a b \<Longrightarrow> \<not> cand_less b a"
  by (auto simp: cand_less_def split: if_splits)

lemma primaryBefore_key: "primaryBefore a b \<longleftrightarrow> (lk_Source a \<noteq> LinkLLDP, lk_Count a, lk_SwitchID a, lk_PortID a) <
    (lk_Source b \<noteq> LinkLLDP, lk_Count b, lk_SwitchID b, lk_PortID b)"
  by (auto simp: primaryBefore_def)

lemma primaryBefore_order: "\<not> primaryBefore a b \<Longrightarrow> \<not> primaryBefore b c \<Longrightarrow> \<not> primaryBefore a c"
  "primaryBefore a b \<Longrightarrow> \<not> primaryBefore b a"
  unfolding primaryBefore_key by order+

lemma link_less_order: "\<not> link_less a b \<Longrightarrow> \<not> link_less b c \<Longrightarrow> \<not> link_less a c" "link_less a b \<Longrightarrow> \<not> link_less b a"
  by (auto simp: link_less_def split: if_splits)

text \<open>A link of a host on a switch that LLDP or the forwarding tables justify.\<close>

definition by_lldp :: "RankInput \<Rightarrow> Host \<Rightarrow> Port \<Rightarrow> Link \<Rightarrow> bool" where
  "by_lldp inp h p l = (p \<in> set (access_ports inp) \<and> l = lldp_link h p \<and>
     (\<exists>nb \<in> set (po_LLDP p). names_host h (single h (ri_Hosts inp)) p nb))"

definition by_fdb :: "RankInput \<Rightarrow> Host \<Rightarrow> Port \<Rightarrow> Link \<Rightarrow> bool" where
  "by_fdb inp h p l = (p \<in> set (access_ports inp) \<and> foreignMACs p h \<le> ri_MaxMACs inp \<and>
     (\<exists>vlan. tget (po_MACs p) (ho_MAC h) = Some vlan \<and>
        l = fdb_link h (po_SwitchID p) \<lparr>ca_port = p, ca_count = foreignMACs p h, ca_vlan = vlan\<rparr>) \<and>
     (\<forall>q \<in> set (access_ports inp). po_SwitchID q = po_SwitchID p \<longrightarrow> hasMAC q (ho_MAC h) \<longrightarrow>
        q = p \<or> foreignMACs q h > foreignMACs p h))"

definition per_ok :: "RankInput \<Rightarrow> Host \<Rightarrow> Link tbl \<Rightarrow> bool" where
  "per_ok inp h per = (twf per \<and> (\<forall>sw l. tget per sw = Some l \<longrightarrow>
     (\<exists>p. po_SwitchID p = sw \<and> (by_lldp inp h p l \<or> by_fdb inp h p l))))"

lemma per_ok_put: "per_ok inp h per \<Longrightarrow> po_SwitchID p = sw \<Longrightarrow> by_lldp inp h p l \<or> by_fdb inp h p l \<Longrightarrow> per_ok inp h (tput sw l per)"
  by (auto simp: per_ok_def)

lemma lldpLinks_ok: "per_ok inp h (lldpLinks h (ri_Hosts inp) (access_ports inp))"
proof -
  let ?f = "\<lambda>p out. if tget out (po_SwitchID p) \<noteq> None then out
         else if list_ex (names_host h (single h (ri_Hosts inp)) p) (po_LLDP p) then tput (po_SwitchID p) (lldp_link h p) out
         else out"
  have "set ps \<subseteq> set (access_ports inp) \<Longrightarrow> per_ok inp h out \<Longrightarrow> per_ok inp h (fold ?f ps out)" for ps out
  proof (induction ps arbitrary: out)
    case (Cons p ps)
    have "per_ok inp h (?f p out)"
      using Cons.prems by (auto simp: by_lldp_def list_ex_iff intro!: per_ok_put)
    then show ?case
      using Cons by simp
  qed simp
  moreover have "per_ok inp h []"
    by (simp add: per_ok_def)
  ultimately show ?thesis
    unfolding lldpLinks_def by blast
qed

lemma fdb_cands_iff: "c \<in> set (fdb_cands inp h per) \<longleftrightarrow>
    (\<exists>p \<in> set (access_ports inp). \<exists>vlan. tget (po_MACs p) (ho_MAC h) = Some vlan \<and> tget per (po_SwitchID p) = None \<and>
       foreignMACs p h \<le> ri_MaxMACs inp \<and> c = \<lparr>ca_port = p, ca_count = foreignMACs p h, ca_vlan = vlan\<rparr>)"
  unfolding fdb_cands_def map_filter_def by (force split: option.splits if_splits)

lemma sorted_head:
  assumes "sort_by cand_less xs = c # rest" and "rest = [] \<or> ca_count c \<noteq> ca_count (hd rest)"
  shows "c \<in> set xs" and "\<forall>d \<in> set xs. d = c \<or> ca_count d > ca_count c"
proof -
  have s: "sorted_wrt (\<lambda>a b. \<not> cand_less b a) (c # rest)"
    using sorted_sort_by [of cand_less xs] cand_less_order assms(1) by metis
  have set: "set xs = insert c (set rest)"
    using arg_cong [OF assms(1), of set] by simp
  then show "c \<in> set xs"
    by simp
  have "ca_count d > ca_count c" if "d \<in> set rest" for d
  proof (cases rest)
    case (Cons x ys)
    have "ca_count c < ca_count x"
      using s assms(2) Cons by (auto simp: cand_less_def split: if_splits)
    moreover have "ca_count x \<le> ca_count d"
      using s that Cons by (auto simp: cand_less_def split: if_splits)
    ultimately show ?thesis
      by simp
  qed (use that in simp)
  then show "\<forall>d \<in> set xs. d = c \<or> ca_count d > ca_count c"
    using set by blast
qed

lemma switch_link_ok:
  assumes per: "per_ok inp h per" and cands: "cands = fdb_cands inp h per0" and free: "tget per0 sw = None"
  shows "per_ok inp h (switch_link h cands sw per)"
proof -
  let ?cs = "filter (\<lambda>c. po_SwitchID (ca_port c) = sw) cands"
  have put: "per_ok inp h (tput sw (fdb_link h sw c) per)"
    if s: "sort_by cand_less ?cs = c # rest" "rest = [] \<or> ca_count c \<noteq> ca_count (hd rest)" for c rest
  proof -
    note head = sorted_head [OF s]
    obtain p vlan where p: "p \<in> set (access_ports inp)" "tget (po_MACs p) (ho_MAC h) = Some vlan" "po_SwitchID p = sw"
        "foreignMACs p h \<le> ri_MaxMACs inp" "c = \<lparr>ca_port = p, ca_count = foreignMACs p h, ca_vlan = vlan\<rparr>"
      using head(1) by (auto simp: cands fdb_cands_iff)
    have "q = p \<or> foreignMACs q h > foreignMACs p h"
      if q: "q \<in> set (access_ports inp)" "po_SwitchID q = sw" "hasMAC q (ho_MAC h)" for q
    proof (cases "foreignMACs q h \<le> ri_MaxMACs inp")
      case True
      obtain v where "tget (po_MACs q) (ho_MAC h) = Some v"
        using q(3) by (auto simp: hasMAC_def)
      then have "\<lparr>ca_port = q, ca_count = foreignMACs q h, ca_vlan = v\<rparr> \<in> set ?cs"
        using q True free by (auto simp: cands fdb_cands_iff)
      then show ?thesis
        using head(2) p(5) by fastforce
    qed (use p(4) in simp)
    then have "by_fdb inp h p (fdb_link h sw c)"
      using p by (auto simp: by_fdb_def)
    then show ?thesis
      using per_ok_put [OF per p(3)] by blast
  qed
  show ?thesis
  proof (cases "sort_by cand_less ?cs")
    case Nil
    then show ?thesis
      using per by (simp add: switch_link_def)
  next
    case (Cons c rest)
    then show ?thesis
      using per put [OF Cons] by (auto simp: switch_link_def split: list.splits)
  qed
qed

lemma host_per_ok: "per_ok inp h (host_per inp h)"
proof -
  let ?per = "lldpLinks h (ri_Hosts inp) (access_ports inp)"
  let ?cands = "fdb_cands inp h ?per"
  have "\<forall>sw \<in> set sws. tget ?per sw = None \<Longrightarrow> per_ok inp h per \<Longrightarrow> per_ok inp h (fold (switch_link h ?cands) sws per)" for sws per
    by (induction sws arbitrary: per) (simp_all add: switch_link_ok)
  moreover have "\<forall>sw \<in> set (remdups (map (\<lambda>c. po_SwitchID (ca_port c)) ?cands)). tget ?per sw = None"
    by (auto simp: fdb_cands_iff)
  ultimately show ?thesis
    using lldpLinks_ok [of inp h] by (simp add: host_per_def Let_def)
qed

lemma per_link:
  assumes "by_lldp inp h p l \<or> by_fdb inp h p l"
  shows "lk_HostIfaceID l = ho_IfaceID h" "lk_AddressID l = ho_AddressID h" "lk_SwitchID l = po_SwitchID p" "\<not> lk_Primary l"
    "lk_PortID l = po_PortID p"
  using assms by (auto simp: by_lldp_def by_fdb_def lldp_link_def fdb_link_def)

lemma host_links_mem:
  assumes "l \<in> set (host_links inp h)"
  shows "\<exists>p. by_lldp inp h p (l\<lparr>lk_Primary := False\<rparr>) \<or> by_fdb inp h p (l\<lparr>lk_Primary := False\<rparr>)"
proof -
  have "\<exists>l0 \<in> set (sort_by primaryBefore (tvals (host_per inp h))). l = l0 \<or> l = l0\<lparr>lk_Primary := True\<rparr>"
    using assms by (cases "sort_by primaryBefore (tvals (host_per inp h))") (auto simp: host_links_def)
  then obtain l0 where l0: "l0 \<in> set (tvals (host_per inp h))" "l = l0 \<or> l = l0\<lparr>lk_Primary := True\<rparr>"
    by auto
  have ok: "per_ok inp h (host_per inp h)"
    by (rule host_per_ok)
  then obtain sw where "tget (host_per inp h) sw = Some l0"
    using l0(1) tvals_mem_iff unfolding per_ok_def by metis
  then obtain p where p: "by_lldp inp h p l0 \<or> by_fdb inp h p l0"
    using ok unfolding per_ok_def by blast
  moreover have "l\<lparr>lk_Primary := False\<rparr> = l0"
    using l0(2) per_link(4) [OF p] by (cases l0) auto
  ultimately show ?thesis
    by auto
qed

lemma distinct_switches: "distinct (map lk_SwitchID (sort_by primaryBefore (tvals (host_per inp h))))"
proof -
  have ok: "twf (host_per inp h)" "\<And>sw l. tget (host_per inp h) sw = Some l \<Longrightarrow> lk_SwitchID l = sw"
    using host_per_ok [of inp h] per_link(3) unfolding per_ok_def by metis+
  have "map lk_SwitchID (tvals (host_per inp h)) = map fst (host_per inp h)"
    using ok by (auto simp: tvals_def twf_def tget_def)
  then have "distinct (map lk_SwitchID (tvals (host_per inp h)))"
    using ok(1) by (simp add: twf_def)
  then show ?thesis
    by (simp add: distinct_map)
qed

lemma filter_insert_by:
  assumes "\<And>a b c. \<not> lt a b \<Longrightarrow> \<not> lt b c \<Longrightarrow> \<not> lt a c"
  shows "sorted_wrt (\<lambda>a b. \<not> lt b a) ys \<Longrightarrow>
    filter P (insert_by lt x ys) = (if P x then insert_by lt x (filter P ys) else filter P ys)"
proof (induction ys)
  case (Cons y ys)
  show ?case
  proof (cases "lt y x")
    case False
    have "\<not> lt z x" if "z \<in> set ys" for z
      using Cons.prems that assms [of z y x] False by simp
    then have "insert_by lt x (filter P ys) = x # filter P ys"
      by (cases "filter P ys") (auto simp: filter_eq_Cons_iff)
    then show ?thesis
      using False by simp
  qed (use Cons in simp)
qed simp

lemma filter_sort_by:
  assumes "\<And>a b c. \<not> lt a b \<Longrightarrow> \<not> lt b c \<Longrightarrow> \<not> lt a c" "\<And>a b. lt a b \<Longrightarrow> \<not> lt b a"
  shows "filter P (sort_by lt xs) = sort_by lt (filter P xs)"
proof (induction xs)
  case (Cons x xs)
  show ?case
    using Cons filter_insert_by [of lt, OF assms(1) sorted_sort_by [of lt, OF assms]] by simp
qed simp

lemma filter_concat_one:
  assumes "distinct (map key hs)" and "h \<in> set hs" and "\<And>g l. l \<in> set (f g) \<Longrightarrow> lkey l = key g"
  shows "filter (\<lambda>l. lkey l = key h) (concat (map f hs)) = f h"
  using assms(1,2)
proof (induction hs)
  case (Cons g hs)
  have own: "filter (\<lambda>l. lkey l = key h) (f g) = (if key g = key h then f g else [])"
    using assms(3) [of _ g] by (auto intro: filter_True filter_False)
  show ?case
  proof (cases "h = g")
    case True
    have other: "key y \<noteq> key g" if "y \<in> set hs" for y
      using Cons.prems(1) imageI [OF that, of key] by auto
    have "filter (\<lambda>l. lkey l = key h) (concat (map f hs)) = []"
      using other True assms(3) by (fastforce simp: filter_empty_conv)
    then show ?thesis
      using own True by simp
  next
    case False
    then show ?thesis
      using Cons own by (auto simp: image_iff)
  qed
qed simp

lemma sorted_primary: "sorted_wrt (\<lambda>a b. \<not> primaryBefore b a) (sort_by primaryBefore xs)"
  by (rule sorted_sort_by; (erule (1) primaryBefore_order(1) | erule primaryBefore_order(2)))

lemma sorted_links: "sorted_wrt (\<lambda>a b. \<not> link_less b a) (sort_by link_less xs)"
  by (rule sorted_sort_by; (erule (1) link_less_order(1) | erule link_less_order(2)))

lemma filter_links: "filter P (sort_by link_less xs) = sort_by link_less (filter P xs)"
  by (rule filter_sort_by; (erule (1) link_less_order(1) | erule link_less_order(2)))

lemma host_links_cases:
  obtains "host_links inp h = []"
  | l rest where "host_links inp h = l\<lparr>lk_Primary := True\<rparr> # rest" "distinct (map lk_SwitchID (l # rest))"
      "\<forall>x \<in> set rest. \<not> lk_Primary x \<and> \<not> primaryBefore x l"
      "\<forall>x \<in> set rest. lk_HostIfaceID x = lk_HostIfaceID l \<and> lk_AddressID x = lk_AddressID l"
proof (cases "sort_by primaryBefore (tvals (host_per inp h))")
  case Nil
  then show ?thesis
    using that(1) by (simp add: host_links_def)
next
  case (Cons l rest)
  have link: "\<exists>p. by_lldp inp h p x \<or> by_fdb inp h p x" if "x \<in> set (l # rest)" for x
  proof -
    have "x \<in> set (tvals (host_per inp h))"
      using that arg_cong [OF Cons, of set] by simp
    then obtain sw where "tget (host_per inp h) sw = Some x"
      using host_per_ok [of inp h] tvals_mem_iff unfolding per_ok_def by metis
    then show ?thesis
      using host_per_ok [of inp h] unfolding per_ok_def by blast
  qed
  have key: "lk_HostIfaceID x = ho_IfaceID h \<and> lk_AddressID x = ho_AddressID h \<and> \<not> lk_Primary x" if "x \<in> set (l # rest)" for x
    using link [OF that] per_link(1,2,4) [of inp h _ x] by auto
  have srt: "sorted_wrt (\<lambda>a b. \<not> primaryBefore b a) (l # rest)"
    unfolding Cons [symmetric] by (rule sorted_primary)
  show ?thesis
  proof (rule that(2) [of l rest])
    show "host_links inp h = l\<lparr>lk_Primary := True\<rparr> # rest"
      by (simp add: host_links_def Cons)
    show "distinct (map lk_SwitchID (l # rest))"
      using distinct_switches [of inp h] unfolding Cons .
    show "\<forall>x \<in> set rest. \<not> lk_Primary x \<and> \<not> primaryBefore x l"
    proof
      fix x
      assume "x \<in> set rest"
      then show "\<not> lk_Primary x \<and> \<not> primaryBefore x l"
        using srt key [of x] by simp
    qed
    show "\<forall>x \<in> set rest. lk_HostIfaceID x = lk_HostIfaceID l \<and> lk_AddressID x = lk_AddressID l"
    proof
      fix x
      assume "x \<in> set rest"
      then show "lk_HostIfaceID x = lk_HostIfaceID l \<and> lk_AddressID x = lk_AddressID l"
        using key [of x] key [of l] by simp
    qed
  qed
qed

lemma primary_first:
  fixes inp :: RankInput and h :: Host
  defines "ls \<equiv> sort_by link_less (host_links inp h)"
  shows "distinct (map lk_SwitchID ls) \<and>
    (case ls of [] \<Rightarrow> True | l # rest \<Rightarrow> lk_Primary l \<and> (\<forall>x \<in> set rest. \<not> lk_Primary x \<and> \<not> primaryBefore x l))"
proof (rule host_links_cases [of inp h])
  fix l rest
  assume hl: "host_links inp h = l\<lparr>lk_Primary := True\<rparr> # rest" and d: "distinct (map lk_SwitchID (l # rest))"
    and np: "\<forall>x \<in> set rest. \<not> lk_Primary x \<and> \<not> primaryBefore x l"
    and same: "\<forall>x \<in> set rest. lk_HostIfaceID x = lk_HostIfaceID l \<and> lk_AddressID x = lk_AddressID l"
  let ?l = "l\<lparr>lk_Primary := True\<rparr>"
  have dls: "distinct (map lk_SwitchID (host_links inp h))"
    using d hl by simp
  then have dist: "distinct (map lk_SwitchID ls)"
    by (simp add: ls_def distinct_map)
  have set: "set ls = insert ?l (set rest)"
    by (simp add: ls_def hl)
  have srt: "sorted_wrt (\<lambda>a b. \<not> link_less b a) ls"
    unfolding ls_def by (rule sorted_links)
  have less: "link_less ?l x" if "x \<in> set rest" for x
    using np same that by (simp add: link_less_def)
  show ?thesis
  proof (cases ls)
    case (Cons z zs)
    have "\<not> link_less ?l z" if "?l \<noteq> z"
    proof -
      have "?l \<in> set zs"
        using set Cons that by auto
      then show ?thesis
        using srt Cons by simp
    qed
    then have "z = ?l"
      using set less [of z] Cons by (metis insert_iff list.set_intros(1))
    moreover have "x \<in> set rest" if "x \<in> set zs" for x
    proof -
      have "x \<noteq> ?l"
        using dist calculation Cons imageI [OF that, of lk_SwitchID] by auto
      then show ?thesis
        using set Cons that by auto
    qed
    moreover have "primaryBefore x ?l = primaryBefore x l" for x
      by (simp add: primaryBefore_def)
    ultimately show ?thesis
      using dist np Cons by auto
  qed (use set in simp)
qed (simp add: ls_def)

section \<open>What the merge of links keeps\<close>

definition ranked_row :: "time \<Rightarrow> Link \<Rightarrow> HostSwitchLink" where
  "ranked_row now l = HostSwitchLink0\<lparr>hl_SwitchID := lk_SwitchID l, hl_PortID := lk_PortID l,
     hl_PortName := lk_PortName l, hl_VLAN := lk_VLAN l, hl_Source := lk_Source l, hl_LastSeen := Some now\<rparr>"

lemma merge_unlink_simps [simp]:
  "me_existing (merge_unlink e tn kind i old now x r st) = me_existing st"
  "me_set (merge_unlink e tn kind i old now x r st) = me_set st"
  "me_changed (merge_unlink e tn kind i old now x r st)"
  by (simp_all add: merge_unlink_def)

lemma merge_ranked_simps [simp]:
  "me_existing (merge_ranked e tn kind i old new now l st) = tdel (lk_SwitchID l) (me_existing st)"
  "me_set (merge_ranked e tn kind i old new now l st) = me_set st @ [ranked_row now l]"
  "me_changed (merge_ranked e tn kind i old new now l st)"
  by (simp_all add: merge_ranked_def Let_def ranked_row_def split: option.split)

lemma fold_merge_ranked:
  defines "step \<equiv> \<lambda>e tn kind i old new now. fold (merge_ranked e tn kind i old new now)"
  shows "(tget (me_existing (step e tn kind i old new now ls st)) sw = None \<longleftrightarrow>
      sw \<in> lk_SwitchID ` set ls \<or> tget (me_existing st) sw = None)"
    and "me_set (step e tn kind i old new now ls st) = me_set st @ map (ranked_row now) ls"
    and "me_changed (step e tn kind i old new now ls st) \<longleftrightarrow> ls \<noteq> [] \<or> me_changed st"
  unfolding step_def by (induction ls arbitrary: st) auto

lemma fold_merge_old:
  fixes c :: Correlator and now :: time
  defines "kept \<equiv> \<lambda>st x. tget (me_existing st) (hl_SwitchID x) \<noteq> None"
  shows "me_set (fold (merge_old c e tn kind i old now) cur st) = me_set st @
      map (\<lambda>x. x\<lparr>hl_Primary := False\<rparr>) (filter (\<lambda>x. kept st x \<and> \<not> stale c now (hl_LastSeen x)) cur) \<and>
    (me_changed (fold (merge_old c e tn kind i old now) cur st) \<longleftrightarrow> me_changed st \<or>
      (\<exists>x \<in> set cur. kept st x \<and> stale c now (hl_LastSeen x)))"
proof (induction cur arbitrary: st)
  case (Cons x cur)
  have "kept (merge_old c e tn kind i old now x st) y = kept st y" for y
    by (simp add: kept_def merge_old_def)
  moreover have "me_set (merge_old c e tn kind i old now x st) =
      me_set st @ (if kept st x \<and> \<not> stale c now (hl_LastSeen x) then [x\<lparr>hl_Primary := False\<rparr>] else [])"
    by (simp add: kept_def merge_old_def)
  moreover have "me_changed (merge_old c e tn kind i old now x st) \<longleftrightarrow> me_changed st \<or> kept st x \<and> stale c now (hl_LastSeen x)"
    by (simp add: kept_def merge_old_def)
  ultimately show ?case
    using Cons.IH [of "merge_old c e tn kind i old now x st"] by auto
qed simp

lemma existing_of_cur: "tget (fold (\<lambda>x. tput (hl_SwitchID x) x) cur t) sw = None \<longleftrightarrow>
    sw \<notin> hl_SwitchID ` set cur \<and> tget t sw = None"
  by (induction cur arbitrary: t) auto

text \<open>C17. The merge of a host's stored links with the ranked ones writes every ranked link, seen now, followed by the
  stored links of the switches which were not ranked this time and are not stale, no longer primary. It reports no
  change exactly if no link was ranked and no stale link of an unranked switch was dropped.\<close>

theorem mergeSet_keeps:
  "me_set (mergeSet c e tn kind i cur ranked old new now rows) =
     map (ranked_row now) ranked @
     map (\<lambda>x. x\<lparr>hl_Primary := False\<rparr>)
       (filter (\<lambda>x. hl_SwitchID x \<notin> lk_SwitchID ` set ranked \<and> \<not> stale c now (hl_LastSeen x)) cur) \<and>
   (\<not> me_changed (mergeSet c e tn kind i cur ranked old new now rows) \<longleftrightarrow>
     ranked = [] \<and> \<not> (\<exists>x. x \<in> set cur \<and> hl_SwitchID x \<notin> lk_SwitchID ` set ranked \<and> stale c now (hl_LastSeen x)))"
proof -
  let ?st = "fold (merge_ranked e tn kind i old new now) ranked
    \<lparr>me_existing = fold (\<lambda>x. tput (hl_SwitchID x) x) cur [], me_set = [], me_rows = rows, me_changed = False\<rparr>"
  define K where "K x = (tget (me_existing ?st) (hl_SwitchID x) \<noteq> None)" for x :: HostSwitchLink
  have kept: "K x \<longleftrightarrow> hl_SwitchID x \<notin> lk_SwitchID ` set ranked" if "x \<in> set cur" for x
    using that by (auto simp: K_def fold_merge_ranked existing_of_cur)
  have "filter (\<lambda>x. K x \<and> \<not> stale c now (hl_LastSeen x)) cur =
      filter (\<lambda>x. hl_SwitchID x \<notin> lk_SwitchID ` set ranked \<and> \<not> stale c now (hl_LastSeen x)) cur"
    by (rule filter_cong [OF refl]) (simp only: kept)
  moreover have "(\<exists>x \<in> set cur. K x \<and> stale c now (hl_LastSeen x)) \<longleftrightarrow>
      (\<exists>x. x \<in> set cur \<and> hl_SwitchID x \<notin> lk_SwitchID ` set ranked \<and> stale c now (hl_LastSeen x))"
    using kept by blast
  ultimately show ?thesis
    using fold_merge_old [of c e tn kind i old now cur ?st, folded K_def]
    unfolding mergeSet_def fold_merge_ranked(2,3) by auto
qed

section \<open>A concrete network\<close>

text \<open>A host \<open>srv\<close> bonded across two switches: \<open>s1\<close> learned its MAC address on two ports, \<open>s2\<close> has it as an LLDP
  neighbour.\<close>

definition example_host :: Host where
  "example_host = \<lparr>ho_DeviceID = ''d'', ho_DeviceName = ''srv'', ho_IfaceID = ''i'', ho_IfaceName = ''eth0'',
     ho_MAC = ''aa'', ho_AddressID = [], ho_Related = []\<rparr>"

definition example_rank :: RankInput where
  "example_rank = \<lparr>ri_Ports =
       [\<lparr>po_SwitchID = ''s1'', po_PortID = ''p1'', po_Name = ''1'', po_MACs = [(''aa'', 10), (''bb'', 0), (''cc'', 0)], po_LLDP = []\<rparr>,
        \<lparr>po_SwitchID = ''s1'', po_PortID = ''p2'', po_Name = ''2'', po_MACs = [(''aa'', 20), (''bb'', 0)], po_LLDP = []\<rparr>,
        \<lparr>po_SwitchID = ''s2'', po_PortID = ''p3'', po_Name = ''3'', po_MACs = [], po_LLDP = [(''SRV'', ''eth0'')]\<rparr>],
     ri_Hosts = [example_host], ri_SwitchMACs = [], ri_SwitchNames = [], ri_MaxMACs = 4\<rparr>"

definition example_link_lldp :: Link where
  "example_link_lldp = \<lparr>lk_HostIfaceID = ''i'', lk_AddressID = [], lk_SwitchID = ''s2'', lk_PortID = ''p3'', lk_PortName = ''3'',
     lk_VLAN = 0, lk_Source = LinkLLDP, lk_Count = 0, lk_Primary = True\<rparr>"

definition example_link_fdb :: Link where
  "example_link_fdb = \<lparr>lk_HostIfaceID = ''i'', lk_AddressID = [], lk_SwitchID = ''s1'', lk_PortID = ''p2'', lk_PortName = ''2'',
     lk_VLAN = 20, lk_Source = LinkSNMPFDB, lk_Count = 2, lk_Primary = False\<rparr>"

lemma example_Rank: "Rank example_rank = [example_link_lldp, example_link_fdb]"
  by code_simp

section \<open>Properties\<close>

text \<open>C15. Every link the ranking infers is justified: it connects a host of the input to a port that is not
  an uplink, and either an LLDP neighbour of the port names the host, or the port learned the MAC
  address of the host with at most the allowed number of foreign addresses, and every other access
  port of that switch which learned it has strictly more of them.\<close>

theorem Rank_justified:
  assumes "l \<in> set (Rank inp)"
  shows "\<exists>h \<in> set (ri_Hosts inp). \<exists>p \<in> set (ri_Ports inp). \<not> facesSwitch p inp \<and>
    lk_HostIfaceID l = ho_IfaceID h \<and> lk_AddressID l = ho_AddressID h \<and> lk_SwitchID l = po_SwitchID p \<and> lk_PortID l = po_PortID p \<and>
    (lk_Source l = LinkLLDP \<and> (\<exists>nb \<in> set (po_LLDP p). names_host h (single h (ri_Hosts inp)) p nb) \<or>
     lk_Source l = LinkSNMPFDB \<and> tget (po_MACs p) (ho_MAC h) = Some (lk_VLAN l) \<and> lk_Count l = foreignMACs p h \<and>
       lk_Count l \<le> ri_MaxMACs inp \<and>
       (\<forall>q \<in> set (ri_Ports inp). \<not> facesSwitch q inp \<longrightarrow> po_SwitchID q = po_SwitchID p \<longrightarrow> hasMAC q (ho_MAC h) \<longrightarrow>
          q = p \<or> foreignMACs q h > lk_Count l))"
proof -
  obtain h where h: "h \<in> set (ri_Hosts inp)" "l \<in> set (host_links inp h)"
    using assms by (auto simp: Rank_def)
  obtain p where p: "by_lldp inp h p (l\<lparr>lk_Primary := False\<rparr>) \<or> by_fdb inp h p (l\<lparr>lk_Primary := False\<rparr>)"
    using host_links_mem [OF h(2)] by blast
  note same = per_link [OF p, simplified]
  have port: "p \<in> set (ri_Ports inp)" "\<not> facesSwitch p inp"
    using p by (auto simp: by_lldp_def by_fdb_def access_ports_def)
  show ?thesis
  proof (intro bexI [OF _ h(1)] bexI [OF _ port(1)] conjI port(2))
    show "lk_Source l = LinkLLDP \<and> (\<exists>nb \<in> set (po_LLDP p). names_host h (single h (ri_Hosts inp)) p nb) \<or>
     lk_Source l = LinkSNMPFDB \<and> tget (po_MACs p) (ho_MAC h) = Some (lk_VLAN l) \<and> lk_Count l = foreignMACs p h \<and>
       lk_Count l \<le> ri_MaxMACs inp \<and>
       (\<forall>q \<in> set (ri_Ports inp). \<not> facesSwitch q inp \<longrightarrow> po_SwitchID q = po_SwitchID p \<longrightarrow> hasMAC q (ho_MAC h) \<longrightarrow>
          q = p \<or> foreignMACs q h > lk_Count l)"
      using p
    proof
      assume "by_lldp inp h p (l\<lparr>lk_Primary := False\<rparr>)"
      then have "lk_Source (l\<lparr>lk_Primary := False\<rparr>) = LinkLLDP" "\<exists>nb \<in> set (po_LLDP p). names_host h (single h (ri_Hosts inp)) p nb"
        by (auto simp: by_lldp_def lldp_link_def)
      then show ?thesis
        by simp
    next
      assume f: "by_fdb inp h p (l\<lparr>lk_Primary := False\<rparr>)"
      then obtain vlan where v: "tget (po_MACs p) (ho_MAC h) = Some vlan"
          "l\<lparr>lk_Primary := False\<rparr> = fdb_link h (po_SwitchID p) \<lparr>ca_port = p, ca_count = foreignMACs p h, ca_vlan = vlan\<rparr>"
        by (auto simp: by_fdb_def)
      have "lk_Source l = LinkSNMPFDB" "lk_VLAN l = vlan" "lk_Count l = foreignMACs p h"
        using arg_cong [OF v(2), of lk_Source] arg_cong [OF v(2), of lk_VLAN] arg_cong [OF v(2), of lk_Count]
        by (simp_all add: fdb_link_def)
      then show ?thesis
        using f v(1) by (simp add: by_fdb_def access_ports_def)
    qed
  qed (use same in simp_all)
qed

theorem Rank_justified_witness:
  "\<exists>h p. h \<in> set (ri_Hosts example_rank) \<and> p \<in> set (ri_Ports example_rank) \<and> \<not> facesSwitch p example_rank \<and>
     lk_HostIfaceID example_link_fdb = ho_IfaceID h \<and> lk_PortID example_link_fdb = po_PortID p"
proof -
  have "example_link_fdb \<in> set (Rank example_rank)"
    by (simp add: example_Rank)
  from Rank_justified [OF this] show ?thesis
    by blast
qed

text \<open>C16. The links of a host have one primary: for hosts with different keys, the ranked links of a host are on
  different switches, the first of them and no other is marked primary, and none of the others comes
  before it in the order LLDP first, then fewest addresses, then switch, then port.\<close>

theorem Rank_one_primary:
  fixes inp :: RankInput and h :: Host
  assumes "distinct (map (\<lambda>h. (ho_IfaceID h, ho_AddressID h)) (ri_Hosts inp))" and "h \<in> set (ri_Hosts inp)"
  defines "ls \<equiv> filter (\<lambda>l. (lk_HostIfaceID l, lk_AddressID l) = (ho_IfaceID h, ho_AddressID h)) (Rank inp)"
  shows "distinct (map lk_SwitchID ls) \<and>
    (case ls of [] \<Rightarrow> True | l # rest \<Rightarrow> lk_Primary l \<and> (\<forall>x \<in> set rest. \<not> lk_Primary x \<and> \<not> primaryBefore x l))"
proof -
  have key: "(lk_HostIfaceID l, lk_AddressID l) = (ho_IfaceID g, ho_AddressID g)" if "l \<in> set (host_links inp g)" for g l
    using host_links_mem [OF that] per_link(1,2) by fastforce
  have ls: "ls = sort_by link_less (host_links inp h)"
    unfolding ls_def Rank_def
    using filter_concat_one [OF assms(1,2), of "host_links inp" "\<lambda>l. (lk_HostIfaceID l, lk_AddressID l)"] key
    by (simp add: filter_links)
  show ?thesis
    unfolding ls by (rule primary_first)
qed

theorem Rank_one_primary_witness:
  "case filter (\<lambda>l. (lk_HostIfaceID l, lk_AddressID l) = (ho_IfaceID example_host, ho_AddressID example_host)) (Rank example_rank) of
     [] \<Rightarrow> True
   | l # rest \<Rightarrow> lk_Primary l \<and> (\<forall>x \<in> set rest. \<not> lk_Primary x \<and> \<not> primaryBefore x l)"
proof -
  have "distinct (map (\<lambda>h. (ho_IfaceID h, ho_AddressID h)) (ri_Hosts example_rank))" "example_host \<in> set (ri_Hosts example_rank)"
    by (simp_all add: example_rank_def)
  from Rank_one_primary [OF this] show ?thesis ..
qed

end
