(* ===== verification/Stream_Client.thy ===== *)
theory Stream_Client
  imports "HOL-Library.Product_Lexorder" Netip
begin

text \<open>
  The event stream client (\<open>internal/stream/client.go\<close>): the stream identifiers and their
  order, the \<open>Client\<close> interface as a record of operations, the in-process client
  \<open>Memory\<close> and the rate limiter. Times are nanoseconds since the epoch. A blocking read has two
  critical sections, the attempt and the second look after the wake-up, and is modelled by two
  operations; what wakes it is the choice of the caller's step relation. The contract of the interface
  is the locale \<open>stream_client\<close>, discharged for \<open>Memory\<close>.
\<close>

section \<open>Numbers and times\<close>

text \<open>\<open>strconv.ParseInt\<close> in base ten with 64 bits: the value also on an error (zero, or the nearest
  bound), and whether there was none. The digits are read by \<open>ParseUint\<close>, which stops at the first
  character that is no digit and at the first overflow.\<close>

fun parse_uint :: "nat \<Rightarrow> string \<Rightarrow> nat \<times> bool" where
  "parse_uint n [] = (n, True)"
| "parse_uint n (c # s) =
     (if \<not> is_digit c then (0, False)
      else if n * 10 + (ord c - 48) \<ge> 2 ^ 64 then (2 ^ 64 - 1, False)
      else parse_uint (n * 10 + (ord c - 48)) s)"

definition ParseInt :: "string \<Rightarrow> int \<times> bool" where
  "ParseInt s =
     (let neg = (case s of c # _ \<Rightarrow> c = CHR ''-'' | [] \<Rightarrow> False);
          ds = (case s of c # r \<Rightarrow> if c = CHR ''-'' \<or> c = CHR ''+'' then r else s | [] \<Rightarrow> []);
          (un, ok) = (if ds = [] then (0, False) else parse_uint 0 ds) in
      if \<not> neg \<and> un \<ge> 2 ^ 63 then (2 ^ 63 - 1, False)
      else if neg \<and> un > 2 ^ 63 then (- (2 ^ 63), False)
      else (if neg then - int un else int un, ok))"

definition UnixMilli :: "time \<Rightarrow> int" where
  "UnixMilli t = t div 1000000"

section \<open>Stream identifiers\<close>

definition ID :: "time \<Rightarrow> int \<Rightarrow> string" where
  "ID at sq = itoa_int (UnixMilli at) @ ''-'' @ itoa_int sq"

definition ParseID :: "string \<Rightarrow> int \<times> int \<times> bool" where
  "ParseID i = (case cut_at (CHR ''-'') i of (a, b, found) \<Rightarrow>
     if \<not> found then (0, 0, False)
     else (fst (ParseInt a), fst (ParseInt b), snd (ParseInt a) \<and> snd (ParseInt b)))"

definition Less :: "string \<Rightarrow> string \<Rightarrow> bool" where
  "Less a b = (case (ParseID a, ParseID b) of ((am, as, _), (bm, bs, _)) \<Rightarrow>
     if am \<noteq> bm then am < bm else as < bs)"

section \<open>The interface\<close>

record Entry =
  en_ID :: string
  en_Fields :: "string tbl"

definition field :: "Entry \<Rightarrow> string \<Rightarrow> string" where
  "field e k = (case tget (en_Fields e) k of Some v \<Rightarrow> v | None \<Rightarrow> [])"

text \<open>\<open>XReadTry\<close> is the first critical section of \<open>XRead\<close>: the id reading starts after
  and the entries found, none if the call must wait. \<open>XReadWoken\<close> is the second one, which
  returns what is there when the wait was ended by a new entry.\<close>

record 'c Client =
  cl_XAdd :: "env \<Rightarrow> string \<Rightarrow> string tbl \<Rightarrow> int \<Rightarrow> ('c, string) op"
  cl_XReadTry :: "string \<Rightarrow> string \<Rightarrow> int \<Rightarrow> 'c \<Rightarrow> (string \<times> Entry list) res"
  cl_XReadWoken :: "string \<Rightarrow> string \<Rightarrow> int \<Rightarrow> 'c \<Rightarrow> Entry list res"
  cl_XRange :: "string \<Rightarrow> string \<Rightarrow> int \<Rightarrow> 'c \<Rightarrow> Entry list res"
  cl_XTrimMinID :: "string \<Rightarrow> string \<Rightarrow> ('c, unit) op"
  cl_XLast :: "string \<Rightarrow> 'c \<Rightarrow> string res"
  cl_Incr :: "env \<Rightarrow> string \<Rightarrow> time \<Rightarrow> ('c, int) op"

section \<open>The in-process client\<close>

record counter =
  ct_n :: int
  ct_exp :: "time option"

record Memory =
  sm_streams :: "Entry list tbl"
  sm_counters :: "counter tbl"
  sm_seq :: int
  sm_Err :: "goerr option"

definition NewMemory :: Memory where
  "NewMemory = \<lparr>sm_streams = [], sm_counters = [], sm_seq = 0, sm_Err = None\<rparr>"

definition stream_of :: "Memory \<Rightarrow> string \<Rightarrow> Entry list" where
  "stream_of m key = (case tget (sm_streams m) key of Some es \<Rightarrow> es | None \<Rightarrow> [])"

definition XAdd :: "env \<Rightarrow> string \<Rightarrow> string tbl \<Rightarrow> int \<Rightarrow> (Memory, string) op" where
  "XAdd e key fs maxLen m = (case sm_Err m of
       Some err \<Rightarrow> (Inl err, m)
     | None \<Rightarrow>
        (let sq = wrap64 (sm_seq m + 1); i = ID (env_now e) sq;
             es = stream_of m key @ [\<lparr>en_ID = i, en_Fields = fs\<rparr>];
             es' = (if maxLen > 0 \<and> int (length es) > maxLen then drop (length es - nat maxLen) es else es) in
         (Inr i, m\<lparr>sm_seq := sq, sm_streams := tput key es' (sm_streams m)\<rparr>)))"

definition after :: "string \<Rightarrow> int \<Rightarrow> Entry list \<Rightarrow> Entry list" where
  "after afterID count es =
     (let out = filter (\<lambda>e. afterID = [] \<or> Less afterID (en_ID e)) es in
      if count > 0 then take (nat count) out else out)"

definition XReadTry :: "string \<Rightarrow> string \<Rightarrow> int \<Rightarrow> Memory \<Rightarrow> (string \<times> Entry list) res" where
  "XReadTry key afterID count m = (case sm_Err m of
       Some err \<Rightarrow> Inl err
     | None \<Rightarrow>
        (let es = stream_of m key;
             a = (if afterID = [] \<or> afterID = ''$'' then if es = [] then ''0-0'' else en_ID (last es) else afterID) in
         Inr (a, after a count es)))"

definition XRange :: "string \<Rightarrow> string \<Rightarrow> int \<Rightarrow> Memory \<Rightarrow> Entry list res" where
  "XRange key afterID count m = (case sm_Err m of
       Some err \<Rightarrow> Inl err
     | None \<Rightarrow> Inr (after afterID count (stream_of m key)))"

definition XLast :: "string \<Rightarrow> Memory \<Rightarrow> string res" where
  "XLast key m = (case sm_Err m of
       Some err \<Rightarrow> Inl err
     | None \<Rightarrow> Inr (if stream_of m key = [] then [] else en_ID (last (stream_of m key))))"

definition XTrimMinID :: "string \<Rightarrow> string \<Rightarrow> (Memory, unit) op" where
  "XTrimMinID key minID m = (case sm_Err m of
       Some err \<Rightarrow> (Inl err, m)
     | None \<Rightarrow> (Inr (), m\<lparr>sm_streams := tput key (filter (\<lambda>e. \<not> Less (en_ID e) minID) (stream_of m key)) (sm_streams m)\<rparr>))"

definition Incr :: "env \<Rightarrow> string \<Rightarrow> time \<Rightarrow> (Memory, int) op" where
  "Incr e key ttl m = (case sm_Err m of
       Some err \<Rightarrow> (Inl err, m)
     | None \<Rightarrow>
        (let old = (case tget (sm_counters m) key of Some c \<Rightarrow> c | None \<Rightarrow> \<lparr>ct_n = 0, ct_exp = None\<rparr>);
             c = (if ct_n old = 0 \<or> (case ct_exp old of Some x \<Rightarrow> \<not> env_now e < x | None \<Rightarrow> False)
               then \<lparr>ct_n = 0, ct_exp = (if ttl > 0 then Some (env_now e + ttl) else None)\<rparr>
               else old);
             c' = c\<lparr>ct_n := wrap64 (ct_n c + 1)\<rparr> in
         (Inr (ct_n c'), m\<lparr>sm_counters := tput key c' (sm_counters m)\<rparr>)))"

definition Memory_Close :: "Memory \<Rightarrow> Memory" where
  "Memory_Close m = m\<lparr>sm_streams := [], sm_counters := []\<rparr>"

definition memory_client :: "Memory Client" where
  "memory_client = \<lparr>cl_XAdd = XAdd, cl_XReadTry = XReadTry, cl_XReadWoken = XRange, cl_XRange = XRange,
     cl_XTrimMinID = XTrimMinID, cl_XLast = XLast, cl_Incr = Incr\<rparr>"

section \<open>The rate limiter\<close>

definition RateKey :: "string \<Rightarrow> string \<Rightarrow> time \<Rightarrow> string" where
  "RateKey kind subject at = (let s = at div 1000000000 in
     ''lcm:rl:'' @ kind @ '':'' @ subject @ '':'' @ itoa_int (if s \<ge> 0 then s div 60 else - (- s div 60)))"

definition Limited :: "'c Client \<Rightarrow> env \<Rightarrow> string \<Rightarrow> string \<Rightarrow> int \<Rightarrow> time \<Rightarrow> 'c \<Rightarrow> bool \<times> goerr option \<times> 'c" where
  "Limited cl e kind subject limit at c =
     (if limit \<le> 0 then (False, None, c)
      else case cl_Incr cl e (RateKey kind subject at) 120000000000 c of
        (Inl err, c') \<Rightarrow> (True, Some err, c')
      | (Inr n, c') \<Rightarrow> (n > limit, None, c'))"

section \<open>The contract of the interface\<close>

text \<open>\<open>content c k\<close> is the stream under the key \<open>k\<close>, oldest entry first.\<close>

locale stream_client =
  fixes cl :: "'c Client" and content :: "'c \<Rightarrow> string \<Rightarrow> Entry list"
  assumes add_stored: "cl_XAdd cl e key fs maxLen c = (Inr i, c') \<Longrightarrow>
      set (content c' k) \<subseteq> set (content c k) \<union> (if k = key then {\<lparr>en_ID = i, en_Fields = fs\<rparr>} else {})"
    and try_content: "cl_XReadTry cl key a count c = Inr (a', es) \<Longrightarrow> es = after a' count (content c key)"
    and woken_content: "cl_XReadWoken cl key a count c = Inr es \<Longrightarrow> es = after a count (content c key)"
    and range_content: "cl_XRange cl key a count c = Inr es \<Longrightarrow> es = after a count (content c key)"
    and trim_content: "cl_XTrimMinID cl key i c = (r, c') \<Longrightarrow> set (content c' k) \<subseteq> set (content c k)"
begin

lemma after_subset: "set (after a count es) \<subseteq> set es"
  by (auto simp: after_def Let_def dest: in_set_takeD)

lemma reads_content:
  "cl_XReadTry cl key a count c = Inr (a', es) \<Longrightarrow> set es \<subseteq> set (content c key)"
  "cl_XReadWoken cl key a count c = Inr es \<Longrightarrow> set es \<subseteq> set (content c key)"
  "cl_XRange cl key a count c = Inr es \<Longrightarrow> set es \<subseteq> set (content c key)"
  using try_content woken_content range_content after_subset by metis+

end

lemma stream_of_tput [simp]: "stream_of (m\<lparr>sm_seq := q, sm_streams := tput key es t\<rparr>) k =
    (if k = key then es else case tget t k of Some es \<Rightarrow> es | None \<Rightarrow> [])"
  "stream_of (m\<lparr>sm_streams := tput key es t\<rparr>) k = (if k = key then es else case tget t k of Some es \<Rightarrow> es | None \<Rightarrow> [])"
  by (simp_all add: stream_of_def)

interpretation memory: stream_client memory_client stream_of
proof
  fix e key fs maxLen c i c' k
  assume "cl_XAdd memory_client e key fs maxLen c = (Inr i, c')"
  then show "set (stream_of c' k) \<subseteq> set (stream_of c k) \<union> (if k = key then {\<lparr>en_ID = i, en_Fields = fs\<rparr>} else {})"
    by (auto simp: memory_client_def XAdd_def Let_def stream_of_def dest: in_set_dropD split: option.splits if_splits)
next
  fix key i c r c' k
  assume "cl_XTrimMinID memory_client key i c = (r, c')"
  then show "set (stream_of c' k) \<subseteq> set (stream_of c k)"
    by (auto simp: memory_client_def XTrimMinID_def stream_of_def split: option.splits if_splits)
qed (auto simp: memory_client_def XReadTry_def XRange_def Let_def split: option.splits)

section \<open>Identifiers are ordered\<close>

lemma Less_key: "Less a b \<longleftrightarrow> (fst (ParseID a), fst (snd (ParseID a))) < (fst (ParseID b), fst (snd (ParseID b)))"
  by (auto simp: Less_def split: prod.splits)

lemma Less_trans: "Less a b \<Longrightarrow> Less b c \<Longrightarrow> Less a c"
  unfolding Less_key by order

lemma Less_irrefl [simp]: "\<not> Less a a"
  unfolding Less_key by order


lemma parse_uint_append: "parse_uint a (xs @ ys) = (case parse_uint a xs of (v, ok) \<Rightarrow> if ok then parse_uint v ys else (v, ok))"
  by (induction xs arbitrary: a) auto

lemma digit_char_value [simp]: "d < 10 \<Longrightarrow> is_digit (digit_char d)" "d < 10 \<Longrightarrow> ord (digit_char d) = 48 + d"
  by (simp_all add: digit_char_def is_digit_def)

lemma parse_uint_itoa: "n < 2 ^ 64 \<Longrightarrow> parse_uint 0 (itoa n) = (n, True)"
  unfolding itoa_def
proof (induction n rule: less_induct)
  case (less n)
  show ?case
  proof (cases "n < 10")
    case False
    then have "parse_uint 0 (digits_base 10 (n div 10)) = (n div 10, True)"
      using less by simp
    moreover have "n div 10 * 10 + n mod 10 = n"
      by simp
    ultimately show ?thesis
      using False less.prems by (simp add: digits_base_big parse_uint_append)
  qed (use less.prems in \<open>simp add: digits_base_small\<close>)
qed

lemma itoa_no_sign: "CHR ''-'' \<notin> set (itoa n)" "CHR ''+'' \<notin> set (itoa n)"
proof -
  have "\<not> is_digit (CHR ''-'')" "\<not> is_digit (CHR ''+'')"
    by (simp_all add: is_digit_def ord_def)
  then show "CHR ''-'' \<notin> set (itoa n)" "CHR ''+'' \<notin> set (itoa n)"
    using itoa_digits by blast+
qed

lemma ParseInt_itoa:
  assumes "n < 2 ^ 63"
  shows "ParseInt (itoa n) = (int n, True)"
proof -
  obtain c r where s: "itoa n = c # r"
    by (cases "itoa n") auto
  have "c \<noteq> CHR ''-''" "c \<noteq> CHR ''+''"
    using itoa_no_sign [of n] s by auto
  moreover have "parse_uint 0 (c # r) = (n, True)"
    using parse_uint_itoa [of n] assms s by simp
  ultimately show ?thesis
    using assms by (simp add: ParseInt_def s del: parse_uint.simps)
qed

lemma ParseID_ID:
  assumes "0 \<le> at" "UnixMilli at < 2 ^ 63" "0 \<le> sq" "sq < 2 ^ 63"
  shows "ParseID (ID at sq) = (UnixMilli at, sq, True)"
proof -
  have pos: "0 \<le> UnixMilli at"
    using assms(1) by (simp add: UnixMilli_def)
  have "cut_at (CHR ''-'') (ID at sq) = (itoa (nat (UnixMilli at)), itoa (nat sq), True)"
    using pos assms(3) by (simp add: ID_def itoa_int_def cut_at_append itoa_no_sign)
  moreover have "ParseInt (itoa (nat (UnixMilli at))) = (UnixMilli at, True)" "ParseInt (itoa (nat sq)) = (sq, True)"
    using pos assms by (simp_all add: ParseInt_itoa nat_less_iff)
  ultimately show ?thesis
    by (simp add: ParseID_def)
qed

section \<open>The limiter over a minute\<close>

text \<open>The answers of successive calls, each made at the clock of its environment.\<close>

fun limited_run :: "'c Client \<Rightarrow> string \<Rightarrow> string \<Rightarrow> int \<Rightarrow> env list \<Rightarrow> 'c \<Rightarrow> bool list" where
  "limited_run cl kind subject limit [] c = []"
| "limited_run cl kind subject limit (e # es) c =
     (case Limited cl e kind subject limit (env_now e) c of (b, _, c') \<Rightarrow> b # limited_run cl kind subject limit es c')"

definition in_minute :: "int \<Rightarrow> time \<Rightarrow> bool" where
  "in_minute k t = (k * 60000000000 \<le> t \<and> t < (k + 1) * 60000000000)"

lemma minute_key:
  assumes "0 \<le> k" "in_minute k t"
  shows "RateKey kind subject t = ''lcm:rl:'' @ kind @ '':'' @ subject @ '':'' @ itoa_int k"
proof -
  have "t div 1000000000 div 60 = k"
  proof -
    have "t div 60000000000 = k"
      using assms(2) by (intro int_div_pos_eq [of _ _ k "t - k * 60000000000"]) (auto simp: in_minute_def)
    then show ?thesis
      using zdiv_zmult2_eq [of 60 t 1000000000] by simp
  qed
  moreover have "0 \<le> t div 1000000000"
    using assms by (intro pos_imp_zdiv_nonneg_iff [THEN iffD2]) (auto simp: in_minute_def)
  ultimately show ?thesis
    by (simp add: RateKey_def)
qed

lemma Incr_counted:
  assumes "sm_Err m = None" "tget (sm_counters m) key = Some \<lparr>ct_n = n, ct_exp = Some x\<rparr>" "env_now e < x" "0 < n" "n + 1 < 2 ^ 63"
  shows "\<exists>m'. Incr e key ttl m = (Inr (n + 1), m') \<and> sm_Err m' = None \<and>
    tget (sm_counters m') key = Some \<lparr>ct_n = n + 1, ct_exp = Some x\<rparr>"
  using assms by (simp add: Incr_def wrap64_id)

lemma limited_run_counted:
  assumes "0 \<le> k" "0 < limit"
  shows "sm_Err m = None \<Longrightarrow>
    tget (sm_counters m) (''lcm:rl:'' @ kind @ '':'' @ subject @ '':'' @ itoa_int k) = Some \<lparr>ct_n = int n, ct_exp = Some x\<rparr> \<Longrightarrow>
    0 < n \<Longrightarrow> int n + int (length es) < 2 ^ 63 \<Longrightarrow> (k + 1) * 60000000000 \<le> x \<Longrightarrow> \<forall>e \<in> set es. in_minute k (env_now e) \<Longrightarrow>
    limited_run memory_client kind subject limit es m = map (\<lambda>i. limit \<le> int i) [n..<n + length es]"
proof (induction es arbitrary: m n)
  case (Cons e es)
  have now: "env_now e < x" "in_minute k (env_now e)"
    using Cons.prems(5,6) by (auto simp: in_minute_def)
  obtain m' where m': "Incr e (''lcm:rl:'' @ kind @ '':'' @ subject @ '':'' @ itoa_int k) 120000000000 m = (Inr (int n + 1), m')"
      "sm_Err m' = None"
      "tget (sm_counters m') (''lcm:rl:'' @ kind @ '':'' @ subject @ '':'' @ itoa_int k) = Some \<lparr>ct_n = int n + 1, ct_exp = Some x\<rparr>"
    using Incr_counted [OF Cons.prems(1,2) now(1), of 120000000000] Cons.prems(3,4) by auto
  have "limited_run memory_client kind subject limit es m' = map (\<lambda>i. limit \<le> int i) [Suc n..<Suc n + length es]"
    using Cons.prems Cons.IH [of m' "Suc n"] m'(2,3) by (simp add: add.commute)
  moreover have "[n..<n + length (e # es)] = n # [Suc n..<Suc n + length es]"
    by (simp add: upt_conv_Cons del: upt_Suc)
  ultimately show ?case
    using m'(1) minute_key [OF assms(1) now(2)] assms(2) by (auto simp: Limited_def memory_client_def)
qed simp

text \<open>The limiter lets exactly the first \<open>limit\<close> calls of a subject in a minute pass and refuses every later
  call of that minute, whatever the order of the clock readings within it.\<close>

theorem Limited_exact:
  assumes "sm_Err m = None" and "tget (sm_counters m) (''lcm:rl:'' @ kind @ '':'' @ subject @ '':'' @ itoa_int k) = None"
    and "0 \<le> k" and "0 < limit" and "int (length es) < 2 ^ 62" and "\<forall>e \<in> set es. in_minute k (env_now e)"
  shows "limited_run memory_client kind subject limit es m = map (\<lambda>i. limit \<le> int i) [0..<length es]"
proof (cases es)
  case (Cons e es')
  let ?key = "''lcm:rl:'' @ kind @ '':'' @ subject @ '':'' @ itoa_int k" and ?x = "env_now e + 120000000000"
  let ?m = "m\<lparr>sm_counters := tput ?key \<lparr>ct_n = int 1, ct_exp = Some ?x\<rparr> (sm_counters m)\<rparr>"
  have now: "in_minute k (env_now e)"
    using assms(6) Cons by simp
  have first: "Incr e ?key 120000000000 m = (Inr 1, ?m)"
    using assms(1,2) by (simp add: Incr_def wrap64_id)
  have "limited_run memory_client kind subject limit es' ?m = map (\<lambda>i. limit \<le> int i) [1..<1 + length es']"
    using assms Cons now by (intro limited_run_counted [OF assms(3,4), of _ _ _ _ ?x]) (auto simp: in_minute_def)
  moreover have "[0..<length es] = 0 # [1..<1 + length es']"
    by (simp add: Cons upt_conv_Cons del: upt_Suc)
  ultimately show ?thesis
    using first minute_key [OF assms(3) now] assms(4) by (auto simp: Cons Limited_def memory_client_def)
qed simp

theorem Limited_exact_witness:
  "limited_run memory_client ''mail'' ''u'' 2 [env0, env0, env0] NewMemory = [False, False, True]"
proof -
  have "limited_run memory_client ''mail'' ''u'' 2 [env0, env0, env0] NewMemory = map (\<lambda>i. 2 \<le> int i) [0..<length [env0, env0, env0]]"
    by (rule Limited_exact [of _ _ _ 0]) (simp_all add: NewMemory_def in_minute_def env0_def)
  then show ?thesis
    by (simp add: upt_conv_Cons)
qed

end
