(* ===== verification/Stream_Hub.thy ===== *)
theory Stream_Hub
  imports Stream_Client
begin

text \<open>
  The event hub (\<open>internal/stream/hub.go\<close>) and the frames of \<open>sse.go\<close>: publishing to
  a tenant's stream, opening and closing subscriptions, the replay of missed events and the
  goroutine that reads a tenant's stream and fans its entries out. Subscriptions and tenant records are
  shared by pointer in the code, so the hub holds two heaps of them keyed by numbers, and a tenant
  names its current record. Every critical section (under \<open>h.mu\<close> or \<open>s.mu\<close>) is
  one function; \<open>Stream_Run\<close> interleaves them. \<open>encoding/json\<close>'s validity check is
  its scanner, a state machine over the bytes.
\<close>

section \<open>Valid JSON\<close>

datatype parse_state = ParseObjectKey | ParseObjectValue | ParseArrayValue

datatype scan_state = BeginValue | BeginValueOrEmpty | BeginString | BeginStringOrEmpty | EndValue | EndTop
  | InString | InStringEsc | InStringEscU nat | NumNeg | Num1 | Num0 | NumDot | NumDot0 | NumE | NumESign | NumE0
  | InLiteral string

definition json_space :: "char \<Rightarrow> bool" where
  "json_space c = (c = CHR '' '' \<or> ord c \<in> {9, 10, 13})"

definition push_state :: "scan_state \<Rightarrow> parse_state \<Rightarrow> parse_state list \<Rightarrow> (scan_state \<times> parse_state list) option" where
  "push_state s p ps = (if length ps < 10000 then Some (s, p # ps) else None)"

definition pop_state :: "parse_state list \<Rightarrow> scan_state \<times> parse_state list" where
  "pop_state ps = (if tl ps = [] then (EndTop, []) else (EndValue, tl ps))"

definition end_value :: "parse_state list \<Rightarrow> char \<Rightarrow> (scan_state \<times> parse_state list) option" where
  "end_value ps c = (case ps of
       [] \<Rightarrow> if json_space c then Some (EndTop, []) else None
     | p # r \<Rightarrow>
        if json_space c then Some (EndValue, ps)
        else (case p of
            ParseObjectKey \<Rightarrow> if c = CHR '':'' then Some (BeginValue, ParseObjectValue # r) else None
          | ParseObjectValue \<Rightarrow> if c = CHR '','' then Some (BeginString, ParseObjectKey # r)
              else if c = CHR ''}'' then Some (pop_state ps) else None
          | ParseArrayValue \<Rightarrow> if c = CHR '','' then Some (BeginValue, ps)
              else if c = CHR '']'' then Some (pop_state ps) else None))"

definition begin_value :: "parse_state list \<Rightarrow> char \<Rightarrow> (scan_state \<times> parse_state list) option" where
  "begin_value ps c =
     (if json_space c then Some (BeginValue, ps)
      else if c = CHR ''{'' then push_state BeginStringOrEmpty ParseObjectKey ps
      else if c = CHR ''['' then push_state BeginValueOrEmpty ParseArrayValue ps
      else if c = CHR 0x22 then Some (InString, ps)
      else if c = CHR ''-'' then Some (NumNeg, ps)
      else if c = CHR ''0'' then Some (Num0, ps)
      else if c = CHR ''t'' then Some (InLiteral ''rue'', ps)
      else if c = CHR ''f'' then Some (InLiteral ''alse'', ps)
      else if c = CHR ''n'' then Some (InLiteral ''ull'', ps)
      else if is_digit c then Some (Num1, ps)
      else None)"

definition begin_string :: "parse_state list \<Rightarrow> char \<Rightarrow> (scan_state \<times> parse_state list) option" where
  "begin_string ps c =
     (if json_space c then Some (BeginString, ps) else if c = CHR 0x22 then Some (InString, ps) else None)"

definition num_end :: "parse_state list \<Rightarrow> char \<Rightarrow> (scan_state \<times> parse_state list) option" where
  "num_end ps c = (if c = CHR ''.'' then Some (NumDot, ps)
     else if c = CHR ''e'' \<or> c = CHR ''E'' then Some (NumE, ps) else end_value ps c)"

fun scan_step :: "scan_state \<Rightarrow> parse_state list \<Rightarrow> char \<Rightarrow> (scan_state \<times> parse_state list) option" where
  "scan_step BeginValue ps c = begin_value ps c"
| "scan_step BeginValueOrEmpty ps c = (if json_space c then Some (BeginValueOrEmpty, ps)
     else if c = CHR '']'' then end_value ps c else begin_value ps c)"
| "scan_step BeginString ps c = begin_string ps c"
| "scan_step BeginStringOrEmpty ps c = (if json_space c then Some (BeginStringOrEmpty, ps)
     else if c = CHR ''}'' then end_value (ParseObjectValue # tl ps) c else begin_string ps c)"
| "scan_step EndValue ps c = end_value ps c"
| "scan_step EndTop ps c = (if json_space c then Some (EndTop, ps) else None)"
| "scan_step InString ps c = (if c = CHR 0x22 then Some (EndValue, ps) else if c = CHR 0x5C then Some (InStringEsc, ps)
     else if ord c < 32 then None else Some (InString, ps))"
| "scan_step InStringEsc ps c = (if c \<in> set ''bfnrt/'' \<or> c = CHR 0x5C \<or> c = CHR 0x22 then Some (InString, ps)
     else if c = CHR ''u'' then Some (InStringEscU 3, ps) else None)"
| "scan_step (InStringEscU n) ps c = (if hex_value c = None then None
     else Some (case n of 0 \<Rightarrow> InString | Suc k \<Rightarrow> InStringEscU k, ps))"
| "scan_step NumNeg ps c = (if c = CHR ''0'' then Some (Num0, ps) else if is_digit c then Some (Num1, ps) else None)"
| "scan_step Num1 ps c = (if is_digit c then Some (Num1, ps) else num_end ps c)"
| "scan_step Num0 ps c = num_end ps c"
| "scan_step NumDot ps c = (if is_digit c then Some (NumDot0, ps) else None)"
| "scan_step NumDot0 ps c = (if is_digit c then Some (NumDot0, ps)
     else if c = CHR ''e'' \<or> c = CHR ''E'' then Some (NumE, ps) else end_value ps c)"
| "scan_step NumE ps c = (if c = CHR ''+'' \<or> c = CHR ''-'' then Some (NumESign, ps)
     else if is_digit c then Some (NumE0, ps) else None)"
| "scan_step NumESign ps c = (if is_digit c then Some (NumE0, ps) else None)"
| "scan_step NumE0 ps c = (if is_digit c then Some (NumE0, ps) else end_value ps c)"
| "scan_step (InLiteral w) ps c = (case w of
       [] \<Rightarrow> None
     | x # r \<Rightarrow> if c = x then Some (if r = [] then EndValue else InLiteral r, ps) else None)"

fun json_scan :: "scan_state \<Rightarrow> parse_state list \<Rightarrow> string \<Rightarrow> bool" where
  "json_scan s ps [] = (s = EndTop \<or> (case scan_step s ps (CHR '' '') of Some (EndTop, _) \<Rightarrow> True | _ \<Rightarrow> False))"
| "json_scan s ps (c # cs) = (case scan_step s ps c of None \<Rightarrow> False | Some (s', ps') \<Rightarrow> json_scan s' ps' cs)"

definition json_Valid :: "string \<Rightarrow> bool" where
  "json_Valid s = json_scan BeginValue [] s"

section \<open>Data\<close>

abbreviation MaxPayload :: nat where "MaxPayload \<equiv> 16384"
abbreviation MaxTargets :: nat where "MaxTargets \<equiv> 1000"
abbreviation DefaultMaxLen :: int where "DefaultMaxLen \<equiv> 10000"
abbreviation connBuffer :: nat where "connBuffer \<equiv> 32"

abbreviation ErrTooMany :: goerr where "ErrTooMany \<equiv> OtherErr ''stream: too many open streams''"
abbreviation ErrType :: goerr where "ErrType \<equiv> OtherErr ''stream: invalid event type''"
abbreviation ErrPayload :: goerr where "ErrPayload \<equiv> OtherErr ''stream: payload too large or not JSON-safe''"
abbreviation ErrTargets :: goerr where "ErrTargets \<equiv> OtherErr ''stream: 1..1000 user ids or all=true''"
abbreviation ErrReserved :: goerr where "ErrReserved \<equiv> OtherErr ''stream: reserved event type''"
abbreviation ErrHubClosed :: goerr where "ErrHubClosed \<equiv> OtherErr ''stream: hub closed''"

record Config =
  cf_ReplayWindow :: time
  cf_StreamsPerUser :: int
  cf_StreamsPerTenant :: int
  cf_MaxLen :: int
  cf_TrimInterval :: time
  cf_ReadBlock :: time
  cf_RetryDelay :: time

record StreamEvent =
  se_ID :: string
  se_Type :: string
  se_Data :: string

record Subscription =
  su_tenant :: string
  su_user :: string
  su_ch :: "StreamEvent list"
  su_last :: string
  su_closed :: bool

record tenantSub =
  ts_conns :: "nat list"
  ts_byUser :: "int tbl"
  ts_cancelled :: bool

record Hub =
  hb_cfg :: Config
  hb_tenants :: "nat tbl"
  hb_tsubs :: "(nat \<times> tenantSub) list"
  hb_subs :: "(nat \<times> Subscription) list"
  hb_next :: nat
  hb_done :: bool

definition NewHub :: "Config \<Rightarrow> Hub" where
  "NewHub cfg = \<lparr>hb_cfg = cfg\<lparr>
       cf_ReplayWindow := (if cf_ReplayWindow cfg \<le> 0 then 300000000000 else cf_ReplayWindow cfg),
       cf_StreamsPerUser := (if cf_StreamsPerUser cfg \<le> 0 then 5 else cf_StreamsPerUser cfg),
       cf_StreamsPerTenant := (if cf_StreamsPerTenant cfg \<le> 0 then 2000 else cf_StreamsPerTenant cfg),
       cf_MaxLen := (if cf_MaxLen cfg \<le> 0 then DefaultMaxLen else cf_MaxLen cfg),
       cf_TrimInterval := (if cf_TrimInterval cfg \<le> 0 then 60000000000 else cf_TrimInterval cfg),
       cf_ReadBlock := (if cf_ReadBlock cfg \<le> 0 then 5000000000 else cf_ReadBlock cfg),
       cf_RetryDelay := (if cf_RetryDelay cfg \<le> 0 then 1000000000 else cf_RetryDelay cfg)\<rparr>,
     hb_tenants = [], hb_tsubs = [], hb_subs = [], hb_next = 0, hb_done = False\<rparr>"

definition Key :: "string \<Rightarrow> string" where
  "Key tenantID = ''platform:events:'' @ tenantID"

section \<open>Publishing\<close>

definition typeRE :: "string \<Rightarrow> bool" where
  "typeRE s = (case s of
       [] \<Rightarrow> False
     | c # r \<Rightarrow> CHR ''a'' \<le> c \<and> c \<le> CHR ''z'' \<and> length r \<le> 63 \<and>
         list_all (\<lambda>x. CHR ''a'' \<le> x \<and> x \<le> CHR ''z'' \<or> is_digit x \<or> x \<in> set ''._-'') r)"

definition Reserved :: "string \<Rightarrow> bool" where
  "Reserved typ = (typ \<in> {''issued'', ''renewed'', ''revoked'', ''reset'', ''bye''})"

definition ValidateType :: "string \<Rightarrow> bool \<Rightarrow> unit res" where
  "ValidateType typ module = (if \<not> typeRE typ then Inl ErrType
     else if module \<and> Reserved typ then Inl ErrReserved else Inr ())"

text \<open>The data of an event: absent, raw text (bytes, raw JSON or a string), or another value with the outcome of
  \<open>json.Marshal\<close> on it.\<close>

datatype Payload = PNil | PText string | PValue "string option"

definition payload_raw :: "Payload \<Rightarrow> string res" where
  "payload_raw d = (case d of
       PNil \<Rightarrow> Inr ''{}''
     | PText s \<Rightarrow> Inr s
     | PValue None \<Rightarrow> Inl ErrPayload
     | PValue (Some s) \<Rightarrow> Inr s)"

definition payload_ok :: "string \<Rightarrow> bool" where
  "payload_ok raw = (length raw \<le> MaxPayload \<and> json_Valid raw \<and> list_all (\<lambda>c. ord c \<noteq> 10 \<and> ord c \<noteq> 13) raw)"

definition user_ok :: "string \<Rightarrow> bool" where
  "user_ok u = (u \<noteq> [] \<and> list_all (\<lambda>c. c \<noteq> CHR '','' \<and> c \<noteq> CHR '' '' \<and> ord c \<noteq> 10) u)"

definition join_comma :: "string list \<Rightarrow> string" where
  "join_comma us = concat (case us of [] \<Rightarrow> [] | u # r \<Rightarrow> u # map (\<lambda>v. CHR '','' # v) r)"

definition PublishID ::
  "'c Client \<Rightarrow> Hub \<Rightarrow> env \<Rightarrow> string \<Rightarrow> string list \<Rightarrow> bool \<Rightarrow> string \<Rightarrow> Payload \<Rightarrow> bool \<Rightarrow> ('c, string) op" where
  "PublishID cl h e tenantID to all typ d module c =
     (case ValidateType typ module of
        Inl err \<Rightarrow> (Inl err, c)
      | Inr _ \<Rightarrow>
         if all = (to \<noteq> []) \<or> length to > MaxTargets then (Inl ErrTargets, c)
         else case payload_raw d of
           Inl err \<Rightarrow> (Inl err, c)
         | Inr raw \<Rightarrow>
            if \<not> payload_ok raw then (Inl ErrPayload, c)
            else if \<not> all \<and> \<not> list_all user_ok to then (Inl ErrTargets, c)
            else cl_XAdd cl e (Key tenantID)
              [(''to'', if all then ''*'' else join_comma to), (''type'', typ), (''data'', raw),
               (''at'', itoa_int (UnixMilli (env_now e)))] (cf_MaxLen (hb_cfg h)) c)"

definition Publish :: "'c Client \<Rightarrow> Hub \<Rightarrow> env \<Rightarrow> string \<Rightarrow> string list \<Rightarrow> bool \<Rightarrow> string \<Rightarrow> Payload \<Rightarrow> ('c, unit) op" where
  "Publish cl h e tenantID to all typ d c = (case PublishID cl h e tenantID to all typ d False c of
       (Inl err, c') \<Rightarrow> (Inl err, c')
     | (Inr _, c') \<Rightarrow> (Inr (), c'))"

section \<open>Subscriptions\<close>

fun split_comma :: "string \<Rightarrow> string list" where
  "split_comma [] = [[]]"
| "split_comma (c # s) = (if c = CHR '','' then [] # split_comma s
     else case split_comma s of w # ws \<Rightarrow> (c # w) # ws | [] \<Rightarrow> [[c]])"

definition targets :: "string \<Rightarrow> string \<Rightarrow> bool" where
  "targets to user = (to = ''*'' \<or> user \<in> set (split_comma to))"

definition event_of :: "Entry \<Rightarrow> StreamEvent" where
  "event_of e = \<lparr>se_ID = en_ID e, se_Type = field e ''type'', se_Data = field e ''data''\<rparr>"

definition reset_event :: "string \<Rightarrow> StreamEvent" where
  "reset_event reason = \<lparr>se_ID = [], se_Type = ''reset'',
     se_Data = CHR ''{'' # CHR 0x22 # ''reason'' @ CHR 0x22 # CHR '':'' # CHR 0x22 # reason @ [CHR 0x22, CHR ''}'']\<rparr>"

definition push :: "StreamEvent \<Rightarrow> Subscription \<Rightarrow> bool \<times> Subscription" where
  "push ev s =
     (if su_closed s \<or> se_ID ev \<noteq> [] \<and> su_last s \<noteq> [] \<and> \<not> Less (su_last s) (se_ID ev) then (True, s)
      else let s1 = (if se_ID ev \<noteq> [] then s\<lparr>su_last := se_ID ev\<rparr> else s) in
        if length (su_ch s1) < connBuffer then (True, s1\<lparr>su_ch := su_ch s1 @ [ev]\<rparr>) else (False, s1))"

definition push_at :: "StreamEvent \<Rightarrow> nat \<Rightarrow> Hub \<Rightarrow> bool \<times> Hub" where
  "push_at ev p h = (case tget (hb_subs h) p of
       None \<Rightarrow> (True, h)
     | Some s \<Rightarrow> (case push ev s of (ok, s') \<Rightarrow> (ok, h\<lparr>hb_subs := tput p s' (hb_subs h)\<rparr>)))"

definition users_of :: "tenantSub \<Rightarrow> string \<Rightarrow> int" where
  "users_of t u = (case tget (ts_byUser t) u of Some n \<Rightarrow> n | None \<Rightarrow> 0)"

text \<open>\<open>Subscription.Close\<close>, whose \<open>once\<close> is the closed flag.\<close>

definition Close :: "nat \<Rightarrow> Hub \<Rightarrow> Hub" where
  "Close p h = (case tget (hb_subs h) p of
       None \<Rightarrow> h
     | Some s \<Rightarrow>
        if su_closed s then h
        else let h1 = h\<lparr>hb_subs := tput p (s\<lparr>su_closed := True\<rparr>) (hb_subs h)\<rparr> in
          case tget (hb_tenants h) (su_tenant s) of
            None \<Rightarrow> h1
          | Some t \<Rightarrow> (case tget (hb_tsubs h) t of
              None \<Rightarrow> h1
            | Some ts \<Rightarrow>
               (let n = users_of ts (su_user s) - 1;
                    ts1 = ts\<lparr>ts_conns := removeAll p (ts_conns ts),
                      ts_byUser := (if n \<le> 0 then tdel (su_user s) (ts_byUser ts) else tput (su_user s) n (ts_byUser ts))\<rparr> in
                if ts_conns ts1 = []
                then h1\<lparr>hb_tsubs := tput t (ts1\<lparr>ts_cancelled := True\<rparr>) (hb_tsubs h), hb_tenants := tdel (su_tenant s) (hb_tenants h)\<rparr>
                else h1\<lparr>hb_tsubs := tput t ts1 (hb_tsubs h)\<rparr>)))"

definition Hub_Close :: "Hub \<Rightarrow> Hub" where
  "Hub_Close h = (let ps = concat (map (\<lambda>t. case tget (hb_tsubs h) t of Some ts \<Rightarrow> ts_conns ts | None \<Rightarrow> []) (tvals (hb_tenants h))) in
     fold Close ps (h\<lparr>hb_done := True\<rparr>))"

definition OpenStreams :: "Hub \<Rightarrow> nat" where
  "OpenStreams h = sum_list (map (\<lambda>t. case tget (hb_tsubs h) t of Some ts \<Rightarrow> length (ts_conns ts) | None \<Rightarrow> 0) (tvals (hb_tenants h)))"

text \<open>The record of the tenant, created when it has none; then also where its reading loop starts.\<close>

definition tenant_record :: "'c Client \<Rightarrow> string \<Rightarrow> 'c \<Rightarrow> Hub \<Rightarrow> (nat \<times> string option \<times> Hub) res" where
  "tenant_record cl tenantID c h = (case tget (hb_tenants h) tenantID of
       Some t \<Rightarrow> Inr (t, None, h)
     | None \<Rightarrow> (case cl_XLast cl (Key tenantID) c of
          Inl err \<Rightarrow> Inl err
        | Inr start \<Rightarrow> Inr (hb_next h, Some (if start = [] then ''0-0'' else start),
            h\<lparr>hb_tsubs := tput (hb_next h) \<lparr>ts_conns = [], ts_byUser = [], ts_cancelled = False\<rparr> (hb_tsubs h),
              hb_tenants := tput tenantID (hb_next h) (hb_tenants h), hb_next := hb_next h + 1\<rparr>)))"

definition add_conn :: "nat \<Rightarrow> string \<Rightarrow> string \<Rightarrow> Hub \<Rightarrow> nat res \<times> Hub" where
  "add_conn t tenantID userID h = (case tget (hb_tsubs h) t of
       None \<Rightarrow> (Inl ErrTooMany, h)
     | Some ts \<Rightarrow>
        if users_of ts userID \<ge> cf_StreamsPerUser (hb_cfg h) \<or> int (length (ts_conns ts)) \<ge> cf_StreamsPerTenant (hb_cfg h)
        then (Inl ErrTooMany, h)
        else (Inr (hb_next h), h\<lparr>
          hb_subs := tput (hb_next h) \<lparr>su_tenant = tenantID, su_user = userID, su_ch = [], su_last = [], su_closed = False\<rparr> (hb_subs h),
          hb_tsubs := tput t (ts\<lparr>ts_conns := ts_conns ts @ [hb_next h],
            ts_byUser := tput userID (users_of ts userID + 1) (ts_byUser ts)\<rparr>) (hb_tsubs h),
          hb_next := hb_next h + 1\<rparr>))"

text \<open>The critical section of \<open>Subscribe\<close>: the new subscription, and the record and start of a loop it
  started.\<close>

definition open_sub :: "'c Client \<Rightarrow> string \<Rightarrow> string \<Rightarrow> 'c \<Rightarrow> Hub \<Rightarrow> nat res \<times> (nat \<times> string) option \<times> Hub" where
  "open_sub cl tenantID userID c h =
     (if hb_done h then (Inl ErrHubClosed, None, h)
      else case tenant_record cl tenantID c h of
        Inl err \<Rightarrow> (Inl err, None, h)
      | Inr (t, start, h1) \<Rightarrow> (case add_conn t tenantID userID h1 of (r, h2) \<Rightarrow> (r, map_option (Pair t) start, h2)))"

definition replay_events :: "'c Client \<Rightarrow> env \<Rightarrow> Config \<Rightarrow> string \<Rightarrow> string \<Rightarrow> string \<Rightarrow> 'c \<Rightarrow> StreamEvent list" where
  "replay_events cl e cfg tenantID userID lastID c = (case ParseID lastID of (ms, _, ok) \<Rightarrow>
     if \<not> ok \<or> ms * 1000000 < env_now e - cf_ReplayWindow cfg then [reset_event ''replay_window'']
     else case cl_XRange cl (Key tenantID) lastID (cf_MaxLen cfg) c of
       Inl _ \<Rightarrow> [reset_event ''replay_unavailable'']
     | Inr es \<Rightarrow> map event_of (filter (\<lambda>x. targets (field x ''to'') userID) es))"

definition push_all :: "nat \<Rightarrow> StreamEvent list \<Rightarrow> Hub \<Rightarrow> Hub" where
  "push_all p evs h = fold (\<lambda>ev h. snd (push_at ev p h)) evs h"

definition Subscribe :: "'c Client \<Rightarrow> env \<Rightarrow> string \<Rightarrow> string \<Rightarrow> string \<Rightarrow> 'c \<Rightarrow> Hub \<Rightarrow> nat res \<times> Hub" where
  "Subscribe cl e tenantID userID lastID c h = (case open_sub cl tenantID userID c h of
       (Inl err, _, h1) \<Rightarrow> (Inl err, h1)
     | (Inr p, _, h1) \<Rightarrow> (Inr p,
         if lastID = [] then h1 else push_all p (replay_events cl e (hb_cfg h1) tenantID userID lastID c) h1))"

text \<open>The two parts of \<open>dispatch\<close>: the recipients, collected under the lock, and the delivery to one of them.\<close>

definition recipients :: "nat \<Rightarrow> Entry \<Rightarrow> Hub \<Rightarrow> nat list" where
  "recipients t e h = (case tget (hb_tsubs h) t of
       None \<Rightarrow> []
     | Some ts \<Rightarrow> filter (\<lambda>p. case tget (hb_subs h) p of Some s \<Rightarrow> targets (field e ''to'') (su_user s) | None \<Rightarrow> False) (ts_conns ts))"

definition deliver :: "StreamEvent \<Rightarrow> nat \<Rightarrow> Hub \<Rightarrow> Hub" where
  "deliver ev p h = (case push_at ev p h of (ok, h1) \<Rightarrow> if ok then h1 else Close p h1)"

definition dispatch :: "nat \<Rightarrow> Entry \<Rightarrow> Hub \<Rightarrow> Hub" where
  "dispatch t e h = fold (deliver (event_of e)) (recipients t e h) h"

section \<open>Frames\<close>

definition Frame :: "StreamEvent \<Rightarrow> string" where
  "Frame ev = (if se_ID ev \<noteq> [] then ''id: '' @ se_ID ev @ [CHR 0x0A] else []) @ ''event: '' @ se_Type ev @ [CHR 0x0A] @
     ''data: '' @ filter (\<lambda>c. ord c \<noteq> 10 \<and> ord c \<noteq> 13) (se_Data ev) @ [CHR 0x0A, CHR 0x0A]"

section \<open>Addressing\<close>

lemma split_comma_word: "CHR '','' \<notin> set w \<Longrightarrow> split_comma w = [w]"
  by (induction w) auto

lemma split_comma_append: "CHR '','' \<notin> set w \<Longrightarrow> split_comma (w @ CHR '','' # s) = w # split_comma s"
  by (induction w) auto

lemma split_join: "us \<noteq> [] \<Longrightarrow> list_all (\<lambda>u. CHR '','' \<notin> set u) us \<Longrightarrow> split_comma (join_comma us) = us"
proof (induction us)
  case (Cons u us)
  show ?case
  proof (cases us)
    case Nil
    then show ?thesis
      using Cons.prems by (simp add: join_comma_def split_comma_word)
  next
    case (Cons v vs)
    have "join_comma (u # us) = u @ CHR '','' # join_comma us"
      by (simp add: join_comma_def Cons)
    then show ?thesis
      using Cons.IH Cons.prems Cons by (simp add: split_comma_append)
  qed
qed simp

text \<open>An event published to users is addressed to exactly them; the one exception is the single user \<open>*\<close>, whose name
  is the mark for everyone.\<close>

lemma PublishID_targets:
  assumes "PublishID cl h e tn to False typ d module c = (Inr i, c')" and "to \<noteq> [''*'']"
  shows "targets (join_comma to) u \<longleftrightarrow> u \<in> set to"
proof -
  have ok: "to \<noteq> []" "list_all user_ok to"
    using assms(1) by (auto simp: PublishID_def split: sum.splits if_splits)
  have "list_all (\<lambda>u. CHR '','' \<notin> set u) to"
    using ok(2) by (auto simp: list_all_iff user_ok_def)
  then have s: "split_comma (join_comma to) = to"
    using split_join ok(1) by blast
  moreover have "join_comma to \<noteq> ''*''"
    using s assms(2) split_comma_word [of "''*''"] by auto
  ultimately show ?thesis
    by (simp add: targets_def)
qed

end
