(* ===== verification/Stream_Run.thy ===== *)
theory Stream_Run
  imports Stream_Hub
begin

text \<open>
  The hub at run time: publishers, subscribers, readers and the loop of every tenant interleave at the
  critical sections of the code. A state holds the client, the hub, the loops (\<open>Hub.loop\<close>,
  one per tenant record), the replays in progress, and two histories the code does not keep: the events each
  reader has received and every entry ever appended to a stream. The invariant of the hub's tables and
  the soundness of the delivery are proved for every reachable state, for any client that meets the contract.
\<close>

section \<open>The step relation\<close>

record Loop =
  lp_tenant :: string
  lp_last :: string
  lp_wait :: "string option"
  lp_pending :: "Entry list"
  lp_event :: StreamEvent
  lp_todo :: "nat list"
  lp_stalled :: "nat option"

definition new_loop :: "string \<Rightarrow> string \<Rightarrow> Loop" where
  "new_loop tenantID start = \<lparr>lp_tenant = tenantID, lp_last = start, lp_wait = None, lp_pending = [],
     lp_event = reset_event [], lp_todo = [], lp_stalled = None\<rparr>"

definition loop_idle :: "Loop \<Rightarrow> bool" where
  "loop_idle l = (lp_wait l = None \<and> lp_pending l = [] \<and> lp_todo l = [] \<and> lp_stalled l = None)"

definition loop_running :: "Hub \<Rightarrow> nat \<Rightarrow> bool" where
  "loop_running h t = (\<not> hb_done h \<and> (case tget (hb_tsubs h) t of Some ts \<Rightarrow> \<not> ts_cancelled ts | None \<Rightarrow> False))"

record 'c Sys =
  sy_client :: 'c
  sy_hub :: Hub
  sy_loops :: "(nat \<times> Loop) list"
  sy_asked :: "(nat \<times> string) list"
  sy_replay :: "(nat \<times> StreamEvent list) list"
  sy_got :: "(nat \<times> StreamEvent list) list"
  sy_log :: "string \<Rightarrow> Entry list"

definition got :: "'c Sys \<Rightarrow> nat \<Rightarrow> StreamEvent list" where
  "got s p = (case tget (sy_got s) p of Some evs \<Rightarrow> evs | None \<Rightarrow> [])"

definition init_sys :: "Config \<Rightarrow> 'c \<Rightarrow> (string \<Rightarrow> Entry list) \<Rightarrow> 'c Sys" where
  "init_sys cfg c log = \<lparr>sy_client = c, sy_hub = NewHub cfg, sy_loops = [], sy_asked = [], sy_replay = [], sy_got = [],
     sy_log = log\<rparr>"

inductive hub_step :: "'c Client \<Rightarrow> 'c Sys \<Rightarrow> 'c Sys \<Rightarrow> bool" for cl where
  append: "cl_XAdd cl e key fs maxLen (sy_client s) = (Inr i, c') \<Longrightarrow>
    hub_step cl s (s\<lparr>sy_client := c', sy_log := (sy_log s)(key := sy_log s key @ [\<lparr>en_ID = i, en_Fields = fs\<rparr>])\<rparr>)"
| trim: "cl_XTrimMinID cl key i (sy_client s) = (r, c') \<Longrightarrow> hub_step cl s (s\<lparr>sy_client := c'\<rparr>)"
| subscribe: "open_sub cl tenantID userID (sy_client s) (sy_hub s) = (r, start, h') \<Longrightarrow>
    hub_step cl s (s\<lparr>sy_hub := h',
      sy_loops := (case start of None \<Rightarrow> sy_loops s | Some (t, a) \<Rightarrow> tput t (new_loop tenantID a) (sy_loops s)),
      sy_asked := (case r of Inl _ \<Rightarrow> sy_asked s | Inr p \<Rightarrow> if lastID = [] then sy_asked s else tput p lastID (sy_asked s))\<rparr>)"
| replay_read: "tget (sy_asked s) p = Some lastID \<Longrightarrow> tget (hb_subs (sy_hub s)) p = Some sub \<Longrightarrow>
    hub_step cl s (s\<lparr>sy_asked := tdel p (sy_asked s), sy_replay := tput p (replay_events cl e (hb_cfg (sy_hub s))
      (su_tenant sub) (su_user sub) lastID (sy_client s)) (sy_replay s)\<rparr>)"
| replay_push: "tget (sy_replay s) p = Some (ev # evs) \<Longrightarrow>
    hub_step cl s (s\<lparr>sy_hub := snd (push_at ev p (sy_hub s)), sy_replay := tput p evs (sy_replay s)\<rparr>)"
| read: "tget (sy_loops s) t = Some l \<Longrightarrow> loop_running (sy_hub s) t \<Longrightarrow> loop_idle l \<Longrightarrow>
    cl_XReadTry cl (Key (lp_tenant l)) (lp_last l) 100 (sy_client s) = Inr (a, es) \<Longrightarrow>
    hub_step cl s (s\<lparr>sy_loops := tput t (if es = [] then l\<lparr>lp_wait := Some a\<rparr> else l\<lparr>lp_pending := es\<rparr>) (sy_loops s)\<rparr>)"
| woken: "tget (sy_loops s) t = Some l \<Longrightarrow> lp_wait l = Some a \<Longrightarrow>
    cl_XReadWoken cl (Key (lp_tenant l)) a 100 (sy_client s) = Inr es \<Longrightarrow>
    hub_step cl s (s\<lparr>sy_loops := tput t (l\<lparr>lp_wait := None, lp_pending := es\<rparr>) (sy_loops s)\<rparr>)"
| timeout: "tget (sy_loops s) t = Some l \<Longrightarrow>
    hub_step cl s (s\<lparr>sy_loops := tput t (l\<lparr>lp_wait := None\<rparr>) (sy_loops s)\<rparr>)"
| pick: "tget (sy_loops s) t = Some l \<Longrightarrow> lp_pending l = en # es \<Longrightarrow> lp_todo l = [] \<Longrightarrow> lp_stalled l = None \<Longrightarrow>
    hub_step cl s (s\<lparr>sy_loops := tput t (l\<lparr>lp_pending := es, lp_last := en_ID en, lp_event := event_of en,
      lp_todo := recipients t en (sy_hub s)\<rparr>) (sy_loops s)\<rparr>)"
| fan: "tget (sy_loops s) t = Some l \<Longrightarrow> lp_todo l = p # ps \<Longrightarrow> lp_stalled l = None \<Longrightarrow>
    push_at (lp_event l) p (sy_hub s) = (ok, h') \<Longrightarrow>
    hub_step cl s (s\<lparr>sy_hub := h', sy_loops := tput t (l\<lparr>lp_todo := ps, lp_stalled := (if ok then None else Some p)\<rparr>) (sy_loops s)\<rparr>)"
| stall: "tget (sy_loops s) t = Some l \<Longrightarrow> lp_stalled l = Some p \<Longrightarrow>
    hub_step cl s (s\<lparr>sy_hub := Close p (sy_hub s), sy_loops := tput t (l\<lparr>lp_stalled := None\<rparr>) (sy_loops s)\<rparr>)"
| receive: "tget (hb_subs (sy_hub s)) p = Some sub \<Longrightarrow> su_ch sub = ev # evs \<Longrightarrow>
    hub_step cl s (s\<lparr>sy_hub := (sy_hub s)\<lparr>hb_subs := tput p (sub\<lparr>su_ch := evs\<rparr>) (hb_subs (sy_hub s))\<rparr>,
      sy_got := tput p (got s p @ [ev]) (sy_got s)\<rparr>)"
| close: "hub_step cl s (s\<lparr>sy_hub := Close p (sy_hub s)\<rparr>)"
| cancel: "hub_step cl s (s\<lparr>sy_hub := (sy_hub s)\<lparr>hb_done := True\<rparr>\<rparr>)"

inductive hub_reach :: "'c Client \<Rightarrow> ('c \<Rightarrow> string \<Rightarrow> Entry list) \<Rightarrow> Config \<Rightarrow> 'c Sys \<Rightarrow> bool" for cl content cfg where
  init: "hub_reach cl content cfg (init_sys cfg c (content c))"
| step: "hub_reach cl content cfg s \<Longrightarrow> hub_step cl s s' \<Longrightarrow> hub_reach cl content cfg s'"

section \<open>The tables of the hub\<close>

definition is_user :: "Hub \<Rightarrow> string \<Rightarrow> nat \<Rightarrow> bool" where
  "is_user h u p = (case tget (hb_subs h) p of Some s \<Rightarrow> su_user s = u | None \<Rightarrow> False)"

definition open_of :: "Hub \<Rightarrow> string \<Rightarrow> nat \<Rightarrow> bool" where
  "open_of h tn p = (case tget (hb_subs h) p of Some s \<Rightarrow> su_tenant s = tn \<and> \<not> su_closed s | None \<Rightarrow> False)"

definition rec_wf :: "Hub \<Rightarrow> string \<Rightarrow> tenantSub \<Rightarrow> bool" where
  "rec_wf h tn ts = (\<not> ts_cancelled ts \<and> distinct (ts_conns ts) \<and>
     (\<forall>p. p \<in> set (ts_conns ts) \<longleftrightarrow> open_of h tn p) \<and>
     int (length (ts_conns ts)) \<le> cf_StreamsPerTenant (hb_cfg h) \<and>
     (\<forall>u. users_of ts u = int (length (filter (is_user h u) (ts_conns ts))) \<and> users_of ts u \<le> cf_StreamsPerUser (hb_cfg h)))"

definition hub_wf :: "Hub \<Rightarrow> bool" where
  "hub_wf h = (0 < cf_StreamsPerUser (hb_cfg h) \<and> 0 < cf_StreamsPerTenant (hb_cfg h) \<and>
     (\<forall>tn t. tget (hb_tenants h) tn = Some t \<longrightarrow> t < hb_next h \<and>
        (\<exists>ts. tget (hb_tsubs h) t = Some ts \<and> ts_conns ts \<noteq> [] \<and> rec_wf h tn ts)) \<and>
     (\<forall>tn p. open_of h tn p \<longrightarrow> tget (hb_tenants h) tn \<noteq> None) \<and>
     (\<forall>t ts. tget (hb_tsubs h) t = Some ts \<longrightarrow> t < hb_next h \<and> (ts_conns ts = [] \<or> (\<exists>tn. tget (hb_tenants h) tn = Some t))) \<and>
     (\<forall>p. tget (hb_subs h) p \<noteq> None \<longrightarrow> p < hb_next h))"

lemma hub_wfD:
  assumes "hub_wf h"
  shows "0 < cf_StreamsPerUser (hb_cfg h)" "0 < cf_StreamsPerTenant (hb_cfg h)"
    "\<And>tn t. tget (hb_tenants h) tn = Some t \<Longrightarrow> t < hb_next h \<and>
      (\<exists>ts. tget (hb_tsubs h) t = Some ts \<and> ts_conns ts \<noteq> [] \<and> rec_wf h tn ts)"
    "\<And>tn p. open_of h tn p \<Longrightarrow> tget (hb_tenants h) tn \<noteq> None"
    "\<And>t ts. tget (hb_tsubs h) t = Some ts \<Longrightarrow> t < hb_next h \<and> (ts_conns ts = [] \<or> (\<exists>tn. tget (hb_tenants h) tn = Some t))"
    "\<And>p. tget (hb_subs h) p \<noteq> None \<Longrightarrow> p < hb_next h"
  using assms unfolding hub_wf_def by blast+

lemma rec_wf_cong:
  assumes "rec_wf h tn ts" and "open_of h' tn = open_of h tn" and "\<And>p. p \<in> set (ts_conns ts) \<Longrightarrow> (\<lambda>u. is_user h' u p) = (\<lambda>u. is_user h u p)"
    and "hb_cfg h' = hb_cfg h"
  shows "rec_wf h' tn ts"
proof -
  have eq: "filter (is_user h' u) (ts_conns ts) = filter (is_user h u) (ts_conns ts)" for u
    using assms(3) by (intro filter_cong refl) metis
  show ?thesis
    using assms(1) unfolding rec_wf_def eq assms(2,4) .
qed

text \<open>An update that keeps the tenant, the user and the closed flag of a subscription keeps the tables.\<close>

lemma same_sub:
  assumes "tget (hb_subs h) p = Some s" "su_tenant s' = su_tenant s" "su_user s' = su_user s" "su_closed s' = su_closed s"
  shows "is_user (h\<lparr>hb_subs := tput p s' (hb_subs h)\<rparr>) = is_user h"
    "open_of (h\<lparr>hb_subs := tput p s' (hb_subs h)\<rparr>) = open_of h"
  using assms by (auto simp: is_user_def open_of_def fun_eq_iff)

lemma hub_wf_same_sub:
  assumes "hub_wf h" "tget (hb_subs h) p = Some s" "su_tenant s' = su_tenant s" "su_user s' = su_user s" "su_closed s' = su_closed s"
  shows "hub_wf (h\<lparr>hb_subs := tput p s' (hb_subs h)\<rparr>)"
proof -
  have "p < hb_next h"
    using hub_wfD(6) [OF assms(1), of p] assms(2) by simp
  then show ?thesis
    using assms(1) unfolding hub_wf_def rec_wf_def same_sub [OF assms(2-)] by simp
qed

lemma push_same: "su_tenant (snd (push ev s)) = su_tenant s" "su_user (snd (push ev s)) = su_user s"
  "su_closed (snd (push ev s)) = su_closed s"
  by (simp_all add: push_def Let_def)

lemma push_at_wf: "hub_wf h \<Longrightarrow> hub_wf (snd (push_at ev p h))"
proof (cases "tget (hb_subs h) p")
  case (Some s)
  assume "hub_wf h"
  then have "hub_wf (h\<lparr>hb_subs := tput p (snd (push ev s)) (hb_subs h)\<rparr>)"
    using Some by (rule hub_wf_same_sub) (simp_all add: push_same)
  then show ?thesis
    by (cases "push ev s") (simp add: push_at_def Some)
qed (simp add: push_at_def)

lemma length_filter_removeAll:
  "distinct xs \<Longrightarrow> p \<in> set xs \<Longrightarrow>
    int (length (filter P (removeAll p xs))) = int (length (filter P xs)) - (if P p then 1 else 0)"
  by (induction xs) auto

lemma tenants_inj:
  assumes "hub_wf h" "tget (hb_tenants h) tn = Some t" "tget (hb_tenants h) tn' = Some t"
  shows "tn = tn'"
proof -
  obtain ts where ts: "tget (hb_tsubs h) t = Some ts" "ts_conns ts \<noteq> []" "rec_wf h tn ts"
    using hub_wfD(3) [OF assms(1,2)] by blast
  have "rec_wf h tn' ts"
    using hub_wfD(3) [OF assms(1,3)] ts(1) by auto
  moreover obtain p where "p \<in> set (ts_conns ts)"
    using ts(2) by (cases "ts_conns ts") auto
  ultimately have "open_of h tn p" "open_of h tn' p"
    using ts(3) by (auto simp: rec_wf_def)
  then show ?thesis
    by (auto simp: open_of_def split: option.splits)
qed

definition closed_rec :: "nat \<Rightarrow> string \<Rightarrow> tenantSub \<Rightarrow> tenantSub" where
  "closed_rec p u ts = ts\<lparr>ts_conns := removeAll p (ts_conns ts),
     ts_byUser := (if users_of ts u - 1 \<le> 0 then tdel u (ts_byUser ts) else tput u (users_of ts u - 1) (ts_byUser ts))\<rparr>"

lemma closed_rec_wf:
  assumes wf: "rec_wf h tn ts" and p: "tget (hb_subs h) p = Some s" "su_tenant s = tn" "\<not> su_closed s"
  shows "rec_wf (h\<lparr>hb_subs := tput p (s\<lparr>su_closed := True\<rparr>) (hb_subs h)\<rparr>) tn (closed_rec p (su_user s) ts)"
proof -
  let ?h = "h\<lparr>hb_subs := tput p (s\<lparr>su_closed := True\<rparr>) (hb_subs h)\<rparr>"
  have user: "is_user ?h = is_user h"
    using p by (auto simp: is_user_def fun_eq_iff)
  have opn: "open_of ?h tn q \<longleftrightarrow> open_of h tn q \<and> q \<noteq> p" for q
    by (simp add: open_of_def)
  have mem: "p \<in> set (ts_conns ts)"
    using wf p by (simp add: rec_wf_def open_of_def)
  have pu: "is_user h u p \<longleftrightarrow> u = su_user s" for u
    using p(1) by (auto simp: is_user_def)
  have count: "int (length (filter (is_user h u) (removeAll p (ts_conns ts)))) =
      users_of ts u - (if u = su_user s then 1 else 0)" for u
    using wf mem by (simp add: rec_wf_def length_filter_removeAll pu)
  have "0 \<le> users_of ts (su_user s) - 1"
    using count [of "su_user s"] by simp
  then have users: "users_of (closed_rec p (su_user s) ts) u = users_of ts u - (if u = su_user s then 1 else 0)" for u
    by (auto simp: closed_rec_def users_of_def)
  have conns: "ts_conns (closed_rec p (su_user s) ts) = removeAll p (ts_conns ts)"
      "ts_cancelled (closed_rec p (su_user s) ts) = ts_cancelled ts"
    by (simp_all add: closed_rec_def)
  have "int (length (removeAll p (ts_conns ts))) \<le> cf_StreamsPerTenant (hb_cfg h)"
  proof -
    have "length (removeAll p (ts_conns ts)) \<le> length (ts_conns ts)"
      by (simp add: removeAll_filter_not_eq)
    moreover have "int (length (ts_conns ts)) \<le> cf_StreamsPerTenant (hb_cfg h)"
      using wf by (simp add: rec_wf_def)
    ultimately show ?thesis
      by linarith
  qed
  moreover have "users_of ts u - (if u = su_user s then 1 else 0) \<le> cf_StreamsPerUser (hb_cfg h)" for u
  proof -
    have "users_of ts u \<le> cf_StreamsPerUser (hb_cfg h)"
      using wf unfolding rec_wf_def by blast
    then show ?thesis
      by auto
  qed
  moreover have "q \<in> set (removeAll p (ts_conns ts)) \<longleftrightarrow> open_of ?h tn q" for q
    using wf opn [of q] by (auto simp: rec_wf_def)
  moreover have "distinct (removeAll p (ts_conns ts))" "\<not> ts_cancelled ts"
    using wf by (simp_all add: rec_wf_def distinct_removeAll)
  ultimately show ?thesis
    unfolding rec_wf_def conns user users count by simp
qed

lemma Close_eq:
  assumes "tget (hb_subs h) p = Some s" "\<not> su_closed s" "tget (hb_tenants h) (su_tenant s) = Some t" "tget (hb_tsubs h) t = Some ts"
  shows "Close p h = (let h1 = h\<lparr>hb_subs := tput p (s\<lparr>su_closed := True\<rparr>) (hb_subs h)\<rparr>; ts1 = closed_rec p (su_user s) ts in
    if ts_conns ts1 = []
    then h1\<lparr>hb_tsubs := tput t (ts1\<lparr>ts_cancelled := True\<rparr>) (hb_tsubs h), hb_tenants := tdel (su_tenant s) (hb_tenants h)\<rparr>
    else h1\<lparr>hb_tsubs := tput t ts1 (hb_tsubs h)\<rparr>)"
  using assms by (simp add: Close_def closed_rec_def Let_def)

lemma hub_frame:
  assumes "hb_subs h' = hb_subs h" and "hb_cfg h' = hb_cfg h"
  shows "is_user h' = is_user h" "open_of h' = open_of h" "rec_wf h' = rec_wf h"
proof -
  show u: "is_user h' = is_user h" and o: "open_of h' = open_of h"
    by (simp_all add: is_user_def open_of_def fun_eq_iff assms)
  show "rec_wf h' = rec_wf h"
    by (intro ext) (simp only: rec_wf_def u o assms)
qed

lemma hub_wfI:
  assumes "0 < cf_StreamsPerUser (hb_cfg h)" "0 < cf_StreamsPerTenant (hb_cfg h)"
    "\<And>tn t. tget (hb_tenants h) tn = Some t \<Longrightarrow> t < hb_next h \<and>
      (\<exists>ts. tget (hb_tsubs h) t = Some ts \<and> ts_conns ts \<noteq> [] \<and> rec_wf h tn ts)"
    "\<And>tn p. open_of h tn p \<Longrightarrow> tget (hb_tenants h) tn \<noteq> None"
    "\<And>t ts. tget (hb_tsubs h) t = Some ts \<Longrightarrow> t < hb_next h \<and> (ts_conns ts = [] \<or> (\<exists>tn. tget (hb_tenants h) tn = Some t))"
    "\<And>p. tget (hb_subs h) p \<noteq> None \<Longrightarrow> p < hb_next h"
  shows "hub_wf h"
  using assms unfolding hub_wf_def by blast

text \<open>Replacing the record of one tenant: the tables stay well-formed if the new record is, or is empty and
  the tenant is dropped.\<close>

lemma hub_wf_replace:
  assumes wf: "hub_wf h" and h': "hb_cfg h' = hb_cfg h" "hb_next h' = hb_next h" "hb_subs h' = tput p s' (hb_subs h)"
    and p: "tget (hb_subs h) p = Some s" "su_tenant s = tn" "su_user s' = su_user s" "su_tenant s' = tn"
    and t: "tget (hb_tenants h) tn = Some t" and tsubs: "hb_tsubs h' = tput t ts (hb_tsubs h)"
    and tn: "if ts_conns ts = [] then hb_tenants h' = tdel tn (hb_tenants h) \<and> (\<forall>q. \<not> open_of h' tn q)
      else hb_tenants h' = hb_tenants h \<and> rec_wf h' tn ts"
  shows "hub_wf h'"
proof (rule hub_wfI)
  have user: "is_user h' = is_user h"
    using h'(3) p by (auto simp: is_user_def fun_eq_iff)
  have opn: "open_of h' tn' = open_of h tn'" if "tn' \<noteq> tn" for tn'
    using h'(3) p that by (auto simp: open_of_def fun_eq_iff)
  show "0 < cf_StreamsPerUser (hb_cfg h')" "0 < cf_StreamsPerTenant (hb_cfg h')"
    using hub_wfD(1,2) [OF wf] h'(1) by simp_all
  fix tn' t'
  assume a: "tget (hb_tenants h') tn' = Some t'"
  then have a': "tget (hb_tenants h) tn' = Some t'"
    using tn by (auto split: if_splits)
  show "t' < hb_next h' \<and> (\<exists>ts. tget (hb_tsubs h') t' = Some ts \<and> ts_conns ts \<noteq> [] \<and> rec_wf h' tn' ts)"
  proof (cases "tn' = tn")
    case True
    then have "ts_conns ts \<noteq> []" "rec_wf h' tn ts" "t' = t"
      using a a' tn t by (auto split: if_splits)
    then show ?thesis
      using True tsubs hub_wfD(3) [OF wf t] h'(2) by simp
  next
    case False
    then have "t' \<noteq> t"
      using tenants_inj [OF wf a'] t by blast
    moreover obtain ts' where "tget (hb_tsubs h) t' = Some ts'" "ts_conns ts' \<noteq> []" "rec_wf h tn' ts'"
      using hub_wfD(3) [OF wf a'] by blast
    moreover have "rec_wf h' tn' ts'"
      using calculation(4) opn [OF False] user h'(1) by (auto intro: rec_wf_cong)
    ultimately show ?thesis
      using tsubs hub_wfD(3) [OF wf a'] h'(2) by simp
  qed
next
  fix tn' q
  assume q: "open_of h' tn' q"
  show "tget (hb_tenants h') tn' \<noteq> None"
  proof (cases "tn' = tn")
    case True
    then show ?thesis
      using q tn t by (auto split: if_splits)
  next
    case False
    then have "open_of h tn' q"
      using q h'(3) p by (auto simp: open_of_def split: if_splits)
    then show ?thesis
      using hub_wfD(4) [OF wf, of tn' q] tn False by (auto split: if_splits)
  qed
next
  fix t' ts'
  assume a: "tget (hb_tsubs h') t' = Some ts'"
  show "t' < hb_next h' \<and> (ts_conns ts' = [] \<or> (\<exists>tn. tget (hb_tenants h') tn = Some t'))"
  proof (cases "t' = t")
    case True
    then show ?thesis
      using a tsubs tn t hub_wfD(3) [OF wf t] h'(2) by (auto split: if_splits)
  next
    case False
    then have old: "tget (hb_tsubs h) t' = Some ts'"
      using a tsubs by simp
    have "\<exists>tn. tget (hb_tenants h') tn = Some t'" if k: "tget (hb_tenants h) k = Some t'" for k
    proof (intro exI)
      show "tget (hb_tenants h') k = Some t'"
        using k tn t False by (auto split: if_splits)
    qed
    then show ?thesis
      using hub_wfD(5) [OF wf old] h'(2) by auto
  qed
next
  fix q
  assume "tget (hb_subs h') q \<noteq> None"
  then show "q < hb_next h'"
    using hub_wfD(6) [OF wf, of q] h' p(1) hub_wfD(6) [OF wf, of p] by (auto split: if_splits)
qed

lemma Close_wf:
  assumes "hub_wf h"
  shows "hub_wf (Close p h)"
proof (cases "tget (hb_subs h) p")
  case (Some s)
  show ?thesis
  proof (cases "su_closed s")
    case False
    have "open_of h (su_tenant s) p"
      using Some False by (simp add: open_of_def)
    then obtain t where t: "tget (hb_tenants h) (su_tenant s) = Some t"
      using hub_wfD(4) [OF assms] by blast
    then obtain ts where ts: "tget (hb_tsubs h) t = Some ts" "rec_wf h (su_tenant s) ts"
      using hub_wfD(3) [OF assms t] by blast
    let ?h1 = "h\<lparr>hb_subs := tput p (s\<lparr>su_closed := True\<rparr>) (hb_subs h)\<rparr>" and ?ts = "closed_rec p (su_user s) ts"
    have rec: "rec_wf ?h1 (su_tenant s) ?ts"
      using closed_rec_wf [OF ts(2) Some refl False] .
    show ?thesis
    proof (cases "ts_conns ?ts = []")
      case True
      let ?h = "?h1\<lparr>hb_tsubs := tput t (?ts\<lparr>ts_cancelled := True\<rparr>) (hb_tsubs h), hb_tenants := tdel (su_tenant s) (hb_tenants h)\<rparr>"
      have "open_of ?h = open_of ?h1"
        by (rule hub_frame(2)) simp_all
      moreover have "\<not> open_of ?h1 (su_tenant s) q" for q
        using rec True by (simp add: rec_wf_def)
      ultimately have "hub_wf ?h"
        using True by (intro hub_wf_replace [OF assms _ _ _ Some refl _ _ t, where s' = "s\<lparr>su_closed := True\<rparr>" and ts = "?ts\<lparr>ts_cancelled := True\<rparr>"]) simp_all
      then show ?thesis
        using True by (simp add: Close_eq [OF Some False t ts(1)] Let_def)
    next
      case conns: False
      let ?h = "?h1\<lparr>hb_tsubs := tput t ?ts (hb_tsubs h)\<rparr>"
      have "rec_wf ?h = rec_wf ?h1"
        by (rule hub_frame(3)) simp_all
      then have "hub_wf ?h"
        using conns rec by (intro hub_wf_replace [OF assms _ _ _ Some refl _ _ t, where s' = "s\<lparr>su_closed := True\<rparr>" and ts = ?ts]) simp_all
      then show ?thesis
        using conns by (simp add: Close_eq [OF Some False t ts(1)] Let_def)
    qed
  qed (use assms Some in \<open>simp add: Close_def\<close>)
qed (use assms in \<open>simp add: Close_def\<close>)

text \<open>A new subscription in a record, and the record it joins: that of the tenant or an empty one.\<close>

definition joined_rec :: "nat \<Rightarrow> string \<Rightarrow> tenantSub \<Rightarrow> tenantSub" where
  "joined_rec p u ts = ts\<lparr>ts_conns := ts_conns ts @ [p], ts_byUser := tput u (users_of ts u + 1) (ts_byUser ts)\<rparr>"

abbreviation new_sub :: "string \<Rightarrow> string \<Rightarrow> Subscription" where
  "new_sub tn u \<equiv> \<lparr>su_tenant = tn, su_user = u, su_ch = [], su_last = [], su_closed = False\<rparr>"

lemma joined_rec_wf:
  assumes wf: "rec_wf h tn ts" and new: "tget (hb_subs h) p = None"
    and room: "users_of ts u < cf_StreamsPerUser (hb_cfg h)" "int (length (ts_conns ts)) < cf_StreamsPerTenant (hb_cfg h)"
  shows "rec_wf (h\<lparr>hb_subs := tput p (new_sub tn u) (hb_subs h)\<rparr>) tn (joined_rec p u ts)"
proof -
  let ?h = "h\<lparr>hb_subs := tput p (new_sub tn u) (hb_subs h)\<rparr>"
  have fresh: "p \<notin> set (ts_conns ts)"
    using wf new by (simp add: rec_wf_def open_of_def)
  have user: "is_user ?h v q = (if q = p then v = u else is_user h v q)" for v q
    by (auto simp: is_user_def)
  have "filter (is_user ?h v) (ts_conns ts) = filter (is_user h v) (ts_conns ts)" for v
    using fresh user by (intro filter_cong refl) auto
  then have count: "int (length (filter (is_user ?h v) (ts_conns ts @ [p]))) = users_of ts v + (if v = u then 1 else 0)" for v
    using wf user [of v p] by (simp add: rec_wf_def)
  have users: "users_of (joined_rec p u ts) v = users_of ts v + (if v = u then 1 else 0)" for v
    by (simp add: joined_rec_def users_of_def)
  have conns: "ts_conns (joined_rec p u ts) = ts_conns ts @ [p]" "ts_cancelled (joined_rec p u ts) = ts_cancelled ts"
    by (simp_all add: joined_rec_def)
  have "users_of ts v + (if v = u then 1 else 0) \<le> cf_StreamsPerUser (hb_cfg h)" for v
  proof -
    have "users_of ts v \<le> cf_StreamsPerUser (hb_cfg h)"
      using wf unfolding rec_wf_def by blast
    then show ?thesis
      using room(1) by simp
  qed
  moreover have "q \<in> set (ts_conns ts @ [p]) \<longleftrightarrow> open_of ?h tn q" for q
    using wf new by (auto simp: rec_wf_def open_of_def)
  moreover have "distinct (ts_conns ts @ [p])" "\<not> ts_cancelled ts" "int (length (ts_conns ts @ [p])) \<le> cf_StreamsPerTenant (hb_cfg h)"
    using wf fresh room(2) by (simp_all add: rec_wf_def)
  ultimately show ?thesis
    unfolding rec_wf_def conns users count by simp
qed

lemma tput_tput [simp]: "tput k v (tput k w t) = tput k v t"
  unfolding tput_def by (induction t) auto

text \<open>What opening a subscription changes: the new subscription \<open>p\<close> joins the record \<open>t\<close> of its tenant,
  which is the one the tenant had or a new one.\<close>

definition opened :: "Hub \<Rightarrow> string \<Rightarrow> string \<Rightarrow> nat \<Rightarrow> nat \<Rightarrow> tenantSub \<Rightarrow> Hub \<Rightarrow> bool" where
  "opened h tn u p t ts h' = (hb_cfg h' = hb_cfg h \<and> hb_subs h' = tput p (new_sub tn u) (hb_subs h) \<and>
     hb_next h \<le> p \<and> p < hb_next h' \<and> t < hb_next h' \<and> hb_tsubs h' = tput t ts (hb_tsubs h) \<and> ts_conns ts \<noteq> [] \<and>
     (\<forall>k. tget (hb_tenants h') k = (if k = tn then Some t else tget (hb_tenants h) k)) \<and>
     (tget (hb_tenants h) tn = Some t \<or> tget (hb_tenants h) tn = None \<and> hb_next h \<le> t) \<and> rec_wf h' tn ts)"

lemma hub_wf_opened:
  assumes wf: "hub_wf h" and o: "opened h tn u p t ts h'"
  shows "hub_wf h'"
proof (rule hub_wfI)
  note o = o [unfolded opened_def]
  have new: "tget (hb_subs h) p = None"
    using hub_wfD(6) [OF wf, of p] o by force
  have le: "hb_next h \<le> hb_next h'"
    using o by linarith
  have opn: "open_of h' k q \<longleftrightarrow> (if q = p then k = tn else open_of h k q)" for k q
    using o by (auto simp: open_of_def)
  have other: "t' \<noteq> t" if "tget (hb_tenants h) k = Some t'" "k \<noteq> tn" for k t'
    using o that hub_wfD(3) [OF wf that(1)] tenants_inj [OF wf that(1), of tn] by auto
  show "0 < cf_StreamsPerUser (hb_cfg h')" "0 < cf_StreamsPerTenant (hb_cfg h')"
    using hub_wfD(1,2) [OF wf] o by simp_all
  fix k t'
  assume a: "tget (hb_tenants h') k = Some t'"
  show "t' < hb_next h' \<and> (\<exists>ts. tget (hb_tsubs h') t' = Some ts \<and> ts_conns ts \<noteq> [] \<and> rec_wf h' k ts)"
  proof (cases "k = tn")
    case True
    then show ?thesis
      using a o by auto
  next
    case False
    then have a': "tget (hb_tenants h) k = Some t'"
      using a o by simp
    then obtain ts' where ts': "tget (hb_tsubs h) t' = Some ts'" "ts_conns ts' \<noteq> []" "rec_wf h k ts'"
      using hub_wfD(3) [OF wf a'] by blast
    have mem: "q \<noteq> p" if "q \<in> set (ts_conns ts')" for q
      using ts'(3) that new by (auto simp: rec_wf_def open_of_def)
    have "open_of h' k = open_of h k"
      using False opn new by (auto simp: fun_eq_iff open_of_def)
    moreover have "(\<lambda>u. is_user h' u q) = (\<lambda>u. is_user h u q)" if "q \<in> set (ts_conns ts')" for q
      using mem [OF that] o by (simp add: is_user_def)
    ultimately have "rec_wf h' k ts'"
      using rec_wf_cong [OF ts'(3), of h'] o by simp
    moreover have "t' \<noteq> t"
      using other [OF a' False] .
    ultimately show ?thesis
      using ts' o hub_wfD(3) [OF wf a'] le by simp
  qed
next
  note o = o [unfolded opened_def]
  fix k q
  assume "open_of h' k q"
  then show "tget (hb_tenants h') k \<noteq> None"
    using o hub_wfD(4) [OF wf, of k q] by (auto simp: open_of_def split: if_splits)
next
  note o = o [unfolded opened_def]
  fix t' ts'
  assume a: "tget (hb_tsubs h') t' = Some ts'"
  show "t' < hb_next h' \<and> (ts_conns ts' = [] \<or> (\<exists>tn. tget (hb_tenants h') tn = Some t'))"
  proof (cases "t' = t")
    case False
    then have old: "tget (hb_tsubs h) t' = Some ts'"
      using a o by simp
    have "tget (hb_tenants h') k = Some t'" if "tget (hb_tenants h) k = Some t'" for k
      using o that False by auto
    then have "ts_conns ts' = [] \<or> (\<exists>tn. tget (hb_tenants h') tn = Some t')"
      using hub_wfD(5) [OF wf old] by blast
    moreover have "t' < hb_next h'"
      using hub_wfD(5) [OF wf old] o by linarith
    ultimately show ?thesis
      by blast
  qed (use o in auto)
next
  note o = o [unfolded opened_def]
  fix q
  assume "tget (hb_subs h') q \<noteq> None"
  then show "q < hb_next h'"
    using o hub_wfD(6) [OF wf, of q] by (auto split: if_splits)
qed

lemma add_conn_cases:
  assumes "tget (hb_tsubs h) t = Some ts" and "add_conn t tn u h = (r, h')"
  obtains (full) "r = Inl ErrTooMany" "h' = h"
      "users_of ts u \<ge> cf_StreamsPerUser (hb_cfg h) \<or> int (length (ts_conns ts)) \<ge> cf_StreamsPerTenant (hb_cfg h)"
    | (room) "r = Inr (hb_next h)" "h' = h\<lparr>hb_subs := tput (hb_next h) (new_sub tn u) (hb_subs h),
        hb_tsubs := tput t (joined_rec (hb_next h) u ts) (hb_tsubs h), hb_next := hb_next h + 1\<rparr>"
      "users_of ts u < cf_StreamsPerUser (hb_cfg h)" "int (length (ts_conns ts)) < cf_StreamsPerTenant (hb_cfg h)"
proof (cases "users_of ts u \<ge> cf_StreamsPerUser (hb_cfg h) \<or> int (length (ts_conns ts)) \<ge> cf_StreamsPerTenant (hb_cfg h)")
  case True
  then show ?thesis
    using assms by (intro full) (simp_all add: add_conn_def)
next
  case False
  then show ?thesis
    using assms by (intro room) (simp_all add: add_conn_def joined_rec_def)
qed

lemma open_sub_cases:
  assumes wf: "hub_wf h" and run: "open_sub cl tn u c h = (r, start, h')"
  obtains (refused) err where "r = Inl err" "start = None" "h' = h"
    | (new) t ts a where "tget (hb_tenants h) tn = None" "start = Some (t, a)" "r = Inr (t + 1)" "t = hb_next h"
        "opened h tn u (t + 1) t ts h'"
    | (old) t ts p where "tget (hb_tenants h) tn = Some t" "start = None" "r = Inr p" "opened h tn u p t ts h'"
proof (cases "hb_done h")
  case False
  show ?thesis
  proof (cases "tget (hb_tenants h) tn")
    case None
    let ?n = "hb_next h" and ?ts = "\<lparr>ts_conns = [], ts_byUser = [], ts_cancelled = False\<rparr>"
    let ?h1 = "h\<lparr>hb_tsubs := tput ?n ?ts (hb_tsubs h), hb_tenants := tput tn ?n (hb_tenants h), hb_next := ?n + 1\<rparr>"
    have unused: "tget (hb_subs ?h1) (?n + 1) = None"
      using hub_wfD(6) [OF wf, of "?n + 1"] by force
    have "\<not> open_of h tn q" for q
      using hub_wfD(4) [OF wf, of tn q] None by auto
    moreover have "open_of ?h1 = open_of h"
      by (rule hub_frame(2)) simp_all
    ultimately have empty: "rec_wf ?h1 tn ?ts"
      using hub_wfD(1,2) [OF wf] by (simp add: rec_wf_def users_of_def)
    show ?thesis
    proof (cases "cl_XLast cl (Key tn) c")
      case (Inl err)
      then show ?thesis
        using run False None by (intro refused [of err]) (simp_all add: open_sub_def tenant_record_def)
    next
      case (Inr a)
      let ?h2 = "?h1\<lparr>hb_subs := tput (?n + 1) (new_sub tn u) (hb_subs h), hb_tsubs := tput ?n (joined_rec (?n + 1) u ?ts) (hb_tsubs ?h1),
        hb_next := ?n + 2\<rparr>"
      have add: "add_conn ?n tn u ?h1 = (Inr (?n + 1), ?h2)"
        using hub_wfD(1,2) [OF wf] by (simp add: add_conn_def joined_rec_def users_of_def)
      have "rec_wf (?h1\<lparr>hb_subs := tput (?n + 1) (new_sub tn u) (hb_subs ?h1)\<rparr>) tn (joined_rec (?n + 1) u ?ts)"
        using hub_wfD(1,2) [OF wf] by (intro joined_rec_wf [OF empty unused]) (simp_all add: users_of_def)
      moreover have "rec_wf ?h2 = rec_wf (?h1\<lparr>hb_subs := tput (?n + 1) (new_sub tn u) (hb_subs ?h1)\<rparr>)"
        by (rule hub_frame(3)) simp_all
      ultimately have "opened h tn u (?n + 1) ?n (joined_rec (?n + 1) u ?ts) ?h2"
        using None by (simp add: opened_def joined_rec_def)
      moreover have "r = Inr (?n + 1)" "h' = ?h2" "start = Some (?n, if a = [] then ''0-0'' else a)"
        using run False None Inr add by (simp_all add: open_sub_def tenant_record_def)
      ultimately show ?thesis
        using None by (intro new [of ?n]) simp_all
    qed
  next
    case (Some t)
    obtain ts where ts: "tget (hb_tsubs h) t = Some ts" "ts_conns ts \<noteq> []" "rec_wf h tn ts"
      using hub_wfD(3) [OF wf Some] by blast
    obtain r' h2 where add: "add_conn t tn u h = (r', h2)"
      by fastforce
    have res: "r = r'" "h' = h2" "start = None"
      using run False Some add by (simp_all add: open_sub_def tenant_record_def)
    show ?thesis
      using ts(1) add
    proof (cases rule: add_conn_cases)
      case full
      then show ?thesis
        using res by (intro refused [of ErrTooMany]) simp_all
    next
      case room
      have unused: "tget (hb_subs h) (hb_next h) = None"
        using hub_wfD(6) [OF wf, of "hb_next h"] by force
      have "rec_wf h2 = rec_wf (h\<lparr>hb_subs := tput (hb_next h) (new_sub tn u) (hb_subs h)\<rparr>)"
        using room(2) by (intro hub_frame(3)) simp_all
      then have "rec_wf h2 tn (joined_rec (hb_next h) u ts)"
        using joined_rec_wf [OF ts(3) unused room(3,4)] by simp
      then have "opened h tn u (hb_next h) t (joined_rec (hb_next h) u ts) h2"
        using Some hub_wfD(3) [OF wf Some] room(2) by (auto simp: opened_def joined_rec_def)
      then show ?thesis
        using Some res room(1) by (intro old) simp_all
    qed
  qed
next
  case True
  then show ?thesis
    using run by (intro refused [of ErrHubClosed]) (simp_all add: open_sub_def)
qed

section \<open>What a subscriber sees\<close>

text \<open>An event that belongs to a subscription: the message of an entry of its tenant's stream addressed to its user,
  or one without identifier, which the hub makes itself.\<close>

definition own :: "(string \<Rightarrow> Entry list) \<Rightarrow> Subscription \<Rightarrow> StreamEvent \<Rightarrow> bool" where
  "own log s ev = (se_ID ev = [] \<or>
     (\<exists>en \<in> set (log (Key (su_tenant s))). ev = event_of en \<and> targets (field en ''to'') (su_user s)))"

definition ids :: "StreamEvent list \<Rightarrow> string list" where
  "ids evs = filter (\<lambda>i. i \<noteq> []) (map se_ID evs)"

definition ordered :: "string \<Rightarrow> StreamEvent list \<Rightarrow> bool" where
  "ordered final evs = (sorted_wrt Less (ids evs) \<and> (\<forall>i \<in> set (ids evs). i = final \<or> final \<noteq> [] \<and> Less i final))"

definition sub_ok :: "(string \<Rightarrow> Entry list) \<Rightarrow> StreamEvent list \<Rightarrow> Subscription \<Rightarrow> bool" where
  "sub_ok log g s = (ordered (su_last s) (g @ su_ch s) \<and> (\<forall>ev \<in> set (g @ su_ch s). own log s ev))"

definition due :: "(string \<Rightarrow> Entry list) \<Rightarrow> Hub \<Rightarrow> nat \<Rightarrow> StreamEvent \<Rightarrow> bool" where
  "due log h p ev = (\<exists>s. tget (hb_subs h) p = Some s \<and> own log s ev)"

definition loop_ok :: "(string \<Rightarrow> Entry list) \<Rightarrow> Hub \<Rightarrow> nat \<Rightarrow> Loop \<Rightarrow> bool" where
  "loop_ok log h t l = (t < hb_next h \<and> set (lp_pending l) \<subseteq> set (log (Key (lp_tenant l))) \<and>
     (\<forall>p \<in> set (lp_todo l). due log h p (lp_event l)) \<and> (\<forall>tn. tget (hb_tenants h) tn = Some t \<longrightarrow> tn = lp_tenant l))"

definition sys_inv :: "('c \<Rightarrow> string \<Rightarrow> Entry list) \<Rightarrow> Config \<Rightarrow> 'c Sys \<Rightarrow> bool" where
  "sys_inv content cfg s = (hub_wf (sy_hub s) \<and> hb_cfg (sy_hub s) = hb_cfg (NewHub cfg) \<and>
     (\<forall>k. set (content (sy_client s) k) \<subseteq> set (sy_log s k)) \<and>
     (\<forall>p. tget (sy_got s) p \<noteq> None \<longrightarrow> tget (hb_subs (sy_hub s)) p \<noteq> None) \<and>
     (\<forall>p sub. tget (hb_subs (sy_hub s)) p = Some sub \<longrightarrow> sub_ok (sy_log s) (got s p) sub) \<and>
     (\<forall>p evs. tget (sy_replay s) p = Some evs \<longrightarrow> (\<forall>ev \<in> set evs. due (sy_log s) (sy_hub s) p ev)) \<and>
     (\<forall>t l. tget (sy_loops s) t = Some l \<longrightarrow> loop_ok (sy_log s) (sy_hub s) t l))"

text \<open>What every step of the hub keeps: pointers stay, with their tenant and user, and a record never changes
  its tenant.\<close>

definition hub_ext :: "Hub \<Rightarrow> Hub \<Rightarrow> bool" where
  "hub_ext h h' = (hub_wf h' \<and> hb_cfg h' = hb_cfg h \<and> hb_next h \<le> hb_next h' \<and>
     (\<forall>p s. tget (hb_subs h) p = Some s \<longrightarrow>
        (\<exists>s'. tget (hb_subs h') p = Some s' \<and> su_tenant s' = su_tenant s \<and> su_user s' = su_user s)) \<and>
     (\<forall>tn t. tget (hb_tenants h') tn = Some t \<longrightarrow> t < hb_next h \<longrightarrow> tget (hb_tenants h) tn = Some t))"

lemma own_cong: "su_tenant s' = su_tenant s \<Longrightarrow> su_user s' = su_user s \<Longrightarrow> own log s' = own log s"
  by (simp add: own_def fun_eq_iff)

lemma own_mono: "(\<And>k. set (log k) \<subseteq> set (log' k)) \<Longrightarrow> own log s ev \<Longrightarrow> own log' s ev"
  unfolding own_def by blast

lemma due_ext: "hub_ext h h' \<Longrightarrow> due log h p ev \<Longrightarrow> due log h' p ev"
  unfolding due_def hub_ext_def using own_cong by metis

lemma due_mono: "(\<And>k. set (log k) \<subseteq> set (log' k)) \<Longrightarrow> due log h p ev \<Longrightarrow> due log' h p ev"
  unfolding due_def using own_mono by blast

lemma loop_ok_ext: "hub_ext h h' \<Longrightarrow> loop_ok log h t l \<Longrightarrow> loop_ok log h' t l"
  using due_ext [of h h' log] unfolding loop_ok_def hub_ext_def by (meson less_le_trans)

lemma loop_ok_mono:
  assumes "\<And>k. set (log k) \<subseteq> set (log' k)" and "loop_ok log h t l"
  shows "loop_ok log' h t l"
  using assms due_mono [of log log'] unfolding loop_ok_def by blast

lemma sub_ok_mono: "(\<And>k. set (log k) \<subseteq> set (log' k)) \<Longrightarrow> sub_ok log g s \<Longrightarrow> sub_ok log' g s"
  using own_mono [of log log'] unfolding sub_ok_def by blast

lemma ordered_snoc:
  assumes "ordered final evs" and "se_ID ev \<noteq> []" and "final = [] \<or> Less final (se_ID ev)"
  shows "ordered (se_ID ev) (evs @ [ev])" and "ordered (se_ID ev) evs"
proof -
  have less: "Less i (se_ID ev)" if "i \<in> set (ids evs)" for i
  proof -
    have "i \<noteq> []"
      using that by (simp add: ids_def)
    moreover have "i = final \<or> final \<noteq> [] \<and> Less i final"
      using assms(1) that by (simp add: ordered_def)
    ultimately show ?thesis
      using assms(3) Less_trans [of i final "se_ID ev"] by blast
  qed
  then show "ordered (se_ID ev) evs"
    using assms(1,2) by (auto simp: ordered_def)
  have "ids (evs @ [ev]) = ids evs @ [se_ID ev]"
    using assms(2) by (simp add: ids_def)
  then show "ordered (se_ID ev) (evs @ [ev])"
    using assms(1,2) less by (auto simp: ordered_def sorted_wrt_append)
qed

lemma push_ok:
  assumes ok: "sub_ok log g s" and ev: "own log s ev"
  shows "sub_ok log g (snd (push ev s))"
proof -
  have own: "own log (snd (push ev s)) = own log s"
    by (rule own_cong) (rule push_same)+
  have ch: "su_ch (snd (push ev s)) = su_ch s \<or> su_ch (snd (push ev s)) = su_ch s @ [ev]"
    by (simp add: push_def Let_def)
  have "ordered (su_last (snd (push ev s))) (g @ su_ch (snd (push ev s)))"
  proof (cases "su_closed s \<or> se_ID ev \<noteq> [] \<and> su_last s \<noteq> [] \<and> \<not> Less (su_last s) (se_ID ev)")
    case False
    then show ?thesis
    proof (cases "se_ID ev = []")
      case True
      then have "ids (g @ su_ch s @ [ev]) = ids (g @ su_ch s)"
        by (simp add: ids_def)
      then show ?thesis
        using ok True False by (auto simp: push_def Let_def sub_ok_def ordered_def)
    next
      case id: False
      then show ?thesis
        using ordered_snoc [of "su_last s" "g @ su_ch s" ev] ok False by (auto simp: push_def Let_def sub_ok_def)
    qed
  qed (use ok in \<open>auto simp: push_def sub_ok_def\<close>)
  moreover have "\<forall>x \<in> set (g @ su_ch (snd (push ev s))). own log s x"
    using ok ev ch by (auto simp: sub_ok_def)
  ultimately show ?thesis
    by (simp add: sub_ok_def own)
qed

lemma hub_ext_subs:
  assumes "hub_wf h" "tget (hb_subs h) p = Some s" "su_tenant s' = su_tenant s" "su_user s' = su_user s" "su_closed s' = su_closed s"
  shows "hub_ext h (h\<lparr>hb_subs := tput p s' (hb_subs h)\<rparr>)"
  using hub_wf_same_sub [OF assms] assms by (simp add: hub_ext_def)

lemma hub_ext_push: "hub_wf h \<Longrightarrow> hub_ext h (snd (push_at ev p h))"
proof (cases "tget (hb_subs h) p")
  case (Some s)
  assume "hub_wf h"
  then have "hub_ext h (h\<lparr>hb_subs := tput p (snd (push ev s)) (hb_subs h)\<rparr>)"
    using Some by (rule hub_ext_subs) (simp_all add: push_same)
  then show ?thesis
    by (cases "push ev s") (simp add: push_at_def Some)
qed (simp add: push_at_def hub_ext_def)

lemma Close_frame: "hb_cfg (Close p h) = hb_cfg h" "hb_next (Close p h) = hb_next h"
  "tget (hb_tenants (Close p h)) tn = Some t \<Longrightarrow> tget (hb_tenants h) tn = Some t"
  "tget (hb_subs (Close p h)) q = (case tget (hb_subs h) q of None \<Rightarrow> None | Some s \<Rightarrow> Some (if q = p then s\<lparr>su_closed := True\<rparr> else s))"
  by (auto simp: Close_def Let_def split: option.splits if_splits)

lemma hub_ext_Close: "hub_wf h \<Longrightarrow> hub_ext h (Close p h)"
  using Close_wf [of h p] Close_frame(3) [of p h] by (auto simp: hub_ext_def Close_frame(1,2,4))

lemma hub_ext_opened:
  assumes wf: "hub_wf h" and o: "opened h tn u p t ts h'"
  shows "hub_ext h h'"
proof -
  note o' = o [unfolded opened_def]
  have "tget (hb_tenants h) k = Some t'" if "tget (hb_tenants h') k = Some t'" "t' < hb_next h" for k t'
    using o' that by (cases "k = tn") auto
  moreover have "tget (hb_subs h') q = Some s" if "tget (hb_subs h) q = Some s" for q s
    using o' that hub_wfD(6) [OF wf, of q] by auto
  ultimately show ?thesis
    using hub_wf_opened [OF wf o] o' unfolding hub_ext_def by auto
qed

lemma hub_ext_refl: "hub_wf h \<Longrightarrow> hub_ext h h"
  by (simp add: hub_ext_def)

lemma sys_invD:
  assumes "sys_inv content cfg s"
  shows "hub_wf (sy_hub s)" "hb_cfg (sy_hub s) = hb_cfg (NewHub cfg)"
    "\<And>k. set (content (sy_client s) k) \<subseteq> set (sy_log s k)"
    "\<And>p. tget (sy_got s) p \<noteq> None \<Longrightarrow> tget (hb_subs (sy_hub s)) p \<noteq> None"
    "\<And>p sub. tget (hb_subs (sy_hub s)) p = Some sub \<Longrightarrow> sub_ok (sy_log s) (got s p) sub"
    "\<And>p evs ev. tget (sy_replay s) p = Some evs \<Longrightarrow> ev \<in> set evs \<Longrightarrow> due (sy_log s) (sy_hub s) p ev"
    "\<And>t l. tget (sy_loops s) t = Some l \<Longrightarrow> loop_ok (sy_log s) (sy_hub s) t l"
  using assms unfolding sys_inv_def by blast+

text \<open>The invariant after a step, from what the step changes.\<close>

lemma sys_inv_step:
  assumes inv: "sys_inv content cfg s" and ext: "hub_ext (sy_hub s) (sy_hub s')"
    and log: "\<And>k. set (sy_log s k) \<subseteq> set (sy_log s' k)"
    and content: "\<And>k. set (content (sy_client s') k) \<subseteq> set (sy_log s' k)"
    and got: "\<And>p. tget (sy_got s') p \<noteq> None \<Longrightarrow> tget (sy_got s) p \<noteq> None \<or> tget (hb_subs (sy_hub s')) p \<noteq> None"
    and subs: "\<And>p sub. tget (hb_subs (sy_hub s')) p = Some sub \<Longrightarrow>
      tget (hb_subs (sy_hub s)) p = Some sub \<and> got s' p = got s p \<or> sub_ok (sy_log s') (got s' p) sub"
    and replay: "\<And>p evs. tget (sy_replay s') p = Some evs \<Longrightarrow>
      tget (sy_replay s) p = Some evs \<or> (\<forall>ev \<in> set evs. due (sy_log s') (sy_hub s') p ev)"
    and loops: "\<And>t l. tget (sy_loops s') t = Some l \<Longrightarrow>
      tget (sy_loops s) t = Some l \<or> loop_ok (sy_log s') (sy_hub s') t l"
  shows "sys_inv content cfg s'"
proof -
  note old = sys_invD [OF inv]
  have "hub_wf (sy_hub s')" "hb_cfg (sy_hub s') = hb_cfg (NewHub cfg)"
    using ext old(2) by (simp_all add: hub_ext_def)
  moreover have "tget (hb_subs (sy_hub s')) p \<noteq> None" if "tget (sy_got s') p \<noteq> None" for p
    using got [OF that] old(4) [of p] ext unfolding hub_ext_def by blast
  moreover have "sub_ok (sy_log s') (got s' p) sub" if "tget (hb_subs (sy_hub s')) p = Some sub" for p sub
    using subs [OF that] old(5) [of p sub] sub_ok_mono [of "sy_log s" "sy_log s'"] log by auto
  moreover have "due (sy_log s') (sy_hub s') p ev" if "tget (sy_replay s') p = Some evs" "ev \<in> set evs" for p evs ev
    using replay [OF that(1)] that(2) old(6) [of p evs ev] due_ext [OF ext] due_mono [of "sy_log s" "sy_log s'", OF log] by blast
  moreover have "loop_ok (sy_log s') (sy_hub s') t l" if "tget (sy_loops s') t = Some l" for t l
    using loops [OF that] old(7) [of t l] loop_ok_ext [OF ext] loop_ok_mono [of "sy_log s" "sy_log s'", OF log] by blast
  ultimately show ?thesis
    using content unfolding sys_inv_def by blast
qed

lemma push_at_subs: "tget (hb_subs (snd (push_at ev p h))) q =
    (if q = p then map_option (\<lambda>s. snd (push ev s)) (tget (hb_subs h) p) else tget (hb_subs h) q)"
  by (cases "tget (hb_subs h) p") (auto simp: push_at_def split: prod.split)

lemma sub_ok_push_at:
  assumes "sub_ok log g s" "tget (hb_subs h) p = Some s" "due log h p ev" "tget (hb_subs (snd (push_at ev p h))) p = Some s'"
  shows "sub_ok log g s'"
  using assms push_ok [of log g s ev] by (auto simp: push_at_subs due_def)

lemma sub_ok_closed: "sub_ok log g (s\<lparr>su_closed := True\<rparr>) = sub_ok log g s"
  by (simp add: sub_ok_def own_def)

lemma recipients_due:
  assumes wf: "hub_wf h" and loop: "loop_ok log h t l" and en: "en \<in> set (lp_pending l)" and p: "p \<in> set (recipients t en h)"
  shows "due log h p (event_of en)"
proof -
  obtain ts where ts: "tget (hb_tsubs h) t = Some ts" "p \<in> set (ts_conns ts)"
    using p by (cases "tget (hb_tsubs h) t") (auto simp: recipients_def)
  obtain s where s: "tget (hb_subs h) p = Some s" "targets (field en ''to'') (su_user s)"
    using p ts(1) by (cases "tget (hb_subs h) p") (auto simp: recipients_def)
  obtain tn where tn: "tget (hb_tenants h) tn = Some t"
    using hub_wfD(5) [OF wf ts(1)] ts(2) by auto
  then have "rec_wf h tn ts"
    using hub_wfD(3) [OF wf tn] ts(1) by auto
  then have "su_tenant s = tn"
    using ts(2) s(1) by (auto simp: rec_wf_def open_of_def)
  moreover have "tn = lp_tenant l" "en \<in> set (log (Key (lp_tenant l)))"
    using loop tn en by (auto simp: loop_ok_def)
  ultimately show ?thesis
    using s by (auto simp: due_def own_def)
qed

lemma replay_own:
  assumes "\<And>es. cl_XRange cl (Key tn) lastID (cf_MaxLen cfg) c = Inr es \<Longrightarrow> set es \<subseteq> set (log (Key tn))"
    and "ev \<in> set (replay_events cl e cfg tn u lastID c)" and "su_tenant s = tn" "su_user s = u"
  shows "own log s ev"
proof (cases "cl_XRange cl (Key tn) lastID (cf_MaxLen cfg) c")
  case (Inl err)
  then show ?thesis
    using assms(2) by (auto simp: replay_events_def own_def reset_event_def split: prod.splits if_splits)
next
  case (Inr es)
  then show ?thesis
    using assms(1) [OF Inr] assms(2-) by (auto simp: replay_events_def own_def reset_event_def split: prod.splits if_splits)
qed

section \<open>Every step keeps the invariant\<close>

context stream_client
begin

lemma inv_append:
  assumes inv: "sys_inv content cfg s" and add: "cl_XAdd cl e key fs maxLen (sy_client s) = (Inr i, c')"
  shows "sys_inv content cfg (s\<lparr>sy_client := c', sy_log := (sy_log s)(key := sy_log s key @ [\<lparr>en_ID = i, en_Fields = fs\<rparr>])\<rparr>)"
proof (rule sys_inv_step [OF inv])
  fix k
  show "set (content (sy_client (s\<lparr>sy_client := c', sy_log := (sy_log s)(key := sy_log s key @ [\<lparr>en_ID = i, en_Fields = fs\<rparr>])\<rparr>)) k)
    \<subseteq> set (sy_log (s\<lparr>sy_client := c', sy_log := (sy_log s)(key := sy_log s key @ [\<lparr>en_ID = i, en_Fields = fs\<rparr>])\<rparr>) k)"
    using add_stored [OF add, of k] sys_invD(3) [OF inv, of k] by auto
qed (auto simp: got_def hub_ext_refl sys_invD(1) [OF inv])

lemma inv_trim:
  assumes inv: "sys_inv content cfg s" and trim: "cl_XTrimMinID cl key i (sy_client s) = (r, c')"
  shows "sys_inv content cfg (s\<lparr>sy_client := c'\<rparr>)"
proof (rule sys_inv_step [OF inv])
  show "set (content (sy_client (s\<lparr>sy_client := c'\<rparr>)) k) \<subseteq> set (sy_log (s\<lparr>sy_client := c'\<rparr>) k)" for k
    using trim_content [OF trim, of k] sys_invD(3) [OF inv, of k] by auto
qed (auto simp: got_def hub_ext_refl sys_invD(1) [OF inv])

end

lemma inv_opened:
  assumes inv: "sys_inv content cfg s" and o: "opened (sy_hub s) tn u p t ts h'"
    and L: "L = sy_loops s \<or> tget (hb_tenants (sy_hub s)) tn = None \<and> t = hb_next (sy_hub s) \<and> L = tput t (new_loop tn a) (sy_loops s)"
  shows "sys_inv content cfg (s\<lparr>sy_hub := h', sy_loops := L, sy_asked := A\<rparr>)"
proof (rule sys_inv_step [OF inv])
  note wf = sys_invD(1) [OF inv] and o' = o [unfolded opened_def]
  show "hub_ext (sy_hub s) (sy_hub (s\<lparr>sy_hub := h', sy_loops := L, sy_asked := A\<rparr>))"
    using hub_ext_opened [OF wf o] by simp
  have "tget (sy_got s) p = None"
    using sys_invD(4) [OF inv, of p] hub_wfD(6) [OF wf, of p] o' by force
  then have "sub_ok (sy_log s) (got s p) (new_sub tn u)"
    by (simp add: sub_ok_def got_def ordered_def ids_def)
  then show "tget (hb_subs (sy_hub s)) q = Some sub \<and> got (s\<lparr>sy_hub := h', sy_loops := L, sy_asked := A\<rparr>) q = got s q \<or>
      sub_ok (sy_log (s\<lparr>sy_hub := h', sy_loops := L, sy_asked := A\<rparr>)) (got (s\<lparr>sy_hub := h', sy_loops := L, sy_asked := A\<rparr>) q) sub"
    if "tget (hb_subs (sy_hub (s\<lparr>sy_hub := h', sy_loops := L, sy_asked := A\<rparr>))) q = Some sub" for q sub
    using that o' by (auto simp: got_def split: if_splits)
  show "tget (sy_loops s) t' = Some l \<or> loop_ok (sy_log (s\<lparr>sy_hub := h', sy_loops := L, sy_asked := A\<rparr>))
      (sy_hub (s\<lparr>sy_hub := h', sy_loops := L, sy_asked := A\<rparr>)) t' l"
    if l: "tget (sy_loops (s\<lparr>sy_hub := h', sy_loops := L, sy_asked := A\<rparr>)) t' = Some l" for t' l
  proof (cases "L = sy_loops s \<or> t' \<noteq> t")
    case False
    then have new: "t = hb_next (sy_hub s)" "l = new_loop tn a" "t' = t"
      using L l by auto
    have "k = tn" if k: "tget (hb_tenants h') k = Some t" for k
    proof (rule ccontr)
      assume "k \<noteq> tn"
      then have "tget (hb_tenants (sy_hub s)) k = Some t"
        using k o' by simp
      then show False
        using hub_wfD(3) [OF wf, of k t] new(1) by simp
    qed
    then have "\<forall>k. tget (hb_tenants h') k = Some t \<longrightarrow> k = tn"
      by blast
    moreover have "t < hb_next h'"
      using o' by simp
    ultimately have "loop_ok (sy_log s) h' t (new_loop tn a)"
      unfolding loop_ok_def new_loop_def by simp
    then show ?thesis
      using new(2,3) by simp
  qed (use L l in auto)
qed (use sys_invD(3) [OF inv] in \<open>auto simp: got_def\<close>)

lemma inv_subscribe:
  assumes inv: "sys_inv content cfg s" and run: "open_sub cl tn u (sy_client s) (sy_hub s) = (r, start, h')"
  shows "sys_inv content cfg (s\<lparr>sy_hub := h',
    sy_loops := (case start of None \<Rightarrow> sy_loops s | Some (t, a) \<Rightarrow> tput t (new_loop tn a) (sy_loops s)), sy_asked := A\<rparr>)"
  using sys_invD(1) [OF inv] run
proof (cases rule: open_sub_cases)
  case refused
  have "sys_inv content cfg (s\<lparr>sy_hub := sy_hub s, sy_loops := sy_loops s, sy_asked := A\<rparr>)"
    using inv by (simp add: sys_inv_def got_def)
  then show ?thesis
    using refused by simp
next
  case (new t ts a)
  then show ?thesis
    using inv_opened [OF inv new(5), of "tput t (new_loop tn a) (sy_loops s)" a A] by simp
next
  case (old t ts p)
  then show ?thesis
    using inv_opened [OF inv old(4), of "sy_loops s" _ A] by simp
qed

lemma inv_loops:
  assumes inv: "sys_inv content cfg s" and l: "loop_ok (sy_log s) (sy_hub s) t l"
  shows "sys_inv content cfg (s\<lparr>sy_loops := tput t l (sy_loops s)\<rparr>)"
  using l sys_invD(3) [OF inv]
  by (intro sys_inv_step [OF inv]) (auto simp: got_def hub_ext_refl sys_invD(1) [OF inv] split: if_splits)

lemma inv_hub:
  assumes inv: "sys_inv content cfg s" and ext: "hub_ext (sy_hub s) h'"
    and subs: "\<And>p sub. tget (hb_subs h') p = Some sub \<Longrightarrow> sub_ok (sy_log s) (got s p) sub"
  shows "sys_inv content cfg (s\<lparr>sy_hub := h'\<rparr>)"
  using ext subs sys_invD(3) [OF inv] by (intro sys_inv_step [OF inv]) (auto simp: got_def)

lemma inv_push:
  assumes inv: "sys_inv content cfg s" and due: "due (sy_log s) (sy_hub s) p ev"
  shows "sys_inv content cfg (s\<lparr>sy_hub := snd (push_at ev p (sy_hub s))\<rparr>)"
proof (rule inv_hub [OF inv hub_ext_push [OF sys_invD(1) [OF inv]]])
  fix q sub
  assume sub: "tget (hb_subs (snd (push_at ev p (sy_hub s)))) q = Some sub"
  obtain s0 where s0: "tget (hb_subs (sy_hub s)) p = Some s0"
    using due by (auto simp: due_def)
  show "sub_ok (sy_log s) (got s q) sub"
  proof (cases "q = p")
    case True
    then show ?thesis
      using sub_ok_push_at [OF sys_invD(5) [OF inv s0] s0 due] sub by simp
  next
    case False
    then show ?thesis
      using sub sys_invD(5) [OF inv, of q sub] by (simp add: push_at_subs)
  qed
qed

lemma inv_Close:
  assumes inv: "sys_inv content cfg s"
  shows "sys_inv content cfg (s\<lparr>sy_hub := Close p (sy_hub s)\<rparr>)"
proof (rule inv_hub [OF inv hub_ext_Close [OF sys_invD(1) [OF inv]]])
  fix q sub
  assume "tget (hb_subs (Close p (sy_hub s))) q = Some sub"
  then obtain s0 where "tget (hb_subs (sy_hub s)) q = Some s0" "sub = s0 \<or> sub = s0\<lparr>su_closed := True\<rparr>"
    by (auto simp: Close_frame(4) split: option.splits if_splits)
  then show "sub_ok (sy_log s) (got s q) sub"
    using sys_invD(5) [OF inv, of q s0] by (auto simp: sub_ok_closed)
qed

lemma inv_receive:
  assumes inv: "sys_inv content cfg s" and sub: "tget (hb_subs (sy_hub s)) p = Some sub" "su_ch sub = ev # evs"
  shows "sys_inv content cfg (s\<lparr>sy_hub := (sy_hub s)\<lparr>hb_subs := tput p (sub\<lparr>su_ch := evs\<rparr>) (hb_subs (sy_hub s))\<rparr>,
    sy_got := tput p (got s p @ [ev]) (sy_got s)\<rparr>)" (is "sys_inv content cfg ?s")
proof (rule sys_inv_step [OF inv])
  show "hub_ext (sy_hub s) (sy_hub ?s)"
    using hub_ext_subs [OF sys_invD(1) [OF inv] sub(1), of "sub\<lparr>su_ch := evs\<rparr>"] by simp
  have "sub_ok (sy_log s) (got s p @ [ev]) (sub\<lparr>su_ch := evs\<rparr>)"
    using sys_invD(5) [OF inv sub(1)] sub(2) by (simp add: sub_ok_def own_def)
  then show "tget (hb_subs (sy_hub s)) q = Some sub' \<and> got ?s q = got s q \<or> sub_ok (sy_log ?s) (got ?s q) sub'"
    if "tget (hb_subs (sy_hub ?s)) q = Some sub'" for q sub'
    using that by (auto simp: got_def split: if_splits)
qed (use sys_invD(3) [OF inv] in \<open>auto split: if_splits\<close>)

lemma inv_cancel:
  assumes inv: "sys_inv content cfg s"
  shows "sys_inv content cfg (s\<lparr>sy_hub := (sy_hub s)\<lparr>hb_done := True\<rparr>\<rparr>)"
proof (rule inv_hub [OF inv])
  let ?h = "(sy_hub s)\<lparr>hb_done := True\<rparr>"
  have "rec_wf ?h = rec_wf (sy_hub s)" "open_of ?h = open_of (sy_hub s)"
    by (rule hub_frame; simp)+
  then have "hub_wf ?h"
    using sys_invD(1) [OF inv] by (simp add: hub_wf_def)
  then show "hub_ext (sy_hub s) ?h"
    by (simp add: hub_ext_def)
qed (use sys_invD(5) [OF inv] in simp)

lemma init_inv: "sys_inv content cfg (init_sys cfg c (content c))"
  by (simp add: sys_inv_def init_sys_def hub_wf_def NewHub_def open_of_def)

lemma loop_ok_read: "loop_ok log h t l \<Longrightarrow> set es \<subseteq> set (log (Key (lp_tenant l))) \<Longrightarrow>
    loop_ok log h t (l\<lparr>lp_pending := es\<rparr>) \<and> loop_ok log h t (l\<lparr>lp_wait := w, lp_pending := es\<rparr>) \<and> loop_ok log h t (l\<lparr>lp_wait := w\<rparr>)"
  by (simp add: loop_ok_def)

lemma loop_ok_todo: "loop_ok log h t l \<Longrightarrow> set ps \<subseteq> set (lp_todo l) \<Longrightarrow>
    loop_ok log h t (l\<lparr>lp_todo := ps, lp_stalled := x\<rparr>) \<and> loop_ok log h t (l\<lparr>lp_stalled := x\<rparr>)"
  by (auto simp: loop_ok_def)

lemma inv_pick:
  assumes inv: "sys_inv content cfg s" and l: "tget (sy_loops s) t = Some l" "lp_pending l = en # es"
  shows "sys_inv content cfg (s\<lparr>sy_loops := tput t (l\<lparr>lp_pending := es, lp_last := en_ID en, lp_event := event_of en,
    lp_todo := recipients t en (sy_hub s)\<rparr>) (sy_loops s)\<rparr>)"
proof (rule inv_loops [OF inv])
  note ok = sys_invD(7) [OF inv l(1)]
  have "due (sy_log s) (sy_hub s) p (event_of en)" if "p \<in> set (recipients t en (sy_hub s))" for p
    using recipients_due [OF sys_invD(1) [OF inv] ok _ that] l(2) by simp
  then show "loop_ok (sy_log s) (sy_hub s) t (l\<lparr>lp_pending := es, lp_last := en_ID en, lp_event := event_of en,
      lp_todo := recipients t en (sy_hub s)\<rparr>)"
    using ok l(2) by (simp add: loop_ok_def)
qed

lemma inv_fan:
  assumes inv: "sys_inv content cfg s" and l: "tget (sy_loops s) t = Some l" "lp_todo l = p # ps"
    and push: "push_at (lp_event l) p (sy_hub s) = (ok, h')"
  shows "sys_inv content cfg (s\<lparr>sy_hub := h', sy_loops := tput t (l\<lparr>lp_todo := ps, lp_stalled := x\<rparr>) (sy_loops s)\<rparr>)"
proof -
  note ok = sys_invD(7) [OF inv l(1)]
  have "due (sy_log s) (sy_hub s) p (lp_event l)"
    using ok l(2) by (simp add: loop_ok_def)
  then have inv': "sys_inv content cfg (s\<lparr>sy_hub := h'\<rparr>)"
    using inv_push [OF inv, of p "lp_event l"] push by simp
  have "loop_ok (sy_log s) h' t (l\<lparr>lp_todo := ps, lp_stalled := x\<rparr>)"
    using loop_ok_todo [OF sys_invD(7) [OF inv', of t l], of ps x] l by auto
  then show ?thesis
    using inv_loops [OF inv', of t] by simp
qed

lemma inv_stall:
  assumes inv: "sys_inv content cfg s" and l: "tget (sy_loops s) t = Some l"
  shows "sys_inv content cfg (s\<lparr>sy_hub := Close p (sy_hub s), sy_loops := tput t (l\<lparr>lp_stalled := None\<rparr>) (sy_loops s)\<rparr>)"
proof -
  have inv': "sys_inv content cfg (s\<lparr>sy_hub := Close p (sy_hub s)\<rparr>)"
    by (rule inv_Close [OF inv])
  have "loop_ok (sy_log s) (Close p (sy_hub s)) t (l\<lparr>lp_stalled := None\<rparr>)"
    using loop_ok_todo [OF sys_invD(7) [OF inv', of t l], of "[]" None] l by simp
  then show ?thesis
    using inv_loops [OF inv', of t] by simp
qed

lemma inv_replay:
  assumes inv: "sys_inv content cfg s" and evs: "\<And>ev. ev \<in> set evs \<Longrightarrow> due (sy_log s) (sy_hub s) p ev"
  shows "sys_inv content cfg (s\<lparr>sy_asked := A, sy_replay := tput p evs (sy_replay s)\<rparr>)"
    and "sys_inv content cfg (s\<lparr>sy_replay := tput p evs (sy_replay s)\<rparr>)"
  using evs sys_invD(3) [OF inv]
  by (intro sys_inv_step [OF inv]; auto simp: got_def hub_ext_refl sys_invD(1) [OF inv] split: if_splits)+

context stream_client
begin

lemma log_reads:
  assumes inv: "sys_inv content cfg s"
  shows "cl_XReadTry cl key a n (sy_client s) = Inr (a', es) \<Longrightarrow> set es \<subseteq> set (sy_log s key)"
    "cl_XReadWoken cl key a n (sy_client s) = Inr es \<Longrightarrow> set es \<subseteq> set (sy_log s key)"
    "cl_XRange cl key a n (sy_client s) = Inr es \<Longrightarrow> set es \<subseteq> set (sy_log s key)"
  using reads_content sys_invD(3) [OF inv, of key] by (meson subset_trans)+

lemma step_inv:
  assumes "hub_step cl s s'" and inv: "sys_inv content cfg s"
  shows "sys_inv content cfg s'"
  using assms(1)
proof cases
  case (append e key fs maxLen i c')
  then show ?thesis
    using inv_append [OF inv] by simp
next
  case (trim key i r c')
  then show ?thesis
    using inv_trim [OF inv] by simp
next
  case (subscribe tn u r start h' lastID)
  then show ?thesis
    using inv_subscribe [OF inv subscribe(2)] by simp
next
  case (replay_read p lastID sub e)
  let ?evs = "replay_events cl e (hb_cfg (sy_hub s)) (su_tenant sub) (su_user sub) lastID (sy_client s)"
  have "due (sy_log s) (sy_hub s) p ev" if "ev \<in> set ?evs" for ev
  proof -
    have "own (sy_log s) sub ev"
      by (rule replay_own [OF _ that refl refl]) (rule log_reads(3) [OF inv])
    then show ?thesis
      using replay_read(3) by (auto simp: due_def)
  qed
  then show ?thesis
    unfolding replay_read(1) by (rule inv_replay(1) [OF inv])
next
  case (replay_push p ev evs)
  have due: "due (sy_log s) (sy_hub s) p x" if "x \<in> set (ev # evs)" for x
    using sys_invD(6) [OF inv replay_push(2) that] .
  have inv': "sys_inv content cfg (s\<lparr>sy_hub := snd (push_at ev p (sy_hub s))\<rparr>)"
    using inv_push [OF inv due] by simp
  have "due (sy_log s) (snd (push_at ev p (sy_hub s))) p x" if "x \<in> set evs" for x
    using due_ext [OF hub_ext_push [OF sys_invD(1) [OF inv]] due] that by simp
  then show ?thesis
    using inv_replay(2) [OF inv', of evs p] replay_push(1) by simp
next
  case (read t l a es)
  then show ?thesis
    using inv_loops [OF inv, of t] loop_ok_read [OF sys_invD(7) [OF inv read(2)] log_reads(1) [OF inv read(5)]] by simp
next
  case (woken t l a es)
  then show ?thesis
    using inv_loops [OF inv, of t] loop_ok_read [OF sys_invD(7) [OF inv woken(2)] log_reads(2) [OF inv woken(4)]] by simp
next
  case (timeout t l)
  then show ?thesis
    using inv_loops [OF inv, of t] loop_ok_read [OF sys_invD(7) [OF inv timeout(2)], of "[]"] by simp
next
  case (pick t l en es)
  then show ?thesis
    using inv_pick [OF inv pick(2,3)] by simp
next
  case (fan t l p ps ok h')
  then show ?thesis
    using inv_fan [OF inv fan(2,3,5)] by simp
next
  case (stall t l p)
  then show ?thesis
    using inv_stall [OF inv stall(2)] by simp
next
  case (receive p sub ev evs)
  then show ?thesis
    using inv_receive [OF inv receive(2,3)] by simp
next
  case (close p)
  then show ?thesis
    using inv_Close [OF inv] by simp
next
  case cancel
  then show ?thesis
    using inv_cancel [OF inv] by simp
qed

lemma reach_inv: "hub_reach cl content cfg s \<Longrightarrow> sys_inv content cfg s"
  by (induction rule: hub_reach.induct) (auto intro: init_inv step_inv)

end

section \<open>Running a schedule\<close>

text \<open>Actions of the participants, for concrete runs; each is a step of the relation.\<close>

datatype act = Append env string "string tbl" int | Open string string string | ReplayRead env nat | ReplayPush nat
  | Read nat | Pick nat | Fan nat | Receive nat

fun exec :: "'c Client \<Rightarrow> act \<Rightarrow> 'c Sys \<Rightarrow> 'c Sys option" where
  "exec cl (Append e key fs maxLen) s = (case cl_XAdd cl e key fs maxLen (sy_client s) of
     (Inl _, _) \<Rightarrow> None
   | (Inr i, c') \<Rightarrow> Some (s\<lparr>sy_client := c', sy_log := (sy_log s)(key := sy_log s key @ [\<lparr>en_ID = i, en_Fields = fs\<rparr>])\<rparr>))"
| "exec cl (Open tn u lastID) s = (case open_sub cl tn u (sy_client s) (sy_hub s) of (r, start, h') \<Rightarrow>
     Some (s\<lparr>sy_hub := h',
      sy_loops := (case start of None \<Rightarrow> sy_loops s | Some (t, a) \<Rightarrow> tput t (new_loop tn a) (sy_loops s)),
      sy_asked := (case r of Inl _ \<Rightarrow> sy_asked s | Inr p \<Rightarrow> if lastID = [] then sy_asked s else tput p lastID (sy_asked s))\<rparr>))"
| "exec cl (ReplayRead e p) s = (case (tget (sy_asked s) p, tget (hb_subs (sy_hub s)) p) of
     (Some lastID, Some sub) \<Rightarrow> Some (s\<lparr>sy_asked := tdel p (sy_asked s), sy_replay := tput p (replay_events cl e
       (hb_cfg (sy_hub s)) (su_tenant sub) (su_user sub) lastID (sy_client s)) (sy_replay s)\<rparr>)
   | _ \<Rightarrow> None)"
| "exec cl (ReplayPush p) s = (case tget (sy_replay s) p of
     Some (ev # evs) \<Rightarrow> Some (s\<lparr>sy_hub := snd (push_at ev p (sy_hub s)), sy_replay := tput p evs (sy_replay s)\<rparr>)
   | _ \<Rightarrow> None)"
| "exec cl (Read t) s = (case tget (sy_loops s) t of
     None \<Rightarrow> None
   | Some l \<Rightarrow> if \<not> (loop_running (sy_hub s) t \<and> loop_idle l) then None
       else case cl_XReadTry cl (Key (lp_tenant l)) (lp_last l) 100 (sy_client s) of
         Inl _ \<Rightarrow> None
       | Inr (a, es) \<Rightarrow> Some (s\<lparr>sy_loops := tput t (if es = [] then l\<lparr>lp_wait := Some a\<rparr> else l\<lparr>lp_pending := es\<rparr>) (sy_loops s)\<rparr>))"
| "exec cl (Pick t) s = (case tget (sy_loops s) t of
     None \<Rightarrow> None
   | Some l \<Rightarrow> (case lp_pending l of
       [] \<Rightarrow> None
     | en # es \<Rightarrow> if lp_todo l = [] \<and> lp_stalled l = None
         then Some (s\<lparr>sy_loops := tput t (l\<lparr>lp_pending := es, lp_last := en_ID en, lp_event := event_of en,
           lp_todo := recipients t en (sy_hub s)\<rparr>) (sy_loops s)\<rparr>)
         else None))"
| "exec cl (Fan t) s = (case tget (sy_loops s) t of
     None \<Rightarrow> None
   | Some l \<Rightarrow> (case lp_todo l of
       [] \<Rightarrow> None
     | p # ps \<Rightarrow> if lp_stalled l = None
         then (case push_at (lp_event l) p (sy_hub s) of (ok, h') \<Rightarrow> Some (s\<lparr>sy_hub := h',
           sy_loops := tput t (l\<lparr>lp_todo := ps, lp_stalled := (if ok then None else Some p)\<rparr>) (sy_loops s)\<rparr>))
         else None))"
| "exec cl (Receive p) s = (case tget (hb_subs (sy_hub s)) p of
     None \<Rightarrow> None
   | Some sub \<Rightarrow> (case su_ch sub of
       [] \<Rightarrow> None
     | ev # evs \<Rightarrow> Some (s\<lparr>sy_hub := (sy_hub s)\<lparr>hb_subs := tput p (sub\<lparr>su_ch := evs\<rparr>) (hb_subs (sy_hub s))\<rparr>,
         sy_got := tput p (got s p @ [ev]) (sy_got s)\<rparr>)))"

fun run :: "'c Client \<Rightarrow> act list \<Rightarrow> 'c Sys \<Rightarrow> 'c Sys option" where
  "run cl [] s = Some s"
| "run cl (a # as) s = (case exec cl a s of None \<Rightarrow> None | Some s' \<Rightarrow> run cl as s')"

lemma exec_step: "exec cl a s = Some s' \<Longrightarrow> hub_step cl s s'"
proof (cases a)
  case (Append e key fs maxLen)
  assume "exec cl a s = Some s'"
  then show ?thesis
    using Append by (auto split: prod.splits sum.splits intro: hub_step.append)
next
  case (Open tn u lastID)
  assume "exec cl a s = Some s'"
  then show ?thesis
    using Open by (auto split: prod.splits simp del: if_split intro!: hub_step.subscribe)
next
  case (ReplayRead e p)
  assume "exec cl a s = Some s'"
  then show ?thesis
    using ReplayRead by (auto split: option.splits intro: hub_step.replay_read)
next
  case (ReplayPush p)
  assume "exec cl a s = Some s'"
  then show ?thesis
    using ReplayPush by (auto split: option.splits list.splits intro: hub_step.replay_push)
next
  case (Read t)
  assume ex: "exec cl a s = Some s'"
  then obtain l where l: "tget (sy_loops s) t = Some l" "loop_running (sy_hub s) t" "loop_idle l"
    using Read by (auto split: option.splits if_splits)
  obtain x es where "cl_XReadTry cl (Key (lp_tenant l)) (lp_last l) 100 (sy_client s) = Inr (x, es)"
    using ex Read l by (auto split: sum.splits prod.splits)
  from hub_step.read [OF l this] show ?thesis
    using ex Read l \<open>cl_XReadTry cl (Key (lp_tenant l)) (lp_last l) 100 (sy_client s) = Inr (x, es)\<close> by simp
next
  case (Pick t)
  assume "exec cl a s = Some s'"
  then show ?thesis
    using Pick by (auto split: option.splits list.splits if_splits intro: hub_step.pick)
next
  case (Fan t)
  assume ex: "exec cl a s = Some s'"
  then obtain l where l: "tget (sy_loops s) t = Some l"
    using Fan by (cases "tget (sy_loops s) t") auto
  obtain p ps where todo: "lp_todo l = p # ps" "lp_stalled l = None"
    using ex Fan l by (cases "lp_todo l") (auto split: if_splits)
  obtain ok h' where push: "push_at (lp_event l) p (sy_hub s) = (ok, h')"
    by fastforce
  show ?thesis
    using hub_step.fan [OF l todo push] ex Fan l todo push by simp
next
  case (Receive p)
  assume "exec cl a s = Some s'"
  then show ?thesis
    using Receive by (auto split: option.splits list.splits intro: hub_step.receive)
qed

lemma run_reach: "hub_reach cl content cfg s \<Longrightarrow> run cl as s = Some s' \<Longrightarrow> hub_reach cl content cfg s'"
proof (induction as arbitrary: s)
  case (Cons a as)
  then obtain s1 where s1: "exec cl a s = Some s1" "run cl as s1 = Some s'"
    by (auto split: option.splits)
  show ?case
    using Cons.IH [OF hub_reach.step [OF Cons.prems(1) exec_step [OF s1(1)]] s1(2)] .
qed simp

text \<open>A user reconnects after one missed event; a second event is published and fanned out before the replay pushes.\<close>

definition example_config :: Config where
  "example_config = \<lparr>cf_ReplayWindow = 0, cf_StreamsPerUser = 0, cf_StreamsPerTenant = 0, cf_MaxLen = 0, cf_TrimInterval = 0,
     cf_ReadBlock = 0, cf_RetryDelay = 0\<rparr>"

definition example_fields :: "string \<Rightarrow> string tbl" where
  "example_fields typ = [(''to'', ''*''), (''type'', typ), (''data'', ''{}'')]"

definition example_schedule :: "act list" where
  "example_schedule = [Append env0 (Key ''t'') (example_fields ''a'') 100, Open ''t'' ''u'' ''0-0'',
     Append env0 (Key ''t'') (example_fields ''b'') 100, Read 0, Pick 0, Fan 0, ReplayRead env0 1, ReplayPush 1, ReplayPush 1]"

definition example_entry :: "int \<Rightarrow> string \<Rightarrow> Entry" where
  "example_entry n typ = \<lparr>en_ID = ID 5 n, en_Fields = example_fields typ\<rparr>"

definition example_sub :: Subscription where
  "example_sub = \<lparr>su_tenant = ''t'', su_user = ''u'', su_ch = [event_of (example_entry 2 ''b'')], su_last = ID 5 2, su_closed = False\<rparr>"

lemma example_run:
  "map_option (\<lambda>s. (tget (hb_subs (sy_hub s)) 1, tget (sy_asked s) 1, tget (sy_replay s) 1, got s 1, sy_log s (Key ''t'')))
     (run memory_client example_schedule (init_sys example_config NewMemory (stream_of NewMemory))) =
   Some (Some example_sub, None, Some [], [], [example_entry 1 ''a'', example_entry 2 ''b''])"
  by code_simp

lemma example_reached:
  obtains s where "hub_reach memory_client stream_of example_config s" "tget (hb_subs (sy_hub s)) 1 = Some example_sub"
    "tget (sy_asked s) 1 = None" "tget (sy_replay s) 1 = Some []" "got s 1 = []"
    "sy_log s (Key ''t'') = [example_entry 1 ''a'', example_entry 2 ''b'']"
proof -
  obtain s where s: "run memory_client example_schedule (init_sys example_config NewMemory (stream_of NewMemory)) = Some s"
    using example_run by (cases "run memory_client example_schedule (init_sys example_config NewMemory (stream_of NewMemory))") auto
  have "hub_reach memory_client stream_of example_config s"
    by (rule run_reach [OF hub_reach.init [of memory_client stream_of example_config NewMemory] s])
  then show ?thesis
    using example_run [unfolded s] by (intro that [of s]) auto
qed

section \<open>Replay into a new subscription\<close>

definition push_list :: "StreamEvent list \<Rightarrow> Subscription \<Rightarrow> Subscription" where
  "push_list evs s = fold (\<lambda>ev s. snd (push ev s)) evs s"

lemma push_all_sub:
  "tget (hb_subs h) p = Some s \<Longrightarrow> tget (hb_subs (push_all p evs h)) p = Some (push_list evs s)"
  unfolding push_all_def push_list_def by (induction evs arbitrary: h s) (simp_all add: push_at_subs)

lemma push_list_fresh:
  assumes "\<not> su_closed s" and "\<forall>ev \<in> set evs. se_ID ev \<noteq> []" and "sorted_wrt Less (map se_ID evs)"
    and "\<forall>ev \<in> set evs. su_last s = [] \<or> Less (su_last s) (se_ID ev)" and "length (su_ch s) \<le> connBuffer"
  shows "su_ch (push_list evs s) = take connBuffer (su_ch s @ evs) \<and>
    su_last (push_list evs s) = (if evs = [] then su_last s else se_ID (last evs)) \<and> \<not> su_closed (push_list evs s)"
  using assms
proof (induction evs arbitrary: s)
  case (Cons ev evs)
  let ?s = "snd (push ev s)"
  have s: "su_last ?s = se_ID ev" "\<not> su_closed ?s" "su_ch ?s = take connBuffer (su_ch s @ [ev])"
    using Cons.prems by (auto simp: push_def Let_def)
  have "su_ch (push_list evs ?s) = take connBuffer (su_ch ?s @ evs) \<and>
    su_last (push_list evs ?s) = (if evs = [] then su_last ?s else se_ID (last evs)) \<and> \<not> su_closed (push_list evs ?s)"
    using Cons.prems s by (intro Cons.IH) auto
  moreover have "take connBuffer (take connBuffer (su_ch s @ [ev]) @ evs) = take connBuffer (su_ch s @ ev # evs)"
    using Cons.prems(5) by (cases "length (su_ch s) = connBuffer") (auto simp: take_Cons')
  moreover have "push_list (ev # evs) s = push_list evs ?s"
    by (simp add: push_list_def)
  ultimately show ?case
    using s by simp
qed (simp add: push_list_def)

lemma sorted_after:
  assumes "sorted_wrt Less (map en_ID es)"
  shows "sorted_wrt Less (map en_ID (filter P (after a n es)))"
proof -
  have f: "sorted_wrt Less (map en_ID (filter Q es))" if "sorted_wrt Less (map en_ID es)" for Q es
    using that by (simp add: sorted_wrt_map sorted_wrt_filter)
  let ?es = "filter (\<lambda>e. a = [] \<or> Less a (en_ID e)) es"
  have "sorted_wrt Less (map en_ID (take k ?es))" for k
    using sorted_wrt_take [OF f [OF assms], of k] by (simp add: take_map)
  then have "sorted_wrt Less (map en_ID (after a n es))"
    using f [OF assms] unfolding after_def Let_def by (cases "0 < n") simp_all
  then show ?thesis
    by (rule f)
qed

lemma after_mem: "e \<in> set (after a n es) \<Longrightarrow> e \<in> set es"
  by (auto simp: after_def Let_def split: if_splits dest: in_set_takeD)

section \<open>Properties\<close>

text \<open>C13. Delivery is sound in every interleaving, for every client that meets the contract: what a subscriber has received
  or has queued is in strictly increasing identifier order, so nothing is delivered twice, and every event with an identifier is
  the message of an entry published to the subscriber's own tenant and addressed to its user.\<close>

theorem hub_delivery_sound:
  assumes "stream_client cl content" and "hub_reach cl content cfg s" and "tget (hb_subs (sy_hub s)) p = Some sub"
  shows "sorted_wrt Less (ids (got s p @ su_ch sub)) \<and>
    (\<forall>ev \<in> set (got s p @ su_ch sub). se_ID ev = [] \<or>
      (\<exists>en \<in> set (sy_log s (Key (su_tenant sub))). ev = event_of en \<and> targets (field en ''to'') (su_user sub)))"
  using sys_invD(5) [OF stream_client.reach_inv [OF assms(1,2)] assms(3)]
  unfolding sub_ok_def ordered_def own_def by blast

theorem hub_delivery_sound_witness:
  "\<exists>s. hub_reach memory_client stream_of example_config s \<and> tget (hb_subs (sy_hub s)) 1 = Some example_sub \<and>
     sorted_wrt Less (ids (got s 1 @ su_ch example_sub))"
proof (rule example_reached)
  fix s
  assume s: "hub_reach memory_client stream_of example_config s" "tget (hb_subs (sy_hub s)) 1 = Some example_sub"
  from hub_delivery_sound [OF memory.stream_client_axioms s] show ?thesis
    using s by blast
qed

text \<open>C14. The limits hold in every interleaving: a tenant never has more open subscriptions than the limit per tenant and
  a user of it never more than the limit per user, and the hub has a record of the tenant, whose loop is not cancelled, exactly while
  one of its subscriptions is open.\<close>

theorem hub_limits:
  assumes "stream_client cl content" and "hub_reach cl content cfg s"
  shows "int (card {p. open_of (sy_hub s) tn p}) \<le> cf_StreamsPerTenant (hb_cfg (NewHub cfg)) \<and>
    int (card {p. open_of (sy_hub s) tn p \<and> is_user (sy_hub s) u p}) \<le> cf_StreamsPerUser (hb_cfg (NewHub cfg)) \<and>
    ((\<exists>t ts. tget (hb_tenants (sy_hub s)) tn = Some t \<and> tget (hb_tsubs (sy_hub s)) t = Some ts \<and> \<not> ts_cancelled ts) \<longleftrightarrow>
      (\<exists>p. open_of (sy_hub s) tn p))"
proof -
  note inv = stream_client.reach_inv [OF assms]
  note wf = sys_invD(1) [OF inv] and cfg = sys_invD(2) [OF inv]
  show ?thesis
  proof (cases "tget (hb_tenants (sy_hub s)) tn")
    case None
    then have "\<not> open_of (sy_hub s) tn p" for p
      using hub_wfD(4) [OF wf, of tn p] by blast
    then show ?thesis
      using hub_wfD(1,2) [OF wf] None cfg by simp
  next
    case (Some t)
    obtain ts where ts: "tget (hb_tsubs (sy_hub s)) t = Some ts" "ts_conns ts \<noteq> []" "rec_wf (sy_hub s) tn ts"
      using hub_wfD(3) [OF wf Some] by blast
    have conns: "{p. open_of (sy_hub s) tn p} = set (ts_conns ts)" "distinct (ts_conns ts)" "\<not> ts_cancelled ts"
        "int (length (ts_conns ts)) \<le> cf_StreamsPerTenant (hb_cfg (sy_hub s))"
      using ts(3) by (auto simp: rec_wf_def)
    have "int (length (filter (is_user (sy_hub s) u) (ts_conns ts))) \<le> cf_StreamsPerUser (hb_cfg (sy_hub s))"
      using ts(3) unfolding rec_wf_def by metis
    moreover have "{p. open_of (sy_hub s) tn p \<and> is_user (sy_hub s) u p} = set (filter (is_user (sy_hub s) u) (ts_conns ts))"
      using conns(1) by auto
    moreover have "\<exists>p. open_of (sy_hub s) tn p"
      using conns(1) ts(2) by (metis list.set_sel(1) mem_Collect_eq)
    moreover have "card (set (filter (is_user (sy_hub s) u) (ts_conns ts))) = length (filter (is_user (sy_hub s) u) (ts_conns ts))"
      using conns(2) by (intro distinct_card) simp
    ultimately show ?thesis
      using conns Some ts(1) cfg distinct_card [OF conns(2)] by simp
  qed
qed

theorem hub_limits_witness:
  "\<exists>s. hub_reach memory_client stream_of example_config s \<and> (\<exists>p. open_of (sy_hub s) ''t'' p) \<and>
     int (card {p. open_of (sy_hub s) ''t'' p \<and> is_user (sy_hub s) ''u'' p}) \<le> 5"
proof (rule example_reached)
  fix s
  assume s: "hub_reach memory_client stream_of example_config s" "tget (hb_subs (sy_hub s)) 1 = Some example_sub"
  have "open_of (sy_hub s) ''t'' 1"
    using s(2) by (simp add: open_of_def example_sub_def)
  moreover have "cf_StreamsPerUser (hb_cfg (NewHub example_config)) = 5"
    by (simp add: NewHub_def example_config_def)
  ultimately show ?thesis
    using hub_limits [OF memory.stream_client_axioms s(1), of "''t''" "''u''"] s(1) by auto
qed

text \<open>C33. A subscriber who reconnects within the replay window gets the missed entries addressed to it in order, but at most the first
  32 of them: the replay runs before anyone can read the subscription, so every later one meets a full buffer and is skipped, while the
  subscription stays open and its last identifier is that of the newest entry, which makes the hub treat the skipped ones as delivered.\<close>

theorem Subscribe_replays:
  assumes wf: "hub_wf h" and sub: "Subscribe memory_client e tn u lastID c h = (Inr p, h')" and up: "sm_Err c = None"
    and id: "lastID \<noteq> []" "ParseID lastID = (ms, sq, True)" "env_now e - cf_ReplayWindow (hb_cfg h) \<le> ms * 1000000"
    and stream: "sorted_wrt Less (map en_ID (stream_of c (Key tn)))" "\<forall>x \<in> set (stream_of c (Key tn)). en_ID x \<noteq> []"
  defines "missed \<equiv> filter (\<lambda>x. targets (field x ''to'') u) (after lastID (cf_MaxLen (hb_cfg h)) (stream_of c (Key tn)))"
  shows "\<exists>s. tget (hb_subs h') p = Some s \<and> \<not> su_closed s \<and> su_ch s = map event_of (take connBuffer missed) \<and>
    su_last s = (if missed = [] then [] else en_ID (last missed))"
proof -
  obtain start h1 where o: "open_sub memory_client tn u c h = (Inr p, start, h1)"
      and h': "h' = push_all p (replay_events memory_client e (hb_cfg h1) tn u lastID c) h1"
    using sub id(1) by (auto simp: Subscribe_def split: prod.splits sum.splits)
  have new: "tget (hb_subs h1) p = Some (new_sub tn u) \<and> hb_cfg h1 = hb_cfg h"
    using wf o by (cases rule: open_sub_cases) (auto simp: opened_def)
  have evs: "replay_events memory_client e (hb_cfg h1) tn u lastID c = map event_of missed"
    using new id up by (simp add: replay_events_def memory_client_def XRange_def missed_def)
  have ids: "map se_ID (map event_of missed) = map en_ID missed"
    by (simp add: event_of_def)
  have "\<forall>ev \<in> set (map event_of missed). se_ID ev \<noteq> []"
    using stream(2) by (auto simp: missed_def event_of_def dest: after_mem)
  moreover have "sorted_wrt Less (map se_ID (map event_of missed))"
    using sorted_after [OF stream(1)] unfolding ids by (simp only: missed_def)
  ultimately have "su_ch (push_list (map event_of missed) (new_sub tn u)) = take connBuffer (map event_of missed) \<and>
      su_last (push_list (map event_of missed) (new_sub tn u)) = (if missed = [] then [] else se_ID (last (map event_of missed))) \<and>
      \<not> su_closed (push_list (map event_of missed) (new_sub tn u))"
    using push_list_fresh [of "new_sub tn u" "map event_of missed"] by simp
  then show ?thesis
    using push_all_sub [of h1 p "new_sub tn u" "map event_of missed"] new h' evs
    by (auto simp: take_map last_map event_of_def)
qed

text \<open>A stream of entries for everyone, and the hub before anyone subscribed.\<close>

definition example_stream :: "nat \<Rightarrow> Memory" where
  "example_stream n = fold (\<lambda>_ m. snd (XAdd env0 (Key ''t'') (example_fields ''a'') 100 m)) [0..<n] NewMemory"

lemma example_stream_content:
  "n \<le> 100 \<Longrightarrow> sm_Err (example_stream n) = None \<and> sm_seq (example_stream n) = int n \<and>
     stream_of (example_stream n) (Key ''t'') = map (\<lambda>i. example_entry (int i + 1) ''a'') [0..<n]"
proof (induction n)
  case (Suc n)
  let ?m = "example_stream n"
  have m: "sm_Err ?m = None" "sm_seq ?m = int n" "stream_of ?m (Key ''t'') = map (\<lambda>i. example_entry (int i + 1) ''a'') [0..<n]"
    using Suc by auto
  have "example_stream (Suc n) = snd (XAdd env0 (Key ''t'') (example_fields ''a'') 100 ?m)"
    by (simp add: example_stream_def)
  moreover have "wrap64 (int n + 1) = int n + 1"
    using Suc.prems by (intro wrap64_id) auto
  moreover have "env_now env0 = 5"
    by (simp add: env0_def)
  ultimately show ?case
    using m Suc.prems by (simp add: XAdd_def Let_def example_entry_def)
qed (simp add: example_stream_def NewMemory_def stream_of_def)

lemma example_Less: "0 \<le> i \<Longrightarrow> i < 2 ^ 63 \<Longrightarrow> 0 \<le> j \<Longrightarrow> j < 2 ^ 63 \<Longrightarrow> Less (ID 5 i) (ID 5 j) \<longleftrightarrow> i < j"
  using ParseID_ID [of 5 i] ParseID_ID [of 5 j] by (simp add: Less_def UnixMilli_def)

lemma example_start: "ParseID ''0-0'' = (0, 0, True)"
  by code_simp

lemma example_missed:
  assumes "n \<le> 100"
  defines "es \<equiv> stream_of (example_stream n) (Key ''t'')"
  shows "sorted_wrt Less (map en_ID es)" "\<forall>x \<in> set es. en_ID x \<noteq> []"
    "filter (\<lambda>x. targets (field x ''to'') ''u'') (after ''0-0'' 10000 es) = es"
proof -
  have es: "es = map (\<lambda>i. example_entry (int i + 1) ''a'') [0..<n]"
    using example_stream_content [OF assms(1)] by (simp add: es_def)
  show "sorted_wrt Less (map en_ID es)"
    using assms(1) by (simp add: es sorted_wrt_map example_entry_def sorted_wrt_iff_nth_less example_Less)
  show "\<forall>x \<in> set es. en_ID x \<noteq> []"
    by (auto simp: es example_entry_def ID_def)
  have "Less ''0-0'' (ID 5 (int i + 1))" if "i < n" for i
    using ParseID_ID [of 5 "int i + 1"] example_start that assms(1) by (simp add: Less_def UnixMilli_def)
  then have "filter (\<lambda>e. ''0-0'' = [] \<or> Less ''0-0'' (en_ID e)) es = es"
    by (auto simp: es example_entry_def intro!: filter_True)
  moreover have "\<forall>x \<in> set es. targets (field x ''to'') ''u''"
    by (auto simp: es example_entry_def example_fields_def field_def targets_def tget_def)
  ultimately show "filter (\<lambda>x. targets (field x ''to'') ''u'') (after ''0-0'' 10000 es) = es"
    using assms(1) by (simp add: after_def Let_def es)
qed

theorem Subscribe_replays_witness:
  "\<exists>p h' s. Subscribe memory_client env0 ''t'' ''u'' ''0-0'' (example_stream 33) (NewHub example_config) = (Inr p, h') \<and>
     tget (hb_subs h') p = Some s \<and> \<not> su_closed s \<and> length (su_ch s) = 32 \<and> su_last s = ID 5 33"
proof -
  let ?c = "example_stream 33" and ?h = "NewHub example_config"
  have c: "sm_Err ?c = None" "stream_of ?c (Key ''t'') = map (\<lambda>i. example_entry (int i + 1) ''a'') [0..<33]"
    using example_stream_content [of 33] by simp_all
  have cfg: "cf_MaxLen (hb_cfg ?h) = 10000" "cf_ReplayWindow (hb_cfg ?h) = 300000000000" "hub_wf ?h"
    using sys_invD(1) [OF init_inv [of stream_of example_config NewMemory]]
    by (simp_all add: NewHub_def example_config_def init_sys_def)
  obtain p h' where sub: "Subscribe memory_client env0 ''t'' ''u'' ''0-0'' ?c ?h = (Inr p, h')"
    using c(1) by (auto simp: Subscribe_def open_sub_def tenant_record_def add_conn_def NewHub_def example_config_def users_of_def
        memory_client_def XLast_def)
  have missed: "filter (\<lambda>x. targets (field x ''to'') ''u'') (after ''0-0'' (cf_MaxLen (hb_cfg ?h)) (stream_of ?c (Key ''t''))) =
      stream_of ?c (Key ''t'')"
    unfolding cfg(1) by (rule example_missed(3)) simp
  have win: "env_now env0 - cf_ReplayWindow (hb_cfg ?h) \<le> 0 * 1000000"
    unfolding cfg(2) by (simp add: env0_def)
  have "\<exists>s. tget (hb_subs h') p = Some s \<and> \<not> su_closed s \<and>
      su_ch s = map event_of (take connBuffer (stream_of ?c (Key ''t''))) \<and>
      su_last s = (if stream_of ?c (Key ''t'') = [] then [] else en_ID (last (stream_of ?c (Key ''t''))))"
    using Subscribe_replays [OF cfg(3) sub c(1) _ example_start win example_missed(1,2)] unfolding missed by simp
  then show ?thesis
    using sub c(2) by (auto simp: example_entry_def last_map)
qed

section \<open>A replay that is overtaken\<close>

text \<open>An event that a subscription has neither received nor queued although its last identifier is not below
  the event's.\<close>

definition lost_sub :: "StreamEvent list \<Rightarrow> StreamEvent \<Rightarrow> Subscription \<Rightarrow> bool" where
  "lost_sub g ev sub = (su_last sub \<noteq> [] \<and> \<not> Less (su_last sub) (se_ID ev) \<and> ev \<notin> set (g @ su_ch sub))"

definition lost :: "'c Sys \<Rightarrow> nat \<Rightarrow> StreamEvent \<Rightarrow> bool" where
  "lost s p ev = (\<exists>sub. tget (hb_subs (sy_hub s)) p = Some sub \<and> lost_sub (got s p) ev sub)"

lemma push_lost:
  assumes "se_ID ev \<noteq> []" and "lost_sub g ev sub"
  shows "lost_sub g ev (snd (push ev' sub))"
proof (cases "Less (su_last sub) (se_ID ev')")
  case True
  have "\<not> Less (se_ID ev') (se_ID ev)"
    using assms(2) Less_trans [OF True] unfolding lost_sub_def by blast
  moreover have "ev' \<noteq> ev"
    using True assms(2) unfolding lost_sub_def by blast
  ultimately show ?thesis
    using assms by (auto simp: lost_sub_def push_def Let_def)
next
  case False
  moreover have "ev' \<noteq> ev" if "se_ID ev' = []"
    using that assms(1) by blast
  ultimately show ?thesis
    using assms by (auto simp: lost_sub_def push_def Let_def)
qed

lemma lost_hub:
  assumes "lost s p ev" and "sy_got s' = sy_got s"
    and "\<And>sub. tget (hb_subs (sy_hub s)) p = Some sub \<Longrightarrow> lost_sub (got s p) ev sub \<Longrightarrow>
      \<exists>sub'. tget (hb_subs (sy_hub s')) p = Some sub' \<and> lost_sub (got s p) ev sub'"
  shows "lost s' p ev"
proof -
  have "got s' p = got s p"
    using assms(2) by (simp add: got_def)
  then show ?thesis
    using assms(1,3) unfolding lost_def by auto
qed

lemma lost_push_at:
  assumes "lost s p ev" and "se_ID ev \<noteq> []" and "sy_got s' = sy_got s" and "sy_hub s' = snd (push_at ev' q (sy_hub s))"
  shows "lost s' p ev"
proof (rule lost_hub [OF assms(1,3)])
  fix sub assume sub: "tget (hb_subs (sy_hub s)) p = Some sub" "lost_sub (got s p) ev sub"
  show "\<exists>sub'. tget (hb_subs (sy_hub s')) p = Some sub' \<and> lost_sub (got s p) ev sub'"
    using push_lost [OF assms(2) sub(2), of ev'] sub unfolding assms(4) push_at_subs by (cases "p = q") auto
qed

lemma lost_Close:
  assumes "lost s p ev" and "sy_got s' = sy_got s" and "sy_hub s' = Close q (sy_hub s)"
  shows "lost s' p ev"
proof (rule lost_hub [OF assms(1,2)])
  fix sub assume sub: "tget (hb_subs (sy_hub s)) p = Some sub" "lost_sub (got s p) ev sub"
  then have "lost_sub (got s p) ev (sub\<lparr>su_closed := True\<rparr>)"
    by (simp add: lost_sub_def)
  then show "\<exists>sub'. tget (hb_subs (sy_hub s')) p = Some sub' \<and> lost_sub (got s p) ev sub'"
    using sub Close_frame(4) [of q "sy_hub s" p] unfolding assms(3) by auto
qed

lemma lost_receive:
  assumes "lost s p ev" and q: "tget (hb_subs (sy_hub s)) q = Some sub" "su_ch sub = e # evs"
  shows "lost (s\<lparr>sy_hub := (sy_hub s)\<lparr>hb_subs := tput q (sub\<lparr>su_ch := evs\<rparr>) (hb_subs (sy_hub s))\<rparr>,
      sy_got := tput q (got s q @ [e]) (sy_got s)\<rparr>) p ev"
  using assms by (cases "p = q") (auto simp: lost_def lost_sub_def got_def)

lemma step_lost:
  assumes "hub_step cl s s'" and wf: "hub_wf (sy_hub s)" and lost: "lost s p ev" and id: "se_ID ev \<noteq> []"
  shows "lost s' p ev"
  using assms(1)
proof (cases rule: hub_step.cases)
  case (subscribe tenantID userID r start h' lastID)
  have "tget (hb_subs h') p = tget (hb_subs (sy_hub s)) p" if p: "tget (hb_subs (sy_hub s)) p \<noteq> None"
    using wf subscribe(2)
  proof (cases rule: open_sub_cases)
    case (new t ts a)
    then show ?thesis
      using hub_wfD(6) [OF wf p] by (auto simp: opened_def)
  next
    case (old t ts q)
    then show ?thesis
      using hub_wfD(6) [OF wf p] by (auto simp: opened_def)
  qed simp
  then show ?thesis
    using subscribe(1) by (intro lost_hub [OF lost]) auto
next
  case (replay_push q e evs)
  show ?thesis
    by (rule lost_push_at [OF lost id]) (simp_all add: replay_push)
next
  case (fan t l q ps ok h')
  show ?thesis
    by (rule lost_push_at [OF lost id, of _ "lp_event l" q]) (simp_all add: fan)
next
  case (stall t l q)
  show ?thesis
    by (rule lost_Close [OF lost, of _ q]) (simp_all add: stall)
next
  case (close q)
  show ?thesis
    by (rule lost_Close [OF lost, of _ q]) (simp_all add: close)
next
  case (receive q sub e evs)
  show ?thesis
    unfolding receive(1) by (rule lost_receive [OF lost receive(2,3)])
qed (use lost in \<open>simp_all add: lost_def got_def\<close>)

lemma steps_lost:
  assumes "stream_client cl content" and "(hub_step cl)\<^sup>*\<^sup>* s s'" and "sys_inv content cfg s" and "lost s p ev"
    and "se_ID ev \<noteq> []"
  shows "lost s' p ev"
proof -
  have "sys_inv content cfg s' \<and> lost s' p ev"
    using assms(2)
  proof (induction rule: rtranclp_induct)
    case (step s1 s2)
    then have inv: "sys_inv content cfg s1" and l: "lost s1 p ev"
      by blast+
    show ?case
      using stream_client.step_inv [OF assms(1) step.hyps(2) inv]
        step_lost [OF step.hyps(2) sys_invD(1) [OF inv] l assms(5)] by blast
  qed (simp add: assms)
  then show ?thesis ..
qed

text \<open>C34. A replay that is overtaken loses events for good, for every client that meets the contract. Take a subscription that is
  registered with a last identifier and whose replay has not read the stream yet, and an event the replay will read and push. If the
  loop has meanwhile delivered a newer event to the subscription, so that its last identifier is not below the event's, then in no
  later state, whatever the interleaving, has the subscriber received the event or has it queued.\<close>

theorem replay_overtaken:
  assumes client: "stream_client cl content" and reach: "hub_reach cl content cfg s"
    and sub: "tget (hb_subs (sy_hub s)) p = Some sub" and asked: "tget (sy_asked s) p = Some lastID"
    and due: "ev \<in> set (replay_events cl e (hb_cfg (sy_hub s)) (su_tenant sub) (su_user sub) lastID (sy_client s))" "se_ID ev \<noteq> []"
    and overtaken: "su_last sub \<noteq> []" "\<not> Less (su_last sub) (se_ID ev)" "ev \<notin> set (got s p @ su_ch sub)"
  shows "(\<exists>s1 evs. hub_step cl s s1 \<and> tget (sy_replay s1) p = Some evs \<and> ev \<in> set evs) \<and>
    (\<forall>s'. (hub_step cl)\<^sup>*\<^sup>* s s' \<longrightarrow>
      (\<exists>sub'. tget (hb_subs (sy_hub s')) p = Some sub' \<and> ev \<notin> set (got s' p @ su_ch sub')))"
proof (intro conjI allI impI)
  show "\<exists>s1 evs. hub_step cl s s1 \<and> tget (sy_replay s1) p = Some evs \<and> ev \<in> set evs"
    using hub_step.replay_read [OF asked sub, of cl e] due(1) by (intro exI conjI) (assumption, simp_all)
next
  fix s' assume "(hub_step cl)\<^sup>*\<^sup>* s s'"
  moreover have "lost s p ev"
    using sub overtaken by (simp add: lost_def lost_sub_def)
  ultimately have "lost s' p ev"
    using steps_lost [OF client _ stream_client.reach_inv [OF client reach]] due(2) by blast
  then show "\<exists>sub'. tget (hb_subs (sy_hub s')) p = Some sub' \<and> ev \<notin> set (got s' p @ su_ch sub')"
    by (auto simp: lost_def lost_sub_def)
qed

text \<open>The example stopped before the replay reads the stream.\<close>

lemma example_overtaken:
  "map_option (\<lambda>s. (tget (hb_subs (sy_hub s)) 1, tget (sy_asked s) 1, got s 1,
      replay_events memory_client env0 (hb_cfg (sy_hub s)) ''t'' ''u'' ''0-0'' (sy_client s)))
     (run memory_client (take 6 example_schedule) (init_sys example_config NewMemory (stream_of NewMemory))) =
   Some (Some example_sub, Some ''0-0'', [], [event_of (example_entry 1 ''a''), event_of (example_entry 2 ''b'')])"
  by code_simp

theorem replay_overtaken_witness:
  "\<exists>s. run memory_client (take 6 example_schedule) (init_sys example_config NewMemory (stream_of NewMemory)) = Some s \<and>
     (\<forall>s'. (hub_step memory_client)\<^sup>*\<^sup>* s s' \<longrightarrow> (\<exists>sub'. tget (hb_subs (sy_hub s')) 1 = Some sub' \<and>
        event_of (example_entry 1 ''a'') \<notin> set (got s' 1 @ su_ch sub')))"
proof -
  let ?ev = "event_of (example_entry 1 ''a'')"
  obtain s where s: "run memory_client (take 6 example_schedule) (init_sys example_config NewMemory (stream_of NewMemory)) = Some s"
    and at: "tget (hb_subs (sy_hub s)) 1 = Some example_sub" "tget (sy_asked s) 1 = Some ''0-0''" "got s 1 = []"
      "replay_events memory_client env0 (hb_cfg (sy_hub s)) ''t'' ''u'' ''0-0'' (sy_client s) =
         [?ev, event_of (example_entry 2 ''b'')]"
    using example_overtaken by (auto simp del: run.simps example_schedule_def)
  have reach: "hub_reach memory_client stream_of example_config s"
    by (rule run_reach [OF hub_reach.init [of memory_client stream_of example_config NewMemory] s])
  have sub: "su_tenant example_sub = ''t''" "su_user example_sub = ''u''"
    by (simp_all add: example_sub_def)
  have over: "se_ID ?ev \<noteq> [] \<and> su_last example_sub \<noteq> [] \<and> \<not> Less (su_last example_sub) (se_ID ?ev) \<and> ?ev \<notin> set (su_ch example_sub)"
    by code_simp
  have "?ev \<in> set (replay_events memory_client env0 (hb_cfg (sy_hub s)) (su_tenant example_sub) (su_user example_sub) ''0-0'' (sy_client s))"
    unfolding sub at(4) by simp
  from replay_overtaken [OF memory.stream_client_axioms reach at(1,2) this] show ?thesis
    using s over at(3) by simp
qed

end
