(* ===== verification/Spec2Isabelle.thy ===== *)
theory Spec2Isabelle
  imports Ipnet Authz Models Mac Svc_Addresses Audit_Writer Sealed Snmpcred Svc_Subnets Scan_Arp Portlink Stream_Run
begin

text \<open>
  A verification library for go-tangra-ipam, a multi-tenant service that manages IP addresses, subnets and
  the devices that use them. All paths below are relative to \<open>src/internal\<close>.

  \<^bold>\<open>The program.\<close> A call enters through the HTTP or gRPC interface as a subject with a tenant and roles
  (\<open>authz\<close>). A service (\<open>addresses\<close>, \<open>subnets\<close>, and smaller ones) checks it, computes on
  address blocks (\<open>ipnet\<close>) and reads and writes through the storage interface (\<open>repo\<close>), which
  PostgreSQL or the in-memory store (\<open>memstore\<close>) implements. Services record audit events through a
  background writer (\<open>audit\<close>), keep credentials sealed (\<open>sealed\<close>, \<open>snmpcred\<close>) and publish events to
  connected browsers (\<open>events\<close>, \<open>stream\<close>). Background jobs read the ARP tables of routers (\<open>scan\<close>, \<open>arpplan\<close>) and link hosts
  to switch ports (\<open>portlink\<close>).

  \<^bold>\<open>Conventions.\<close> A Go string is a \<open>string\<close> of bytes, an \<open>IP\<close> a list of 8-bit words, a map an association list
  with \<open>tget\<close>, \<open>tput\<close> and \<open>tdel\<close>, a pointer that may be nil an option. An error is a value of \<open>goerr\<close>, an operation on a
  state \<open>'m\<close> a function \<open>'m \<Rightarrow> 'a res \<times> 'm\<close>; clocks and fresh identifiers come from an \<open>env\<close>. Integers are
  unbounded except where the code can overflow, where \<open>wrap64\<close> writes the wrap-around out. A store is a record of
  operations, so that every service is defined over any implementation of it.

  \<^bold>\<open>Theories.\<close>

  \<^item> \<open>Prelude\<close>: errors, environments, tables, text functions, stable sorting, pagination. \<open>Netip\<close>: the parts of Go's
    \<open>net\<close> and \<open>net/netip\<close> the code uses, with the round trip of printing and parsing addresses.

  \<^item> \<open>Ipnet\<close> (\<open>ipnet/ipnet.go\<close>, \<open>placement.go\<close>): blocks, host ranges, free addresses, overlap, subdivision, placement.
    Shown: the free address found is the least one, overlap and containment are those of the sets of addresses,
    subdivision partitions the block, the longest prefix wins; and defects on blocks that hold the IPv4-mapped addresses (a free block
    reported as exhausted, a child block that cannot be parsed) and on mixed families.

  \<^item> \<open>Models\<close> (\<open>store/models.go\<close>, \<open>ids.go\<close>): the records of the domain and identifiers. \<open>Mac\<close>, \<open>Exclude\<close>
    (\<open>hostreport\<close>): canonical MAC addresses and the default exclusion patterns. \<open>Authz\<close> (\<open>authz/authz.go\<close>): the gates.

  \<^item> \<open>Repo\<close> (\<open>repo/repo.go\<close>): the storage interface. \<open>Memstore_Base\<close>, \<open>_Net\<close>, \<open>_Dev\<close>, \<open>_Org\<close>, \<open>_Host\<close>, \<open>_Store\<close>
    (\<open>memstore\<close>): every operation of the in-memory store. \<open>Memstore_Inv\<close>: the table invariant holds in every reachable
    state, a failed host report changes nothing but that a default settings row may remain, ARP data never overrides other sources, due jobs are handed out once,
    the audit log only grows.

  \<^item> \<open>Contracts\<close>: the locales \<open>address_store\<close> and \<open>audit_sink\<close>, what the services rely on. \<open>Memstore_Contracts\<close> interprets them
    on the in-memory store.

  \<^item> \<open>Service\<close>: composition of service calls and event payloads. \<open>Svc_Addresses\<close> (\<open>addresses/addresses.go\<close>): all operations;
    allocation is minimal, returns for every store, never hands out a recorded address, and gives up when the lowest twenty
    candidates are recorded under other subnets; what the service returns belongs to the caller's tenant and has no owner.
    \<open>Forest\<close> and \<open>Svc_Subnets\<close> (\<open>subnets/subnets.go\<close>, \<open>snmp.go\<close>): the hierarchy of subnets and its tree view; an update can
    close a cycle.

  \<^item> \<open>Audit_Event\<close>, \<open>Audit_Writer\<close> (\<open>audit/audit.go\<close>): redaction of details in maps and lists (typed slices pass as they are), and the writer goroutine as a step relation over its
    queue; it refines a first-in first-out log and closing drains it unless a flush is overtaken.

  \<^item> \<open>Sealed\<close>, \<open>Snmpcred\<close> (\<open>sealed\<close>, \<open>snmpcred\<close>): envelopes over any authenticated cipher, redaction and merging of stored
    secrets, scrubbing of error texts and the lines it leaves in them, validation and inheritance of credentials.

  \<^item> \<open>Arpplan\<close>, \<open>Scan_Arp\<close> (\<open>arpplan\<close>, \<open>scan/arp.go\<close>): the plan made from ARP tables and its application; every
    operation has a trusted origin and a second run changes nothing.

  \<^item> \<open>Portlink\<close> (\<open>portlink/rank.go\<close>, \<open>portlink.go\<close>): ranking of the switch ports a host may be on and the merge with stored links;
    every link is justified, one per switch, one of them primary.

  \<^item> \<open>Stream_Client\<close> (\<open>stream/client.go\<close>): stream identifiers, the in-process client, the rate limiter, and the locale
    \<open>stream_client\<close> with its interpretation. \<open>Stream_Hub\<close> (\<open>stream/hub.go\<close>, \<open>sse.go\<close>): the critical sections of the hub.
    \<open>Stream_Run\<close>: their interleavings; delivery is sound and the limits hold for every client that meets the contract, and two ways in which
    a replay loses events for good.

  \<^bold>\<open>Bounds.\<close> Recursion is structural or has a termination proof. The retry loop of the allocator is a \<open>partial_function\<close> that is proved
  to return for every store. The parser of IPv6 text has a fuel of eight, the number of its fields. The walk along the subnet tree in
  \<open>snmpcred\<close> carries the code's own depth bound. A tree view is unfolded to as many levels as there are rows, which
  covers every chain without repetition. The hub's buffer, limits and page sizes are those of the code.

  \<^bold>\<open>Not modelled.\<close> The PostgreSQL store (\<open>repo/repodb\<close>, SQL executed elsewhere; the in-memory store stands for the
  interface), the Valkey client (a parameter with the contract as hypothesis), and the ciphers (a parameter).
  Network access: ICMP, TCP and SNMP probes, IPMI, BMC and KVM proxies, the clients of other services, and the polling of host reports.
  The planner and the normaliser of host reports (\<open>hostplan\<close>, most of \<open>hostreport\<close>): the transaction they run in
  is modelled for an arbitrary plan. The smaller services (\<open>locations\<close>, \<open>vlans\<close>, \<open>groups\<close>, \<open>devices\<close>, \<open>dnscfg\<close>, \<open>arpcfg\<close>,
  \<open>stats\<close>, \<open>backup\<close>): the store operations behind them are modelled. Paged lists other than that of addresses (their order and windowing are the
  \<open>listquery\<close> package, a parameter of that one), HTTP and gRPC encoding, configuration, wiring,
  generated code and the SDK. Floating-point utilisation, log output and metrics.
\<close>

end
